(* ===== verification/P2P_Prelude.thy ===== *)
theory P2P_Prelude
  imports Main "HOL-Library.Word"
begin

text \<open>
  Shared vocabulary of the development: Rust's unsigned integers as words, byte
  strings, the fixed-width big and little endian encodings of \<open>std\<close>
  (\<open>to_be_bytes\<close>, \<open>from_be_bytes\<close>, \<open>to_le_bytes\<close>, \<open>from_le_bytes\<close>), the saturating and
  checked operations the code uses, and the list and map lemmas the components share.
\<close>

unbundle bit_operations_syntax

type_synonym u8 = "8 word"
type_synonym u16 = "16 word"
type_synonym u32 = "32 word"
type_synonym u64 = "64 word"
type_synonym i32 = "32 word" \<comment> \<open>read as two's complement with \<open>sint\<close>\<close>
type_synonym bytes = "8 word list"

named_theorems codec_simps \<open>facts that evaluate an encoder followed by its decoder\<close>
named_theorems wire_consts \<open>values of the protocol constants\<close>

section \<open>Errors\<close>

text \<open>
  An \<open>anyhow::Error\<close> is the chain of its messages, the outermost context first;
  \<open>format!("{error:#}")\<close> joins the chain with \<open>": "\<close>.
\<close>

type_synonym anyhow = "string list"

fun alt_format :: "anyhow \<Rightarrow> string" where
  "alt_format [] = []"
| "alt_format [m] = m"
| "alt_format (m # ms) = m @ '': '' @ alt_format ms"

definition with_context :: "string \<Rightarrow> anyhow + 'a \<Rightarrow> anyhow + 'a" where
  "with_context c r = (case r of Inl e \<Rightarrow> Inl (c # e) | Inr x \<Rightarrow> Inr x)"

lemma with_context_Inr [simp]: "with_context c (Inr x) = Inr x"
  by (simp add: with_context_def)

lemma with_context_Inl [simp]: "with_context c (Inl e) = Inl (c # e)"
  by (simp add: with_context_def)

lemma with_context_eq_Inr [simp]: "with_context c r = Inr x \<longleftrightarrow> r = Inr x"
  by (cases r) simp_all

text \<open>\<open>timeout(d, future)\<close>: none for an expired timer.\<close>

definition with_timeout :: "string \<Rightarrow> (anyhow + 'a) option \<Rightarrow> anyhow + 'a" where
  "with_timeout context outcome =
     (case outcome of None \<Rightarrow> Inl [context, ''deadline has elapsed''] | Some r \<Rightarrow> r)"

text \<open>The \<open>?\<close> operator.\<close>

definition and_then :: "'e + 'a \<Rightarrow> ('a \<Rightarrow> 'e + 'b) \<Rightarrow> 'e + 'b" where
  "and_then r f = (case r of Inl e \<Rightarrow> Inl e | Inr x \<Rightarrow> f x)"

lemma and_then_simps [simp]: "and_then (Inl e) f = Inl e" "and_then (Inr x) f = f x"
  by (simp_all add: and_then_def)

lemma and_then_eq_Inr: "and_then r f = Inr y \<longleftrightarrow> (\<exists>x. r = Inr x \<and> f x = Inr y)"
  by (cases r) simp_all

section \<open>Fixed-width integers as bytes\<close>

fun le_bytes :: "nat \<Rightarrow> nat \<Rightarrow> bytes" where
  "le_bytes 0 v = []"
| "le_bytes (Suc n) v = word_of_nat (v mod 256) # le_bytes n (v div 256)"

fun le_nat :: "bytes \<Rightarrow> nat" where
  "le_nat [] = 0"
| "le_nat (b # bs) = unat b + 256 * le_nat bs"

definition to_le :: "'a::len word \<Rightarrow> bytes" where
  "to_le w = le_bytes (LENGTH('a) div 8) (unat w)"

definition to_be :: "'a::len word \<Rightarrow> bytes" where
  "to_be w = rev (to_le w)"

definition from_le :: "bytes \<Rightarrow> 'a::len word" where
  "from_le bs = word_of_nat (le_nat bs)"

definition from_be :: "bytes \<Rightarrow> 'a::len word" where
  "from_be bs = word_of_nat (le_nat (rev bs))"

lemma length_le_bytes [simp]: "length (le_bytes n v) = n"
  by (induction n arbitrary: v) simp_all

lemma unat_u8_lt [simp]: "unat (b :: u8) < 256"
  using unsigned_less [of b] by simp

lemma le_nat_le_bytes: "le_nat (le_bytes n v) = v mod 256 ^ n"
proof (induction n arbitrary: v)
  case (Suc n)
  have "unat (word_of_nat (v mod 256) :: u8) = v mod 256"
    by (simp add: unat_of_nat)
  then show ?case
    by (simp add: Suc.IH mod_mult2_eq)
qed simp

lemma le_bytes_le_nat [simp]: "le_bytes (length bs) (le_nat bs) = bs"
  by (induction bs) simp_all

lemma le_nat_less: "le_nat bs < 256 ^ length bs"
proof (induction bs)
  case (Cons b bs)
  have "unat b < 256" by (rule unat_u8_lt)
  then have "unat b + 256 * le_nat bs < 256 * Suc (le_nat bs)"
    by (simp only: mult_Suc_right add_less_cancel_right)
  also have "\<dots> \<le> 256 * 256 ^ length bs"
    using Cons by (intro mult_le_mono2) simp
  finally show ?case by simp
qed simp

lemma length_to_le: "length (to_le (w :: 'a::len word)) = LENGTH('a) div 8"
  by (simp add: to_le_def)

lemma length_to_be: "length (to_be (w :: 'a::len word)) = LENGTH('a) div 8"
  by (simp add: to_be_def length_to_le)

text \<open>
  The contract of a fixed-width encoding: every value takes the same number of bytes and
  is read back from them, and every byte string of that width is the encoding of what is
  read from it.
\<close>

locale fixed_codec =
  fixes enc :: "'v \<Rightarrow> bytes"
    and dec :: "bytes \<Rightarrow> 'v"
    and width :: nat
  assumes enc_width: "length (enc v) = width"
    and dec_enc: "dec (enc v) = v"
    and enc_dec: "length bs = width \<Longrightarrow> enc (dec bs) = bs"
begin

lemma dec_prefix: "dec (take width (enc v @ rest)) = v"
  by (simp add: enc_width dec_enc)

lemma drop_prefix: "drop width (enc v @ rest) = rest"
  by (simp add: enc_width)

lemma inj: "enc v = enc w \<longleftrightarrow> v = w"
  by (metis dec_enc)

lemma dec_inj: "length bs = width \<Longrightarrow> length cs = width \<Longrightarrow> dec bs = dec cs \<longleftrightarrow> bs = cs"
  by (metis enc_dec)

end

lemma from_le_to_le:
  assumes "8 * (LENGTH('a) div 8) = LENGTH('a)"
  shows "from_le (to_le (w :: 'a::len word)) = w"
proof -
  have "(256::nat) ^ (LENGTH('a) div 8) = 2 ^ (8 * (LENGTH('a) div 8))"
    by (simp add: power_mult)
  also have "\<dots> = 2 ^ LENGTH('a)"
    by (simp only: assms)
  finally show ?thesis
    using unsigned_less [of w] by (simp add: from_le_def to_le_def le_nat_le_bytes)
qed

lemma to_le_from_le:
  assumes "8 * (LENGTH('a) div 8) = LENGTH('a)" and "length bs = LENGTH('a) div 8"
  shows "to_le (from_le bs :: 'a::len word) = bs"
proof -
  have "le_nat bs < 256 ^ (LENGTH('a) div 8)"
    using le_nat_less [of bs] by (simp add: assms(2))
  also have "(256::nat) ^ (LENGTH('a) div 8) = 2 ^ (8 * (LENGTH('a) div 8))"
    by (simp add: power_mult)
  also have "\<dots> = 2 ^ LENGTH('a)"
    by (simp only: assms(1))
  finally have "unat (word_of_nat (le_nat bs) :: 'a word) = le_nat bs"
    by (simp add: unat_of_nat)
  then show ?thesis
    using le_bytes_le_nat [of bs] by (simp add: from_le_def to_le_def assms(2))
qed

lemma from_be_from_le: "from_be bs = from_le (rev bs)"
  by (simp add: from_be_def from_le_def)

interpretation le16: fixed_codec "to_le :: u16 \<Rightarrow> bytes" from_le 2
  by unfold_locales (simp_all add: length_to_le from_le_to_le to_le_from_le)

interpretation le32: fixed_codec "to_le :: u32 \<Rightarrow> bytes" from_le 4
  by unfold_locales (simp_all add: length_to_le from_le_to_le to_le_from_le)

interpretation le64: fixed_codec "to_le :: u64 \<Rightarrow> bytes" from_le 8
  by unfold_locales (simp_all add: length_to_le from_le_to_le to_le_from_le)

interpretation be16: fixed_codec "to_be :: u16 \<Rightarrow> bytes" from_be 2
  by unfold_locales
    (simp_all add: length_to_le to_be_def from_be_from_le from_le_to_le to_le_from_le)

interpretation be32: fixed_codec "to_be :: u32 \<Rightarrow> bytes" from_be 4
  by unfold_locales
    (simp_all add: length_to_le to_be_def from_be_from_le from_le_to_le to_le_from_le)

interpretation be64: fixed_codec "to_be :: u64 \<Rightarrow> bytes" from_be 8
  by unfold_locales
    (simp_all add: length_to_le to_be_def from_be_from_le from_le_to_le to_le_from_le)

lemmas fixed_widths [simp] =
  le16.enc_width le32.enc_width le64.enc_width be16.enc_width be32.enc_width be64.enc_width

lemmas fixed_round_trips [simp, codec_simps] =
  le16.dec_enc le32.dec_enc le64.dec_enc be16.dec_enc be32.dec_enc be64.dec_enc

text \<open>Bytewise exclusive or of an encoding is the encoding of the exclusive or.\<close>

lemma le_bytes_xor: "le_bytes n (v XOR w) = map2 (XOR) (le_bytes n v) (le_bytes n w)"
proof (induction n arbitrary: v w)
  case (Suc n)
  have m: "(v XOR w) mod 256 = (v mod 256) XOR (w mod 256)"
    using take_bit_xor [of 8 v w] by (simp add: take_bit_eq_mod)
  have d: "(v XOR w) div 256 = (v div 256) XOR (w div 256)"
    using drop_bit_xor [of 8 v w] by (simp add: drop_bit_eq_div)
  have x: "(word_of_nat (a XOR b) :: u8) = word_of_nat a XOR word_of_nat b" for a b
    by (rule bit_word_eqI) (simp add: bit_xor_iff bit_of_nat_iff)
  show ?case
    by (simp add: m d x Suc.IH)
qed simp

lemma to_be_xor: "to_be (v XOR w) = map2 (XOR) (to_be v) (to_be w)"
  by (simp add: to_be_def to_le_def unsigned_xor_eq le_bytes_xor zip_rev rev_map)

section \<open>Integer operations of the standard library\<close>

definition saturating_sub :: "'a::len word \<Rightarrow> 'a word \<Rightarrow> 'a word" where
  "saturating_sub a b = (if b \<le> a then a - b else 0)"

definition checked_add :: "'a::len word \<Rightarrow> 'a word \<Rightarrow> 'a word option" where
  "checked_add a b = (if unat a + unat b < 2 ^ LENGTH('a) then Some (a + b) else None)"

definition checked_sub :: "'a::len word \<Rightarrow> 'a word \<Rightarrow> 'a word option" where
  "checked_sub a b = (if b \<le> a then Some (a - b) else None)"

definition next_multiple_of :: "nat \<Rightarrow> nat \<Rightarrow> nat" where
  "next_multiple_of n m = (if n mod m = 0 then n else n + (m - n mod m))"

lemma unat_saturating_sub: "unat (saturating_sub a b) = unat a - unat b"
  by (auto simp: saturating_sub_def unat_sub word_le_nat_alt)

lemma checked_add_SomeD: "checked_add a b = Some c \<Longrightarrow> unat c = unat a + unat b"
  by (auto simp: checked_add_def unat_add_lem [THEN iffD1] split: if_splits)

lemma checked_sub_SomeD: "checked_sub a b = Some c \<Longrightarrow> unat a = unat c + unat b"
  by (auto simp: checked_sub_def unat_sub word_le_nat_alt split: if_splits)

lemma next_multiple_of_ge: "n \<le> next_multiple_of n m"
  by (simp add: next_multiple_of_def)

lemma next_multiple_of_mod: "0 < m \<Longrightarrow> next_multiple_of n m mod m = 0"
proof -
  assume "0 < m"
  then have "n + (m - n mod m) = m * Suc (n div m)"
    using mod_less_divisor [OF \<open>0 < m\<close>, of n] mult_div_mod_eq [of m n]
    by (simp only: mult_Suc_right)
  then show ?thesis
    by (auto simp: next_multiple_of_def simp del: mult_Suc_right)
qed

section \<open>Lists and maps\<close>

lemma nth2: "length xs = 2 \<Longrightarrow> xs = [xs ! 0, xs ! 1]"
  by (auto simp: length_Suc_conv eval_nat_numeral)

lemma nth4: "length xs = 4 \<Longrightarrow> xs = [xs ! 0, xs ! 1, xs ! 2, xs ! 3]"
  by (auto simp: length_Suc_conv eval_nat_numeral)

text \<open>\<open>HashMap::entry(k).or_insert(v)\<close> over a sequence keeps the first value of a key.\<close>

definition entry_or_insert :: "'k \<Rightarrow> 'v \<Rightarrow> ('k \<rightharpoonup> 'v) \<Rightarrow> ('k \<rightharpoonup> 'v)" where
  "entry_or_insert k v m = (case m k of None \<Rightarrow> m(k \<mapsto> v) | Some _ \<Rightarrow> m)"

text \<open>\<open>iter_mut().find(p)\<close> followed by an update of the element found.\<close>

fun update_first :: "('a \<Rightarrow> bool) \<Rightarrow> ('a \<Rightarrow> 'a) \<Rightarrow> 'a list \<Rightarrow> 'a list" where
  "update_first p f [] = []"
| "update_first p f (x # xs) = (if p x then f x # xs else x # update_first p f xs)"

lemma length_update_first [simp]: "length (update_first p f xs) = length xs"
  by (induction xs) simp_all

lemma update_first_absent: "\<forall>x \<in> set xs. \<not> p x \<Longrightarrow> update_first p f xs = xs"
  by (induction xs) simp_all

lemma map_update_first_same:
  "(\<And>x. p x \<Longrightarrow> g (f x) = g x) \<Longrightarrow> map g (update_first p f xs) = map g xs"
  by (induction xs) simp_all

lemma set_update_first_subset: "set (update_first p f xs) \<subseteq> set xs \<union> f ` {x \<in> set xs. p x}"
  by (induction xs) auto

lemma update_first_keeps:
  "y \<in> set xs \<Longrightarrow> \<not> p y \<Longrightarrow> y \<in> set (update_first p f xs)"
  by (induction xs) auto

lemma update_first_hits:
  "x \<in> set xs \<Longrightarrow> p x \<Longrightarrow> \<exists>y \<in> set xs. p y \<and> f y \<in> set (update_first p f xs)"
  by (induction xs) auto

lemma update_first_distinct:
  "distinct (map g xs) \<Longrightarrow>
     update_first (\<lambda>x. g x = k) f xs = map (\<lambda>x. if g x = k then f x else x) xs"
proof (induction xs)
  case (Cons x xs)
  show ?case
  proof (cases "g x = k")
    case True
    then have "map (\<lambda>x. if g x = k then f x else x) xs = xs"
      using Cons.prems by (intro map_idI) (metis (no_types, lifting) distinct.simps(2) image_eqI list.set_map list.simps(9))
    with True show ?thesis by simp
  qed (use Cons in simp)
qed simp

lemma filter_update_first:
  "(\<And>x. q x \<Longrightarrow> \<not> p x) \<Longrightarrow> (\<And>x. p x \<Longrightarrow> \<not> q (f x)) \<Longrightarrow>
     filter q (update_first p f xs) = filter q xs"
  by (induction xs) auto

text \<open>\<open>iter().position(p)\<close> followed by \<open>Vec::remove\<close> of that position.\<close>

fun remove_first :: "('a \<Rightarrow> bool) \<Rightarrow> 'a list \<Rightarrow> 'a list" where
  "remove_first p [] = []"
| "remove_first p (x # xs) = (if p x then xs else x # remove_first p xs)"

lemma set_remove_first_subset: "set (remove_first p xs) \<subseteq> set xs"
  by (induction xs) auto

lemma distinct_map_remove_first: "distinct (map g xs) \<Longrightarrow> distinct (map g (remove_first p xs))"
  using set_remove_first_subset by (induction xs) fastforce+

lemma remove_first_keeps: "y \<in> set xs \<Longrightarrow> \<not> p y \<Longrightarrow> y \<in> set (remove_first p xs)"
  by (induction xs) auto

text \<open>First success of a list of attempts, else the error of the last one.\<close>

fun first_ok :: "'e option \<Rightarrow> ('e + 'a) list \<Rightarrow> 'e option + 'a" where
  "first_ok last_error [] = Inl last_error"
| "first_ok last_error (r # rs) =
     (case r of Inr x \<Rightarrow> Inr x | Inl e \<Rightarrow> first_ok (Some e) rs)"

text \<open>
  Loops of this kind, with attempts of their own and an error of their own when there was no
  attempt at all, share their laws.
\<close>

locale retry =
  fixes attempt :: "'a \<Rightarrow> 'e + 'b" and run :: "'e option \<Rightarrow> 'a list \<Rightarrow> 'f + 'b"
    and give_up :: "'e option \<Rightarrow> 'f"
  assumes run_Nil: "run last_error [] = Inl (give_up last_error)"
    and run_Cons: "run last_error (a # as) =
      (case attempt a of Inr y \<Rightarrow> Inr y | Inl e \<Rightarrow> run (Some e) as)"
begin

lemma run_success:
  "run l as = Inr y \<longleftrightarrow>
     (\<exists>before a after. as = before @ a # after \<and> attempt a = Inr y \<and> (\<forall>b \<in> set before. isl (attempt b)))"
proof (induction as arbitrary: l)
  case Nil
  then show ?case by (simp add: run_Nil)
next
  case (Cons a as)
  show ?case
  proof (cases "attempt a")
    case (Inl e)
    then have r: "run l (a # as) = run (Some e) as" by (simp add: run_Cons)
    show ?thesis
    proof
      assume "run l (a # as) = Inr y"
      then obtain before x after where "as = before @ x # after" "attempt x = Inr y"
          "\<forall>b \<in> set before. isl (attempt b)"
        using r Cons.IH by auto
      then show "\<exists>before x after. a # as = before @ x # after \<and> attempt x = Inr y \<and> (\<forall>b \<in> set before. isl (attempt b))"
        using Inl by (intro exI [of _ "a # before"] exI [of _ x] exI [of _ after]) simp
    next
      assume "\<exists>before x after. a # as = before @ x # after \<and> attempt x = Inr y \<and> (\<forall>b \<in> set before. isl (attempt b))"
      then obtain before x after where o: "a # as = before @ x # after" "attempt x = Inr y"
          "\<forall>b \<in> set before. isl (attempt b)" by blast
      with Inl obtain before' where "before = a # before'" by (cases before) auto
      with o r show "run l (a # as) = Inr y" using Cons.IH [of "Some e"] by auto
    qed
  next
    case (Inr z)
    have "z = y" if "a # as = before @ x # after" "attempt x = Inr y" "\<forall>b \<in> set before. isl (attempt b)"
      for before x after
      using that Inr by (cases before) auto
    moreover have "\<exists>before x after. a # as = before @ x # after \<and> attempt x = Inr z \<and> (\<forall>b \<in> set before. isl (attempt b))"
      using Inr by (intro exI [of _ "[]"]) simp
    ultimately show ?thesis using Inr by (auto simp: run_Cons)
  qed
qed

lemma run_failure:
  "run l as = Inl f \<longleftrightarrow> (\<forall>a \<in> set as. isl (attempt a))
     \<and> f = give_up (if as = [] then l else Some (projl (attempt (last as))))"
proof (induction as arbitrary: l)
  case Nil
  then show ?case by (auto simp: run_Nil)
next
  case (Cons a as)
  then show ?case by (cases "attempt a") (auto simp: run_Cons)
qed

end

interpretation first_ok: retry id first_ok id
  by unfold_locales (simp_all split: sum.split)

text \<open>A loop over what arrives or is at hand, up to the first item that means something.\<close>

locale first_found =
  fixes read :: "'d \<Rightarrow> 'r option" and loop :: "'d list \<Rightarrow> 'r option"
  assumes loop_Nil: "loop [] = None"
    and loop_Cons: "loop (d # ds) = (case read d of Some r \<Rightarrow> Some r | None \<Rightarrow> loop ds)"
begin

lemma loop_skip: "\<forall>d \<in> set noise. read d = None \<Longrightarrow> loop (noise @ ds) = loop ds"
  by (induction noise) (simp_all add: loop_Cons)

lemma loop_None: "loop ds = None \<longleftrightarrow> (\<forall>d \<in> set ds. read d = None)"
  by (induction ds) (auto simp: loop_Nil loop_Cons split: option.splits)

lemma loop_first: "\<forall>d \<in> set noise. read d = None \<Longrightarrow> read d = Some r \<Longrightarrow> loop (noise @ d # ds) = Some r"
  by (simp add: loop_skip loop_Cons)

lemma loop_split:
  "loop ds = Some r \<Longrightarrow> \<exists>noise d rest. ds = noise @ d # rest \<and> read d = Some r \<and> (\<forall>x \<in> set noise. read x = None)"
proof (induction ds)
  case (Cons d ds)
  show ?case
  proof (cases "read d")
    case None
    with Cons obtain noise x rest where "ds = noise @ x # rest" "read x = Some r" "\<forall>x \<in> set noise. read x = None"
      by (auto simp: loop_Cons)
    then show ?thesis using None by (intro exI [of _ "d # noise"]) auto
  next
    case (Some q)
    with Cons.prems show ?thesis by (intro exI [of _ "[]"]) (simp add: loop_Cons)
  qed
qed (simp add: loop_Nil)

end

end
