(* ===== verification/Rust_Str.thy ===== *)
theory Rust_Str
  imports P2P_Prelude "HOL-Library.Sublist"
begin

text \<open>
  Rust's \<open>str\<close>. A Rust string is the sequence of its UTF-8 octets, and an Isabelle
  \<open>char\<close> is an octet, so \<open>string\<close> models \<open>String\<close> and \<open>&str\<close>, \<open>length\<close> is \<open>len()\<close>,
  and a literal of ASCII text is written as in the source. The theory holds the
  operations of the standard library that the program calls: \<open>as_bytes\<close>,
  \<open>String::from_utf8_lossy\<close>, \<open>split\<close>, \<open>split_once\<close>, \<open>find\<close>, \<open>contains\<close>, \<open>trim\<close>,
  \<open>to_ascii_lowercase\<close>, \<open>parse\<close> and \<open>Display\<close> of integers.
\<close>

section \<open>Octets\<close>

definition codes :: "string \<Rightarrow> nat list" where
  "codes s = map of_char s"

definition as_bytes :: "string \<Rightarrow> bytes" where
  "as_bytes s = map of_char s"

definition chars_of :: "bytes \<Rightarrow> string" where
  "chars_of bs = map (\<lambda>b. char_of (unat b)) bs"

lemma unat_of_char [simp]: "unat (of_char c :: u8) = of_char c"
proof -
  have "(of_char c :: nat) < 256"
    using nat_of_char_less_256 .
  moreover have "(of_char c :: u8) = word_of_nat (of_char c)"
    by (simp add: of_char_def)
  ultimately show ?thesis by (simp add: unat_of_nat)
qed

lemma chars_of_as_bytes [simp]: "chars_of (as_bytes s) = s"
  by (simp add: chars_of_def as_bytes_def comp_def)

lemma length_as_bytes [simp]: "length (as_bytes s) = length s"
  by (simp add: as_bytes_def)

lemma as_bytes_append [simp]: "as_bytes (s @ t) = as_bytes s @ as_bytes t"
  by (simp add: as_bytes_def)

lemma as_bytes_inj [simp]: "as_bytes s = as_bytes t \<longleftrightarrow> s = t"
  by (metis chars_of_as_bytes)

lemma map_unat_as_bytes [simp]: "map unat (as_bytes s) = codes s"
  by (simp add: as_bytes_def codes_def comp_def)

section \<open>\<open>String::from_utf8_lossy\<close>\<close>

text \<open>
  One step of the decoder: how many octets it consumes and whether they are a well-formed
  sequence. An ill-formed maximal prefix becomes one U+FFFD, as in \<open>std\<close>.
\<close>

definition is_cont :: "nat \<Rightarrow> bool" where
  "is_cont c \<longleftrightarrow> 0x80 \<le> c \<and> c \<le> 0xBF"

definition second_ok :: "nat \<Rightarrow> nat \<Rightarrow> bool" where
  "second_ok b c \<longleftrightarrow> is_cont c \<and> (b = 0xE0 \<longrightarrow> 0xA0 \<le> c) \<and> (b = 0xED \<longrightarrow> c \<le> 0x9F)
     \<and> (b = 0xF0 \<longrightarrow> 0x90 \<le> c) \<and> (b = 0xF4 \<longrightarrow> c \<le> 0x8F)"

fun utf8_tail :: "nat \<Rightarrow> nat \<Rightarrow> nat list \<Rightarrow> nat \<times> bool" where
  "utf8_tail used 0 cs = (used, True)"
| "utf8_tail used (Suc n) [] = (used, False)"
| "utf8_tail used (Suc n) (c # cs) =
     (if is_cont c then utf8_tail (Suc used) n cs else (used, False))"

fun utf8_step :: "nat list \<Rightarrow> nat \<times> bool" where
  "utf8_step [] = (0, True)"
| "utf8_step (b # cs) =
     (if b < 0x80 then (1, True)
      else if 0xC2 \<le> b \<and> b \<le> 0xDF then utf8_tail 1 1 cs
      else if 0xE0 \<le> b \<and> b \<le> 0xF4 then
        (case cs of [] \<Rightarrow> (1, False)
         | c # cs' \<Rightarrow> if second_ok b c then utf8_tail 2 (if b < 0xF0 then 1 else 2) cs'
                     else (1, False))
      else (1, False))"

lemma utf8_tail_fst: "used \<le> fst (utf8_tail used n cs)"
  by (induction used n cs rule: utf8_tail.induct) auto

lemma utf8_tail_pos [simp]: "0 < used \<Longrightarrow> 0 < fst (utf8_tail used n cs)"
  using utf8_tail_fst [of used n cs] by linarith

lemma utf8_step_pos: "cs \<noteq> [] \<Longrightarrow> 0 < fst (utf8_step cs)"
  by (cases cs) (simp_all split: list.split del: utf8_tail.simps)

definition replacement_char :: string where
  "replacement_char = map char_of [0xEF, 0xBF, 0xBD :: nat]"

function utf8_lossy :: "bytes \<Rightarrow> string" where
  "utf8_lossy bs =
     (if bs = [] then []
      else let (n, ok) = utf8_step (map unat bs)
           in (if ok then chars_of (take n bs) else replacement_char) @ utf8_lossy (drop n bs))"
  by pat_completeness auto
termination
proof (relation "measure length", goal_cases)
  case (2 bs x n ok)
  then have "0 < n" using utf8_step_pos [of "map unat bs"] by (metis fst_conv list.map_disc_iff)
  with 2 show ?case by (cases bs) auto
qed simp

declare utf8_lossy.simps [simp del]

text \<open>Well-formed text, which every Rust \<open>String\<close> is.\<close>

function utf8_valid :: "nat list \<Rightarrow> bool" where
  "utf8_valid cs =
     (if cs = [] then True
      else let (n, ok) = utf8_step cs in if ok then utf8_valid (drop n cs) else False)"
  by pat_completeness auto
termination
proof (relation "measure length", goal_cases)
  case (2 cs x n ok)
  then have "0 < n" using utf8_step_pos [of cs] by (metis fst_conv)
  with 2 show ?case by (cases cs) auto
qed simp

declare utf8_valid.simps [simp del]

lemma utf8_Nil [simp]: "utf8_valid []" "utf8_lossy [] = []"
  by (subst utf8_valid.simps, simp) (subst utf8_lossy.simps, simp)

lemma utf8_valid_step:
  "utf8_valid cs \<Longrightarrow> cs \<noteq> [] \<Longrightarrow> \<exists>n. utf8_step cs = (n, True) \<and> 0 < n \<and> utf8_valid (drop n cs)"
  using utf8_step_pos [of cs]
  by (subst (asm) utf8_valid.simps) (auto split: prod.splits if_splits)

definition is_str :: "string \<Rightarrow> bool" where
  "is_str s \<longleftrightarrow> utf8_valid (codes s)"

lemma utf8_tail_append:
  "utf8_tail used n cs = (m, True) \<Longrightarrow> utf8_tail used n (cs @ ds) = (m, True)"
  by (induction used n cs rule: utf8_tail.induct) (auto split: if_splits)

lemma utf8_tail_le:
  "utf8_tail used n cs = (m, True) \<Longrightarrow> m \<le> used + length cs"
  by (induction used n cs rule: utf8_tail.induct) (auto split: if_splits)

lemma utf8_step_append:
  assumes "cs \<noteq> []" and "utf8_step cs = (m, True)"
  shows "utf8_step (cs @ ds) = (m, True)"
  using assms by (cases cs) (auto split: if_splits list.splits intro: utf8_tail_append)

lemma utf8_step_le: "utf8_step cs = (m, True) \<Longrightarrow> m \<le> length cs"
  by (cases cs) (auto split: if_splits list.splits dest: utf8_tail_le)

lemma utf8_valid_append:
  "utf8_valid cs \<Longrightarrow> utf8_valid ds \<Longrightarrow> utf8_valid (cs @ ds)"
proof (induction cs rule: length_induct)
  case (1 cs)
  show ?case
  proof (cases "cs = []")
    case False
    with utf8_valid_step [OF "1.prems"(1)] obtain n where n: "utf8_step cs = (n, True)" "0 < n"
      and v: "utf8_valid (drop n cs)" by blast
    have "utf8_valid (drop n cs @ ds)"
      using "1.IH" False n(2) v "1.prems"(2) by simp
    then show ?thesis
      using False utf8_step_append [OF False n(1), of ds] utf8_step_le [OF n(1)]
      by (subst utf8_valid.simps) simp
  qed (use "1.prems" in simp)
qed

lemma utf8_valid_ascii: "\<forall>c \<in> set cs. c < 0x80 \<Longrightarrow> utf8_valid cs"
proof (induction cs)
  case (Cons c cs)
  then show ?case by (subst utf8_valid.simps) simp
qed simp

lemma is_str_append: "is_str s \<Longrightarrow> is_str t \<Longrightarrow> is_str (s @ t)"
  by (simp add: is_str_def codes_def utf8_valid_append)

lemma is_str_ascii: "\<forall>c \<in> set s. of_char c < (0x80 :: nat) \<Longrightarrow> is_str s"
  by (simp add: is_str_def codes_def utf8_valid_ascii)

lemma utf8_lossy_as_bytes: "is_str s \<Longrightarrow> utf8_lossy (as_bytes s) = s"
proof (induction s rule: length_induct)
  case (1 s)
  show ?case
  proof (cases "s = []")
    case False
    then have ne: "codes s \<noteq> []" by (simp add: codes_def)
    with utf8_valid_step [of "codes s"] "1.prems"
    obtain n where n: "utf8_step (codes s) = (n, True)" "0 < n" and v: "utf8_valid (drop n (codes s))"
      unfolding is_str_def by blast
    then have "utf8_lossy (as_bytes (drop n s)) = drop n s"
      using "1.IH" False v by (simp add: is_str_def codes_def drop_map)
    then show ?thesis
      using False n
      by (subst utf8_lossy.simps)
        (simp add: as_bytes_def drop_map take_map chars_of_def comp_def codes_def)
  qed (simp add: as_bytes_def)
qed

section \<open>Splitting and searching\<close>

text \<open>\<open>str::split(char)\<close> for an ASCII separator: always at least one piece.\<close>

fun split_on :: "char \<Rightarrow> string \<Rightarrow> string list" where
  "split_on sep [] = [[]]"
| "split_on sep (c # cs) =
     (if c = sep then [] # split_on sep cs
      else case split_on sep cs of p # ps \<Rightarrow> (c # p) # ps | [] \<Rightarrow> [[c]])"

lemma split_on_ne [simp]: "split_on sep s \<noteq> []"
  by (induction s) (auto split: list.splits)

lemma split_on_single: "sep \<notin> set s \<Longrightarrow> split_on sep s = [s]"
  by (induction s) auto

lemma split_on_append: "sep \<notin> set s \<Longrightarrow> split_on sep (s @ sep # t) = s # split_on sep t"
  by (induction s) auto

fun join :: "string \<Rightarrow> string list \<Rightarrow> string" where
  "join sep [] = []"
| "join sep [s] = s"
| "join sep (s # ss) = s @ sep @ join sep ss"

text \<open>\<open>str::find\<close> and \<open>contains\<close> with a string pattern.\<close>

fun find_sub :: "string \<Rightarrow> string \<Rightarrow> nat option" where
  "find_sub pat [] = (if pat = [] then Some 0 else None)"
| "find_sub pat (c # cs) =
     (if take (length pat) (c # cs) = pat then Some 0 else map_option Suc (find_sub pat cs))"

definition contains :: "string \<Rightarrow> string \<Rightarrow> bool" where
  "contains s pat \<longleftrightarrow> find_sub pat s \<noteq> None"

lemma contains_iff: "contains s pat \<longleftrightarrow> (\<exists>a b. s = a @ pat @ b)"
proof (induction s)
  case Nil
  then show ?case by (simp add: contains_def)
next
  case (Cons c cs)
  have tk: "take (length pat) (c # cs) = pat \<longleftrightarrow> (\<exists>b. c # cs = pat @ b)"
    by (metis append_eq_conv_conj append_take_drop_id)
  show ?case
    using Cons tk by (auto simp: contains_def Cons_eq_append_conv)
qed

section \<open>Case and white space\<close>

definition to_ascii_lowercase :: "string \<Rightarrow> string" where
  "to_ascii_lowercase s =
     map (\<lambda>c. let n = of_char c :: nat in if 65 \<le> n \<and> n \<le> 90 then char_of (n + 32) else c) s"

text \<open>
  The octets of a white-space character (Unicode \<open>White_Space\<close>) at the front of a
  string, 0 if there is none.
\<close>

fun ws_prefix :: "nat list \<Rightarrow> nat" where
  "ws_prefix [] = 0"
| "ws_prefix (b # cs) =
     (if b = 32 \<or> 9 \<le> b \<and> b \<le> 13 then 1
      else if b = 0xC2 then
        (case cs of c # _ \<Rightarrow> if c = 0x85 \<or> c = 0xA0 then 2 else 0 | [] \<Rightarrow> 0)
      else if b = 0xE1 \<or> b = 0xE2 \<or> b = 0xE3 then
        (case cs of c # d # _ \<Rightarrow>
           if b = 0xE1 \<and> c = 0x9A \<and> d = 0x80
             \<or> b = 0xE2 \<and> c = 0x80 \<and> (0x80 \<le> d \<and> d \<le> 0x8A \<or> d = 0xA8 \<or> d = 0xA9 \<or> d = 0xAF)
             \<or> b = 0xE2 \<and> c = 0x81 \<and> d = 0x9F
             \<or> b = 0xE3 \<and> c = 0x80 \<and> d = 0x80
           then 3 else 0
         | _ \<Rightarrow> 0)
      else 0)"

definition ws_suffix :: "nat list \<Rightarrow> nat" where
  "ws_suffix cs =
     (let ends = (\<lambda>n. n \<le> length cs \<and> ws_prefix (drop (length cs - n) cs) = n)
      in if ends 1 then 1 else if ends 2 then 2 else if ends 3 then 3 else 0)"

function trim_start :: "string \<Rightarrow> string" where
  "trim_start s = (let n = ws_prefix (codes s) in if n = 0 then s else trim_start (drop n s))"
  by pat_completeness auto
termination
proof (relation "measure length", goal_cases)
  case (2 s n)
  then show ?case by (cases s) (auto simp: codes_def)
qed simp

function trim_end :: "string \<Rightarrow> string" where
  "trim_end s =
     (let n = ws_suffix (codes s) in if n = 0 then s else trim_end (take (length s - n) s))"
  by pat_completeness auto
termination
proof (relation "measure length", goal_cases)
  case (2 s n)
  then show ?case by (cases s) (auto simp: codes_def ws_suffix_def Let_def split: if_splits)
qed simp

declare trim_start.simps [simp del] trim_end.simps [simp del]

definition trim :: "string \<Rightarrow> string" where
  "trim s = trim_end (trim_start s)"

lemma trim_start_done: "ws_prefix (codes (trim_start s)) = 0"
proof (induction s rule: trim_start.induct)
  case (1 s)
  then show ?case by (subst trim_start.simps) (auto simp: Let_def)
qed

lemma trim_end_done: "ws_suffix (codes (trim_end s)) = 0"
proof (induction s rule: trim_end.induct)
  case (1 s)
  then show ?case by (subst trim_end.simps) (auto simp: Let_def)
qed

lemma trim_start_id: "ws_prefix (codes s) = 0 \<Longrightarrow> trim_start s = s"
  by (subst trim_start.simps) simp

lemma trim_end_id: "ws_suffix (codes s) = 0 \<Longrightarrow> trim_end s = s"
  by (subst trim_end.simps) simp

lemma trim_id: "ws_prefix (codes s) = 0 \<Longrightarrow> ws_suffix (codes s) = 0 \<Longrightarrow> trim s = s"
  by (simp add: trim_def trim_start_id trim_end_id)

section \<open>Decimal integers\<close>

definition digit :: "nat \<Rightarrow> char" where
  "digit d = char_of (48 + d)"

definition is_digit :: "char \<Rightarrow> bool" where
  "is_digit c \<longleftrightarrow> 48 \<le> (of_char c :: nat) \<and> (of_char c :: nat) \<le> 57"

fun show_nat :: "nat \<Rightarrow> string" where
  "show_nat n = (if n < 10 then [digit n] else show_nat (n div 10) @ [digit (n mod 10)])"

declare show_nat.simps [simp del]

definition dec_value :: "string \<Rightarrow> nat" where
  "dec_value = foldl (\<lambda>v c. 10 * v + (of_char c - 48)) 0"

text \<open>\<open>parse::<uN>()\<close> with \<open>bound = 2 ^ N\<close>: an optional plus sign, then digits only.\<close>

definition strip_plus :: "string \<Rightarrow> string" where
  "strip_plus s = (case s of c # cs \<Rightarrow> if c = CHR ''+'' then cs else s | [] \<Rightarrow> [])"

definition parse_unsigned :: "nat \<Rightarrow> string \<Rightarrow> nat option" where
  "parse_unsigned bound s =
     (let ds = strip_plus s
      in if ds = [] \<or> \<not> list_all is_digit ds then None
         else if dec_value ds < bound then Some (dec_value ds) else None)"

text \<open>\<open>parse::<i32>()\<close>.\<close>

definition parse_i32 :: "string \<Rightarrow> int option" where
  "parse_i32 s =
     (case s of
        [] \<Rightarrow> None
      | c # cs \<Rightarrow>
          if c = CHR ''-'' then
            (if cs = [] \<or> \<not> list_all is_digit cs then None
             else if dec_value cs \<le> 2 ^ 31 then Some (- int (dec_value cs)) else None)
          else map_option int (parse_unsigned (2 ^ 31) s))"

lemma of_char_digit: "d < 10 \<Longrightarrow> of_char (digit d) = 48 + d"
  by (simp add: digit_def)

lemma is_digit_digit: "d < 10 \<Longrightarrow> is_digit (digit d)"
  by (simp add: is_digit_def of_char_digit)

lemma show_nat_digits: "list_all is_digit (show_nat n)"
proof (induction n rule: show_nat.induct)
  case (1 n)
  then show ?case by (subst show_nat.simps) (simp add: is_digit_digit)
qed

lemma show_nat_ne [simp]: "show_nat n \<noteq> []"
  by (subst show_nat.simps) simp

lemma dec_value_show_nat [simp]: "dec_value (show_nat n) = n"
proof (induction n rule: show_nat.induct)
  case (1 n)
  then show ?case
    by (subst show_nat.simps) (auto simp: dec_value_def of_char_digit)
qed

lemma show_nat_no_plus: "strip_plus (show_nat n) = show_nat n"
proof -
  have "c \<noteq> CHR ''+''" if "is_digit c" for c
    using that by (auto simp: is_digit_def)
  then show ?thesis
    using show_nat_digits [of n] by (cases "show_nat n") (auto simp: strip_plus_def)
qed

lemma parse_show_nat [codec_simps]: "n < b \<Longrightarrow> parse_unsigned b (show_nat n) = Some n"
  by (simp add: parse_unsigned_def show_nat_no_plus show_nat_digits)

lemma parse_unsigned_bound: "parse_unsigned b s = Some n \<Longrightarrow> n < b"
  by (auto simp: parse_unsigned_def Let_def split: if_splits)

lemma show_nat_set: "c \<in> set (show_nat n) \<Longrightarrow> is_digit c"
  using show_nat_digits [of n] by (simp add: list_all_iff)

lemma show_nat_str: "is_str (show_nat n)"
  by (rule is_str_ascii) (auto dest!: show_nat_set simp: is_digit_def)

lemma show_nat_inj: "show_nat m = show_nat n \<longleftrightarrow> m = n"
  by (metis dec_value_show_nat)

end
