(* ===== verification/Wss_Frame.thy ===== *)
theory Wss_Frame
  imports Rust_Str
begin

text \<open>
  The binary frames of \<open>wss_relay.rs\<close>: one byte of kind, eight bytes of stream id (big
  endian), then the payload; DATA payloads of at least 64 bytes are sent compressed when
  that makes them shorter. The zstd library is a parameter: a compressor and a
  decompressor that may fail.
\<close>

section \<open>Constants\<close>

definition FRAME_OPEN :: u8 where [wire_consts]: "FRAME_OPEN = 1"
definition FRAME_DATA :: u8 where [wire_consts]: "FRAME_DATA = 2"
definition FRAME_CLOSE :: u8 where [wire_consts]: "FRAME_CLOSE = 3"
definition FRAME_HELLO :: u8 where [wire_consts]: "FRAME_HELLO = 4"
definition FRAME_READY :: u8 where [wire_consts]: "FRAME_READY = 5"
definition FRAME_ERROR :: u8 where [wire_consts]: "FRAME_ERROR = 6"
definition FRAME_PING :: u8 where [wire_consts]: "FRAME_PING = 7"
definition FRAME_DATA_ZSTD :: u8 where [wire_consts]: "FRAME_DATA_ZSTD = 8"
definition FRAME_PONG :: u8 where [wire_consts]: "FRAME_PONG = 9"

definition ZSTD_MIN_PAYLOAD :: nat where [wire_consts]: "ZSTD_MIN_PAYLOAD = 64"
definition ZSTD_LEVEL :: int where [wire_consts]: "ZSTD_LEVEL = 1"
definition TCP_CHUNK_SIZE :: nat where [wire_consts]: "TCP_CHUNK_SIZE = 16 * 1024"

section \<open>Codec\<close>

record frame =
  fr_kind :: u8
  fr_stream_id :: u64
  fr_payload :: bytes

type_synonym zstd_encoder = "int \<Rightarrow> bytes \<Rightarrow> anyhow + bytes" \<comment> \<open>\<open>zstd::stream::encode_all\<close>\<close>
type_synonym zstd_decoder = "bytes \<Rightarrow> anyhow + bytes" \<comment> \<open>\<open>zstd::stream::decode_all\<close>\<close>

definition encode_frame :: "u8 \<Rightarrow> u64 \<Rightarrow> bytes \<Rightarrow> bytes" where
  "encode_frame kind stream_id payload = [kind] @ to_be stream_id @ payload"

definition zstd_decompress_data :: "zstd_decoder \<Rightarrow> bytes \<Rightarrow> anyhow + bytes" where
  "zstd_decompress_data decode_all compressed =
     with_context ''zstd decompression failed for WSS relay frame'' (decode_all compressed)"

definition decode_frame :: "zstd_decoder \<Rightarrow> bytes \<Rightarrow> anyhow + frame" where
  "decode_frame decode_all data =
     (if length data < 9 then
        Inl [''WSS relay frame too short ('' @ show_nat (length data) @ '' bytes)'']
      else
        let kind = data ! 0; stream_id = from_be (take 8 (drop 1 data)); payload = drop 9 data
        in if kind = FRAME_DATA_ZSTD then
             and_then (zstd_decompress_data decode_all payload) (\<lambda>decompressed.
               Inr \<lparr>fr_kind = FRAME_DATA, fr_stream_id = stream_id, fr_payload = decompressed\<rparr>)
           else Inr \<lparr>fr_kind = kind, fr_stream_id = stream_id, fr_payload = payload\<rparr>)"

definition encode_data_frame_maybe_compressed :: "zstd_encoder \<Rightarrow> u64 \<Rightarrow> bytes \<Rightarrow> bytes" where
  "encode_data_frame_maybe_compressed encode_all stream_id payload =
     (if length payload < ZSTD_MIN_PAYLOAD then encode_frame FRAME_DATA stream_id payload
      else
        case encode_all ZSTD_LEVEL payload of
          Inr compressed \<Rightarrow>
            if length compressed < length payload
            then encode_frame FRAME_DATA_ZSTD stream_id compressed
            else encode_frame FRAME_DATA stream_id payload
        | Inl _ \<Rightarrow> encode_frame FRAME_DATA stream_id payload)"

text \<open>What the code relies on: decompression undoes compression.\<close>

definition zstd_lossless :: "zstd_encoder \<Rightarrow> zstd_decoder \<Rightarrow> bool" where
  "zstd_lossless encode_all decode_all \<longleftrightarrow>
     (\<forall>level data c. encode_all level data = Inr c \<longrightarrow> decode_all c = Inr data)"

section \<open>Lemmas\<close>

lemma length_encode_frame [simp]: "length (encode_frame k s p) = 9 + length p"
  by (simp add: encode_frame_def)

lemma frame_parts:
  "encode_frame k s p ! 0 = k"
  "take 8 (drop 1 (encode_frame k s p)) = to_be s"
  "take 8 (drop (Suc 0) (encode_frame k s p)) = to_be s"
  "drop 9 (encode_frame k s p) = p"
  by (simp_all add: encode_frame_def)

lemma decode_encode_frame [codec_simps]:
  "decode_frame z (encode_frame k s p) =
     (if k = FRAME_DATA_ZSTD then
        map_sum id (\<lambda>d. \<lparr>fr_kind = FRAME_DATA, fr_stream_id = s, fr_payload = d\<rparr>)
          (zstd_decompress_data z p)
      else Inr \<lparr>fr_kind = k, fr_stream_id = s, fr_payload = p\<rparr>)"
  by (cases "zstd_decompress_data z p")
    (simp_all add: decode_frame_def frame_parts Let_def del: drop_eq_Nil)

lemma data_kinds [simp]:
  "FRAME_DATA \<noteq> FRAME_DATA_ZSTD" "FRAME_READY \<noteq> FRAME_DATA_ZSTD" "FRAME_CLOSE \<noteq> FRAME_DATA_ZSTD"
  "FRAME_ERROR \<noteq> FRAME_DATA_ZSTD" "FRAME_PING \<noteq> FRAME_DATA_ZSTD" "FRAME_PONG \<noteq> FRAME_DATA_ZSTD"
  "FRAME_OPEN \<noteq> FRAME_DATA_ZSTD" "FRAME_HELLO \<noteq> FRAME_DATA_ZSTD"
  by (simp_all add: wire_consts)

lemma decode_encode_data [codec_simps]:
  assumes "zstd_lossless ze zd"
  shows "decode_frame zd (encode_data_frame_maybe_compressed ze s p) =
     Inr \<lparr>fr_kind = FRAME_DATA, fr_stream_id = s, fr_payload = p\<rparr>"
  using assms
  by (auto simp: encode_data_frame_maybe_compressed_def decode_encode_frame zstd_lossless_def
      zstd_decompress_data_def split: sum.splits)

lemma decode_frame_kind: "decode_frame z data = Inr f \<Longrightarrow> fr_kind f \<noteq> FRAME_DATA_ZSTD"
  by (auto simp: decode_frame_def Let_def and_then_eq_Inr split: if_splits)

text \<open>
  The interface the relay sessions use: frames are sent by one function and read back by
  the other, whatever the kind, unless it is the kind reserved for compressed payloads.
\<close>

locale frame_transport =
  fixes send_frame :: "u8 \<Rightarrow> u64 \<Rightarrow> bytes \<Rightarrow> bytes"
    and send_data :: "u64 \<Rightarrow> bytes \<Rightarrow> bytes"
    and receive :: "bytes \<Rightarrow> anyhow + frame"
    and data_kind :: u8
    and reserved :: "u8 \<Rightarrow> bool"
  assumes receive_frame: "\<not> reserved k \<Longrightarrow>
      receive (send_frame k s p) = Inr \<lparr>fr_kind = k, fr_stream_id = s, fr_payload = p\<rparr>"
    and receive_data:
      "receive (send_data s p) = Inr \<lparr>fr_kind = data_kind, fr_stream_id = s, fr_payload = p\<rparr>"
begin

text \<open>The payload bytes of one stream survive the multiplexing of several streams.\<close>

definition demux :: "u64 \<Rightarrow> bytes list \<Rightarrow> bytes" where
  "demux s msgs = concat (map (\<lambda>m. case receive m of
     Inr f \<Rightarrow> if fr_kind f = data_kind \<and> fr_stream_id f = s then fr_payload f else []
   | Inl _ \<Rightarrow> []) msgs)"

lemma demux_data:
  "demux s (map (\<lambda>(i, p). send_data i p) chunks) =
     concat (map snd (filter (\<lambda>(i, p). i = s) chunks))"
  by (induction chunks) (auto simp: demux_def receive_data)

lemma send_data_inj: "send_data s p = send_data t q \<Longrightarrow> s = t \<and> p = q"
  using receive_data [of s p] receive_data [of t q]
  by (metis frame.ext_inject sum.inject(2))

end

text \<open>
  The transport without compression: on a decoder that never fails on what the encoder
  sends; the sessions use it with the encoder that gives up on every input.
\<close>

interpretation plain_frames: frame_transport
    encode_frame "encode_frame FRAME_DATA" "decode_frame z" FRAME_DATA "\<lambda>k. k = FRAME_DATA_ZSTD"
  for z
  by unfold_locales (simp_all add: decode_encode_frame)

lemma zstd_frames:
  assumes "zstd_lossless ze zd"
  shows "frame_transport encode_frame (encode_data_frame_maybe_compressed ze) (decode_frame zd)
           FRAME_DATA (\<lambda>k. k = FRAME_DATA_ZSTD)"
  by unfold_locales (simp_all add: decode_encode_frame decode_encode_data [OF assms])

section \<open>Properties\<close>

text \<open>
  a frame of any kind but the compressed-data kind is decoded to exactly the kind,
  stream id and payload it was encoded from.
\<close>

theorem frame_round_trip:
  assumes "kind \<noteq> FRAME_DATA_ZSTD"
  shows "decode_frame z (encode_frame kind stream_id payload) =
    Inr \<lparr>fr_kind = kind, fr_stream_id = stream_id, fr_payload = payload\<rparr>"
  by (rule plain_frames.receive_frame [OF assms])

theorem frame_round_trip_witness:
  "decode_frame Inr (encode_frame 7 258 [1, 2]) =
     Inr \<lparr>fr_kind = 7, fr_stream_id = 258, fr_payload = [1, 2]\<rparr>"
  by (rule frame_round_trip) (simp add: wire_consts)

text \<open>
  C29: a data frame carries its payload through compression and decompression unchanged, and
  is never longer than the uncompressed frame.
\<close>

theorem data_frame_round_trip:
  assumes "zstd_lossless encode_all decode_all"
  shows "decode_frame decode_all (encode_data_frame_maybe_compressed encode_all s p)
      = Inr \<lparr>fr_kind = FRAME_DATA, fr_stream_id = s, fr_payload = p\<rparr>
    \<and> length (encode_data_frame_maybe_compressed encode_all s p) \<le> 9 + length p"
  using decode_encode_data [OF assms]
  by (auto simp: encode_data_frame_maybe_compressed_def split: sum.splits)

text \<open>A run-length code of constant payloads, to instantiate the parameter.\<close>


definition pair_encode :: zstd_encoder where
  "pair_encode level data =
     (if data \<noteq> [] \<and> data = replicate (length data) (hd data) \<and> length data < 256
      then Inr [0, word_of_nat (length data), hd data] else Inr (1 # data))"

definition pair_decode :: zstd_decoder where
  "pair_decode c =
     (case c of [] \<Rightarrow> Inl [''empty'']
      | t # r \<Rightarrow> if t = 0 then
            (case r of [n, b] \<Rightarrow> Inr (replicate (unat n) b) | _ \<Rightarrow> Inl [''bad run''])
          else Inr r)"

lemma pair_lossless: "zstd_lossless pair_encode pair_decode"
  unfolding zstd_lossless_def
proof (intro allI impI)
  fix level data c
  assume c: "pair_encode level data = Inr c"
  show "pair_decode c = Inr data"
  proof (cases "data \<noteq> [] \<and> data = replicate (length data) (hd data) \<and> length data < 256")
    case True
    then have "unat (word_of_nat (length data) :: u8) = length data"
      by (simp add: unat_of_nat)
    with True c show ?thesis
      by (auto simp: pair_encode_def pair_decode_def)
  next
    case False
    with c show ?thesis by (auto simp: pair_encode_def pair_decode_def split: if_splits)
  qed
qed

theorem data_frame_round_trip_witness:
  "decode_frame pair_decode (encode_data_frame_maybe_compressed pair_encode 5 (replicate 100 7))
     = Inr \<lparr>fr_kind = FRAME_DATA, fr_stream_id = 5, fr_payload = replicate 100 7\<rparr>"
  using data_frame_round_trip [OF pair_lossless] by blast

text \<open>
  decoding in full: it fails exactly on messages shorter than a header and on compressed
  frames whose payload does not decompress. Otherwise the frame carries the header's stream
  id and the payload behind the header, and a compressed data frame comes out as a plain
  data frame with the decompressed payload.
\<close>

theorem decode_frame_total:
  "case decode_frame z data of
     Inl e \<Rightarrow> length data < 9 \<or> data ! 0 = FRAME_DATA_ZSTD \<and> isl (z (drop 9 data))
   | Inr f \<Rightarrow> 9 \<le> length data \<and> fr_stream_id f = from_be (take 8 (drop 1 data))
       \<and> (if data ! 0 = FRAME_DATA_ZSTD
          then fr_kind f = FRAME_DATA \<and> z (drop 9 data) = Inr (fr_payload f)
          else fr_kind f = data ! 0 \<and> fr_payload f = drop 9 data)"
  by (auto simp: decode_frame_def zstd_decompress_data_def Let_def with_context_def and_then_def
      split: if_splits sum.splits)

end
