(* ===== verification/Net_Addr.thy ===== *)
theory Net_Addr
  imports Rust_Str "HOL-Library.Monad_Syntax"
begin

text \<open>
  \<open>std::net::SocketAddr\<close>: its values, its \<open>Display\<close> and its \<open>FromStr\<close>, which the
  program uses to name peers, to build log entries and to reach the local game port.
\<close>

datatype ip_addr = IpV4 u8 u8 u8 u8 | IpV6 "128 word"

datatype sock_addr =
    SockV4 u8 u8 u8 u8 u16
  | SockV6 "128 word" u16 u32 \<comment> \<open>address, port, scope id (the flow label is always 0 here)\<close>

fun sa_ip :: "sock_addr \<Rightarrow> ip_addr" where
  "sa_ip (SockV4 a b c d p) = IpV4 a b c d"
| "sa_ip (SockV6 w p s) = IpV6 w"

fun sa_port :: "sock_addr \<Rightarrow> u16" where
  "sa_port (SockV4 a b c d p) = p"
| "sa_port (SockV6 w p s) = p"

fun set_port :: "u16 \<Rightarrow> sock_addr \<Rightarrow> sock_addr" where
  "set_port q (SockV4 a b c d p) = SockV4 a b c d q"
| "set_port q (SockV6 w p s) = SockV6 w q s"

lemma sa_port_set_port [simp]: "sa_port (set_port q a) = q"
  by (cases a) simp_all

lemma sa_ip_set_port [simp]: "sa_ip (set_port q a) = sa_ip a"
  by (cases a) simp_all

lemma set_port_same: "set_port q a = a \<longleftrightarrow> q = sa_port a"
  by (cases a) auto

lemma set_port_inj: "set_port q a = set_port r a \<longleftrightarrow> q = r"
  by (cases a) auto

section \<open>Display\<close>

definition show_word :: "'a::len word \<Rightarrow> string" where
  "show_word w = show_nat (unat w)"

definition hex_digit :: "nat \<Rightarrow> char" where
  "hex_digit d = char_of (if d < 10 then 48 + d else 87 + d)"

fun show_hex :: "nat \<Rightarrow> string" where
  "show_hex n = (if n < 16 then [hex_digit n] else show_hex (n div 16) @ [hex_digit (n mod 16)])"

declare show_hex.simps [simp del]

definition segments :: "128 word \<Rightarrow> nat list" where
  "segments w = map (\<lambda>i. unat (drop_bit (16 * i) w) mod 65536) (rev [0..<8])"

text \<open>The first longest run of zero segments, as (start, length).\<close>

fun zero_run :: "nat \<Rightarrow> nat \<times> nat \<Rightarrow> nat \<times> nat \<Rightarrow> nat list \<Rightarrow> nat \<times> nat" where
  "zero_run i best cur [] = best"
| "zero_run i best cur (s # ss) =
     (if s = 0 then
        let cur' = (if snd cur = 0 then (i, 1) else (fst cur, Suc (snd cur)));
            best' = (if snd best < snd cur' then cur' else best)
        in zero_run (Suc i) best' cur' ss
      else zero_run (Suc i) best (0, 0) ss)"

definition show_ipv4 :: "u8 \<Rightarrow> u8 \<Rightarrow> u8 \<Rightarrow> u8 \<Rightarrow> string" where
  "show_ipv4 a b c d =
     show_word a @ ''.'' @ show_word b @ ''.'' @ show_word c @ ''.'' @ show_word d"

definition show_ipv6 :: "128 word \<Rightarrow> string" where
  "show_ipv6 w =
     (let ss = segments w; (start, len) = zero_run 0 (0, 0) (0, 0) ss
      in if take 6 ss = [0, 0, 0, 0, 0, 0xFFFF] then
           ''::ffff:'' @ show_ipv4 (word_of_nat (ss ! 6 div 256)) (word_of_nat (ss ! 6))
                                 (word_of_nat (ss ! 7 div 256)) (word_of_nat (ss ! 7))
         else if 1 < len then
           join '':'' (map show_hex (take start ss)) @ ''::''
             @ join '':'' (map show_hex (drop (start + len) ss))
         else join '':'' (map show_hex ss))"

fun show_ip :: "ip_addr \<Rightarrow> string" where
  "show_ip (IpV4 a b c d) = show_ipv4 a b c d"
| "show_ip (IpV6 w) = show_ipv6 w"

fun show_addr :: "sock_addr \<Rightarrow> string" where
  "show_addr (SockV4 a b c d p) = show_ipv4 a b c d @ '':'' @ show_word p"
| "show_addr (SockV6 w p s) =
     ''['' @ show_ipv6 w @ (if s = 0 then [] else ''%'' @ show_word s) @ '']:'' @ show_word p"

section \<open>FromStr\<close>

type_synonym 'a reader = "string \<Rightarrow> ('a \<times> string) option"

definition read_char :: "char \<Rightarrow> unit reader" where
  "read_char c s = (case s of d # ds \<Rightarrow> if d = c then Some ((), ds) else None | [] \<Rightarrow> None)"

text \<open>A decimal number below \<open>bound\<close>, of at most \<open>max_digits\<close> digits when given.\<close>

definition read_dec :: "nat option \<Rightarrow> bool \<Rightarrow> nat \<Rightarrow> nat reader" where
  "read_dec max_digits zero_prefix bound s =
     (let ds = takeWhile is_digit s; v = dec_value ds
      in if ds = [] \<or> (case max_digits of Some m \<Rightarrow> m < length ds | None \<Rightarrow> False)
            \<or> (\<not> zero_prefix \<and> hd ds = CHR ''0'' \<and> 1 < length ds) \<or> bound \<le> v
         then None else Some (v, dropWhile is_digit s))"

definition hex_of :: "char \<Rightarrow> nat option" where
  "hex_of c = (let n = of_char c :: nat
     in if 48 \<le> n \<and> n \<le> 57 then Some (n - 48)
        else if 97 \<le> n \<and> n \<le> 102 then Some (n - 87)
        else if 65 \<le> n \<and> n \<le> 70 then Some (n - 55) else None)"

definition read_hex_group :: "nat reader" where
  "read_hex_group s =
     (let ds = takeWhile (\<lambda>c. hex_of c \<noteq> None) s
      in if ds = [] \<or> 4 < length ds then None
         else Some (foldl (\<lambda>v c. 16 * v + the (hex_of c)) 0 ds,
                    dropWhile (\<lambda>c. hex_of c \<noteq> None) s))"

definition read_octet :: "nat reader" where
  "read_octet = read_dec (Some 3) False 256"

definition read_ipv4 :: "(nat \<times> nat \<times> nat \<times> nat) reader" where
  "read_ipv4 s =
     do { (a, s) \<leftarrow> read_octet s; (_, s) \<leftarrow> read_char (CHR ''.'') s;
          (b, s) \<leftarrow> read_octet s; (_, s) \<leftarrow> read_char (CHR ''.'') s;
          (c, s) \<leftarrow> read_octet s; (_, s) \<leftarrow> read_char (CHR ''.'') s;
          (d, s) \<leftarrow> read_octet s; Some ((a, b, c, d), s) }"

definition read_port :: "nat reader" where
  "read_port s = do { (_, s) \<leftarrow> read_char (CHR '':'') s; read_dec None True 65536 s }"

text \<open>A separator before every item but the first.\<close>

definition read_separated :: "nat \<Rightarrow> 'a reader \<Rightarrow> 'a reader" where
  "read_separated i p s =
     (if i = 0 then p s else do { (_, s) \<leftarrow> read_char (CHR '':'') s; p s })"

text \<open>
  Up to \<open>left\<close> hexadecimal groups from the \<open>i\<close>-th on, the last two of which may be
  written as an IPv4 address: the groups, whether they end in an IPv4 address, the rest.
\<close>

fun read_groups :: "nat \<Rightarrow> nat \<Rightarrow> string \<Rightarrow> nat list \<times> bool \<times> string" where
  "read_groups i 0 s = ([], False, s)"
| "read_groups i (Suc left) s =
     (case (if 0 < left then read_separated i read_ipv4 s else None) of
        Some ((a, b, c, d), r) \<Rightarrow> ([256 * a + b, 256 * c + d], True, r)
      | None \<Rightarrow>
          (case read_separated i read_hex_group s of
             None \<Rightarrow> ([], False, s)
           | Some (g, r) \<Rightarrow>
               (case read_groups (Suc i) left r of (gs, v4, t) \<Rightarrow> (g # gs, v4, t))))"

definition read_ipv6 :: "nat list reader" where
  "read_ipv6 s =
     (case read_groups 0 8 s of (front, v4, r) \<Rightarrow>
        if length front = 8 then Some (front, r)
        else if v4 then None
        else do { (_, r) \<leftarrow> read_char (CHR '':'') r; (_, r) \<leftarrow> read_char (CHR '':'') r;
                  (case read_groups 0 (8 - (length front + 1)) r of (back, _, r) \<Rightarrow>
                     Some (front @ replicate (8 - length front - length back) 0 @ back, r)) })"

definition ipv6_of_segments :: "nat list \<Rightarrow> 128 word" where
  "ipv6_of_segments ss = word_of_nat (foldl (\<lambda>v g. 65536 * v + g) 0 ss)"

definition read_scope :: "nat reader" where
  "read_scope s =
     (case do { (_, s) \<leftarrow> read_char (CHR ''%'') s; read_dec None True (2 ^ 32) s } of
        Some r \<Rightarrow> Some r | None \<Rightarrow> Some (0, s))"

definition read_sock_v4 :: "sock_addr reader" where
  "read_sock_v4 s =
     do { ((a, b, c, d), s) \<leftarrow> read_ipv4 s; (p, s) \<leftarrow> read_port s;
          Some (SockV4 (word_of_nat a) (word_of_nat b) (word_of_nat c) (word_of_nat d)
                       (word_of_nat p), s) }"

definition read_sock_v6 :: "sock_addr reader" where
  "read_sock_v6 s =
     do { (_, s) \<leftarrow> read_char (CHR ''['') s; (gs, s) \<leftarrow> read_ipv6 s; (sc, s) \<leftarrow> read_scope s;
          (_, s) \<leftarrow> read_char (CHR '']'') s; (p, s) \<leftarrow> read_port s;
          Some (SockV6 (ipv6_of_segments gs) (word_of_nat p) (word_of_nat sc), s) }"

definition parse_addr :: "string \<Rightarrow> sock_addr option" where
  "parse_addr s =
     (case (case read_sock_v4 s of Some r \<Rightarrow> Some r | None \<Rightarrow> read_sock_v6 s) of
        Some (a, r) \<Rightarrow> if r = [] then Some a else None
      | None \<Rightarrow> None)"

text \<open>\<open>proxy.rs\<close>: \<open>minecraft_local_addr\<close>, also written out in \<open>wss_relay.rs\<close>.\<close>

definition minecraft_local_addr :: "u16 \<Rightarrow> string" where
  "minecraft_local_addr port = ''127.0.0.1:'' @ show_word port"

section \<open>What is shown is read back\<close>

lemma takeWhile_digits_show:
  assumes "rest = [] \<or> \<not> is_digit (hd rest)"
  shows "takeWhile is_digit (show_nat n @ rest) = show_nat n"
    and "dropWhile is_digit (show_nat n @ rest) = rest"
proof -
  have all: "\<forall>c \<in> set (show_nat n). is_digit c" by (simp add: show_nat_set)
  then show "takeWhile is_digit (show_nat n @ rest) = show_nat n"
    using assms by (cases rest) (simp_all add: takeWhile_append2)
  from all show "dropWhile is_digit (show_nat n @ rest) = rest"
    using assms by (cases rest) (simp_all add: dropWhile_append2)
qed

lemma show_nat_leading_zero:
  "hd (show_nat n) = CHR ''0'' \<Longrightarrow> length (show_nat n) = 1"
proof (induction n rule: show_nat.induct)
  case (1 n)
  show ?case
  proof (cases "n < 10")
    case True
    then show ?thesis by (subst show_nat.simps) simp
  next
    case False
    then have "hd (show_nat (n div 10)) = CHR ''0''"
      using "1.prems" by (subst (asm) show_nat.simps) (simp add: hd_append)
    with False "1.IH" have one: "length (show_nat (n div 10)) = 1" by simp
    then have "n div 10 < 10"
      by (subst (asm) show_nat.simps) (auto split: if_splits)
    then have "hd (show_nat (n div 10)) = digit (n div 10)"
      by (subst show_nat.simps) simp
    with \<open>hd (show_nat (n div 10)) = CHR ''0''\<close> have "of_char (digit (n div 10)) = (48 :: nat)"
      by simp
    with \<open>n div 10 < 10\<close> have "n div 10 = 0" by (simp add: of_char_digit)
    with False show ?thesis by simp
  qed
qed

lemma length_show_nat_3: "n < 1000 \<Longrightarrow> length (show_nat n) \<le> 3"
  by (subst show_nat.simps, simp, subst show_nat.simps, simp, subst show_nat.simps) simp

lemma read_octet_show:
  assumes "n < 256" and "rest = [] \<or> \<not> is_digit (hd rest)"
  shows "read_octet (show_nat n @ rest) = Some (n, rest)"
  using assms show_nat_leading_zero [of n] length_show_nat_3 [of n]
  by (auto simp: read_octet_def read_dec_def takeWhile_digits_show Let_def)

lemma read_dec_show:
  assumes "n < bound" and "rest = [] \<or> \<not> is_digit (hd rest)"
  shows "read_dec None True bound (show_nat n @ rest) = Some (n, rest)"
  using assms by (auto simp: read_dec_def takeWhile_digits_show)

lemma not_digit_sep [simp]: "\<not> is_digit (CHR ''.'')" "\<not> is_digit (CHR '':'')"
  by (simp_all add: is_digit_def)

lemma read_char_Cons [simp]: "read_char c (c # s) = Some ((), s)"
  by (simp add: read_char_def)

lemma unat_u16_lt: "unat (p :: u16) < 65536"
  using unsigned_less [of p] by simp

lemma read_sock_v4_show:
  "read_sock_v4 (show_addr (SockV4 a b c d p)) = Some (SockV4 a b c d p, [])"
  using read_dec_show [of "unat p" 65536 "[]"] unat_u16_lt [of p]
  by (simp add: read_sock_v4_def read_ipv4_def read_port_def show_ipv4_def show_word_def
      read_octet_show)

lemma parse_show_v4: "parse_addr (show_addr (SockV4 a b c d p)) = Some (SockV4 a b c d p)"
  by (simp only: parse_addr_def read_sock_v4_show) simp

lemma show_nat_127: "show_nat 127 = ''127''" "show_nat 0 = ''0''" "show_nat 1 = ''1''"
  by code_simp+

lemma minecraft_local_addr_show:
  "minecraft_local_addr port = show_addr (SockV4 127 0 0 1 port)"
  by (simp add: minecraft_local_addr_def show_ipv4_def show_word_def show_nat_127
      show_nat_127 [simplified])

text \<open>The local game address of every port is a valid socket address.\<close>

lemma parse_local_addr:
  "parse_addr (minecraft_local_addr port) = Some (SockV4 127 0 0 1 port)"
  by (simp only: minecraft_local_addr_show parse_show_v4)

end
