(* ===== verification/Wss_Mux.thy ===== *)
theory Wss_Mux
  imports Wss_Frame Net_Addr
begin

text \<open>
  What the two sides of a relay session (\<open>wss_relay.rs\<close>) share: the table of virtual
  streams (\<open>StreamMap\<close>, a map from stream ids to channel senders), the channels, the
  queue of messages handed to the WebSocket writer, the tasks spawned for a stream and
  the pumps they run (\<open>pump_reader_to_ws\<close>, \<open>pump_channel_to_writer\<close>).

  A channel is kept by its position in the list of all channels of the session, so that
  a sender removed from the table and the receiver that still drains it stay distinct.
  \<open>ch_alive\<close> says that the receiving task still runs: a send to it succeeds, otherwise it
  is an error, which the code ignores.
\<close>

datatype ws_msg = WsText string | WsBinary bytes | WsPing bytes | WsPong bytes | WsClose | WsRaw

record channel =
  ch_udp :: bool
  ch_queue :: "bytes list" \<comment> \<open>sent, not yet received by the writer\<close>
  ch_written :: "bytes list" \<comment> \<open>written to the socket\<close>
  ch_alive :: bool

datatype pump = TcpReader u64 | TcpWriter u64 nat | UdpReader u64 | UdpWriter nat

record mux =
  mx_streams :: "u64 \<rightharpoonup> nat"
  mx_chans :: "channel list"
  mx_tasks :: "pump list"
  mx_ws :: "ws_msg list"
  mx_ws_open :: bool
  mx_pings :: "u64 list"

definition empty_mux :: mux where
  "empty_mux = \<lparr>mx_streams = Map.empty, mx_chans = [], mx_tasks = [], mx_ws = [],
                mx_ws_open = True, mx_pings = []\<rparr>"

lemma empty_mux_simps [simp]:
  "mx_streams empty_mux = Map.empty" "mx_chans empty_mux = []" "mx_tasks empty_mux = []"
  "mx_ws empty_mux = []" "mx_ws_open empty_mux" "mx_pings empty_mux = []"
  by (simp_all add: empty_mux_def)

section \<open>Operations\<close>

text \<open>\<open>let _ = ws_tx.send(msg).await\<close>: an error (the writer task is gone) is ignored.\<close>

definition ws_send :: "ws_msg \<Rightarrow> 'a mux_scheme \<Rightarrow> 'a mux_scheme" where
  "ws_send msg h = (if mx_ws_open h then h\<lparr>mx_ws := mx_ws h @ [msg]\<rparr> else h)"

definition new_channel :: "bool \<Rightarrow> channel" where
  "new_channel udp = \<lparr>ch_udp = udp, ch_queue = [], ch_written = [], ch_alive = True\<rparr>"

text \<open>\<open>mpsc::channel\<close>, \<open>streams.insert\<close>, then the writer and the reader task.\<close>

definition open_stream :: "u64 \<Rightarrow> bool \<Rightarrow> 'a mux_scheme \<Rightarrow> 'a mux_scheme" where
  "open_stream sid udp h =
     (let c = length (mx_chans h)
      in h\<lparr>mx_chans := mx_chans h @ [new_channel udp],
           mx_streams := (mx_streams h)(sid \<mapsto> c),
           mx_tasks := mx_tasks h @ (if udp then [UdpWriter c, UdpReader sid]
                                     else [TcpWriter sid c, TcpReader sid])\<rparr>)"

text \<open>\<open>streams.lock().await.remove(&stream_id)\<close>.\<close>

definition close_stream :: "u64 \<Rightarrow> 'a mux_scheme \<Rightarrow> 'a mux_scheme" where
  "close_stream sid h = h\<lparr>mx_streams := (mx_streams h)(sid := None)\<rparr>"

text \<open>\<open>if let Some(tx) = streams.get(&id).cloned() { let _ = tx.send(payload).await; }\<close>\<close>

definition send_to_stream :: "u64 \<Rightarrow> bytes \<Rightarrow> 'a mux_scheme \<Rightarrow> 'a mux_scheme" where
  "send_to_stream sid payload h =
     (case mx_streams h sid of
        None \<Rightarrow> h
      | Some c \<Rightarrow>
          let ch = mx_chans h ! c
          in if ch_alive ch
             then h\<lparr>mx_chans := (mx_chans h)[c := ch\<lparr>ch_queue := ch_queue ch @ [payload]\<rparr>]\<rparr>
             else h)"

text \<open>The answer to \<open>FRAME_PING\<close>, and the round-trip report of \<open>FRAME_PONG\<close>.\<close>

definition answer_ping :: "frame \<Rightarrow> 'a mux_scheme \<Rightarrow> 'a mux_scheme" where
  "answer_ping f h = ws_send (WsBinary (encode_frame FRAME_PONG (fr_stream_id f) (fr_payload f))) h"

definition report_pong :: "bool \<Rightarrow> u64 \<Rightarrow> frame \<Rightarrow> 'a mux_scheme \<Rightarrow> 'a mux_scheme" where
  "report_pong reporting now f h =
     (if length (fr_payload f) = 8 then
        let sent_time = from_be (fr_payload f) :: u64; rtt = saturating_sub now sent_time
        in if reporting then h\<lparr>mx_pings := mx_pings h @ [rtt]\<rparr> else h
      else h)"

text \<open>One tick of the keepalive task.\<close>

definition keepalive :: "u64 \<Rightarrow> 'a mux_scheme \<Rightarrow> 'a mux_scheme" where
  "keepalive now h =
     ws_send (WsPing []) (ws_send (WsBinary (encode_frame FRAME_PING 0 (to_be now))) h)"

section \<open>Pumps\<close>

text \<open>\<open>pump_reader_to_ws\<close>: a chunk read, and the end of the pump (end of file, error, cancel).\<close>

definition tcp_read :: "zstd_encoder \<Rightarrow> u64 \<Rightarrow> bytes \<Rightarrow> 'a mux_scheme \<Rightarrow> 'a mux_scheme" where
  "tcp_read ze sid chunk h =
     ws_send (WsBinary (encode_data_frame_maybe_compressed ze sid chunk)) h"

text \<open>\<open>reader.read(&mut buffer)\<close> of a pump returned a chunk.\<close>

definition reads_chunk :: "u64 \<Rightarrow> bytes \<Rightarrow> 'a mux_scheme \<Rightarrow> bool" where
  "reads_chunk sid chunk h \<longleftrightarrow>
     TcpReader sid \<in> set (mx_tasks h) \<and> 0 < length chunk \<and> length chunk \<le> TCP_CHUNK_SIZE"

definition end_task :: "pump \<Rightarrow> 'a mux_scheme \<Rightarrow> 'a mux_scheme" where
  "end_task t h = h\<lparr>mx_tasks := remove1 t (mx_tasks h)\<rparr>"

definition tcp_reader_end :: "u64 \<Rightarrow> 'a mux_scheme \<Rightarrow> 'a mux_scheme" where
  "tcp_reader_end sid h =
     end_task (TcpReader sid)
       (close_stream sid (ws_send (WsBinary (encode_frame FRAME_CLOSE sid [])) h))"

text \<open>The UDP reader tasks: a datagram, and their end.\<close>

definition udp_read :: "u64 \<Rightarrow> bytes \<Rightarrow> 'a mux_scheme \<Rightarrow> 'a mux_scheme" where
  "udp_read sid datagram h = ws_send (WsBinary (encode_frame FRAME_DATA sid datagram)) h"

definition udp_reader_end :: "u64 \<Rightarrow> 'a mux_scheme \<Rightarrow> 'a mux_scheme" where
  "udp_reader_end sid h = end_task (UdpReader sid) (close_stream sid h)"

text \<open>\<open>pump_channel_to_writer\<close> and the UDP writer tasks: the next payload, and their end.\<close>

definition writer_next :: "nat \<Rightarrow> 'a mux_scheme \<Rightarrow> 'a mux_scheme" where
  "writer_next c h =
     (case ch_queue (mx_chans h ! c) of
        [] \<Rightarrow> h
      | p # ps \<Rightarrow>
          h\<lparr>mx_chans := (mx_chans h)[c := (mx_chans h ! c)\<lparr>ch_queue := ps,
              ch_written := ch_written (mx_chans h ! c) @ [p]\<rparr>]\<rparr>)"

definition drop_receiver :: "nat \<Rightarrow> 'a mux_scheme \<Rightarrow> 'a mux_scheme" where
  "drop_receiver c h = h\<lparr>mx_chans := (mx_chans h)[c := (mx_chans h ! c)\<lparr>ch_alive := False\<rparr>]\<rparr>"

definition tcp_writer_end :: "u64 \<Rightarrow> nat \<Rightarrow> 'a mux_scheme \<Rightarrow> 'a mux_scheme" where
  "tcp_writer_end sid c h = end_task (TcpWriter sid c) (drop_receiver c (close_stream sid h))"

definition udp_writer_end :: "nat \<Rightarrow> 'a mux_scheme \<Rightarrow> 'a mux_scheme" where
  "udp_writer_end c h = end_task (UdpWriter c) (drop_receiver c h)"

lemma ws_send_fields [simp]:
  "mx_streams (ws_send m h) = mx_streams h" "mx_chans (ws_send m h) = mx_chans h"
  "mx_tasks (ws_send m h) = mx_tasks h" "mx_ws_open (ws_send m h) = mx_ws_open h"
  "mx_pings (ws_send m h) = mx_pings h"
  by (simp_all add: ws_send_def)

lemma ws_send_open: "mx_ws_open h \<Longrightarrow> mx_ws (ws_send m h) = mx_ws h @ [m]"
  by (simp add: ws_send_def)

lemma ws_send_ws: "mx_ws (ws_send m h) = mx_ws h @ (if mx_ws_open h then [m] else [])"
  by (simp add: ws_send_def)

lemma ws_send_set: "x \<in> set (mx_ws (ws_send m h)) \<Longrightarrow> x = m \<or> x \<in> set (mx_ws h)"
  by (auto simp: ws_send_def split: if_splits)

section \<open>The stream table as an interface\<close>

text \<open>
  What the frame handlers rely on: a delivery reaches the queue of its own stream only,
  opening starts with an empty queue, closing forgets one stream.
\<close>

locale stream_table =
  fixes opened :: "'s \<Rightarrow> u64 \<Rightarrow> bool"
    and queue :: "'s \<Rightarrow> u64 \<Rightarrow> bytes list"
    and ready :: "'s \<Rightarrow> u64 \<Rightarrow> bool"
    and opn :: "u64 \<Rightarrow> 's \<Rightarrow> 's"
    and cls :: "u64 \<Rightarrow> 's \<Rightarrow> 's"
    and deliver :: "u64 \<Rightarrow> bytes \<Rightarrow> 's \<Rightarrow> 's"
    and invar :: "'s \<Rightarrow> bool"
  assumes opn_invar: "invar s \<Longrightarrow> invar (opn i s)"
    and cls_invar: "invar s \<Longrightarrow> invar (cls i s)"
    and deliver_invar: "invar s \<Longrightarrow> invar (deliver i p s)"
    and opened_opn: "opened (opn i s) j \<longleftrightarrow> j = i \<or> opened s j"
    and opened_cls: "opened (cls i s) j \<longleftrightarrow> j \<noteq> i \<and> opened s j"
    and opened_deliver: "opened (deliver i p s) j \<longleftrightarrow> opened s j"
    and queue_opn: "invar s \<Longrightarrow> queue (opn i s) j = (if j = i then [] else queue s j)"
    and queue_cls: "j \<noteq> i \<Longrightarrow> queue (cls i s) j = queue s j"
    and queue_deliver: "invar s \<Longrightarrow> opened s j \<Longrightarrow>
          queue (deliver i p s) j = (if j = i \<and> ready s i then queue s j @ [p] else queue s j)"
    and ready_opn: "ready (opn i s) i"
    and ready_deliver: "invar s \<Longrightarrow> ready s j \<Longrightarrow> ready (deliver i p s) j"
begin

definition deliver_all :: "(u64 \<times> bytes) list \<Rightarrow> 's \<Rightarrow> 's" where
  "deliver_all xs s = fold (\<lambda>(i, p). deliver i p) xs s"

lemma deliver_all_simps [simp]:
  "deliver_all [] s = s" "deliver_all ((i, p) # xs) s = deliver_all xs (deliver i p s)"
  by (simp_all add: deliver_all_def)

lemma deliver_all_queue:
  assumes "invar s" and "opened s j" and "ready s j"
  shows "queue (deliver_all xs s) j = queue s j @ map snd (filter (\<lambda>(i, p). i = j) xs)"
  using assms
proof (induction xs arbitrary: s)
  case (Cons x xs)
  obtain i p where x: "x = (i, p)" by (cases x)
  have "queue (deliver_all xs (deliver i p s)) j =
      queue (deliver i p s) j @ map snd (filter (\<lambda>(i, p). i = j) xs)"
    by (rule Cons.IH) (use Cons.prems in \<open>auto simp: deliver_invar opened_deliver ready_deliver\<close>)
  then show ?case
    using Cons.prems by (auto simp: x queue_deliver)
qed simp

lemma opn_then_deliver:
  assumes "invar s"
  shows "queue (deliver_all xs (opn j s)) j = map snd (filter (\<lambda>(i, p). i = j) xs)"
  using deliver_all_queue [of "opn j s" j xs] assms
  by (simp add: opn_invar opened_opn queue_opn ready_opn)

end

text \<open>The invariant of the table: every stream has a channel of its own.\<close>

definition mux_inv :: "'a mux_scheme \<Rightarrow> bool" where
  "mux_inv h \<longleftrightarrow>
     (\<forall>i c. mx_streams h i = Some c \<longrightarrow> c < length (mx_chans h)) \<and>
     (\<forall>i j c. mx_streams h i = Some c \<longrightarrow> mx_streams h j = Some c \<longrightarrow> i = j)"

lemma mux_inv_cong:
  "mx_streams h' = mx_streams h \<Longrightarrow> length (mx_chans h') = length (mx_chans h) \<Longrightarrow>
     mux_inv h' \<longleftrightarrow> mux_inv h"
  by (simp add: mux_inv_def)

definition stream_open :: "'a mux_scheme \<Rightarrow> u64 \<Rightarrow> bool" where
  "stream_open h i \<longleftrightarrow> mx_streams h i \<noteq> None"

definition stream_queue :: "'a mux_scheme \<Rightarrow> u64 \<Rightarrow> bytes list" where
  "stream_queue h i = (case mx_streams h i of None \<Rightarrow> [] | Some c \<Rightarrow> ch_queue (mx_chans h ! c))"

definition stream_ready :: "'a mux_scheme \<Rightarrow> u64 \<Rightarrow> bool" where
  "stream_ready h i = (case mx_streams h i of None \<Rightarrow> False | Some c \<Rightarrow> ch_alive (mx_chans h ! c))"

lemmas table_defs = mux_inv_def stream_open_def stream_queue_def stream_ready_def
  open_stream_def close_stream_def send_to_stream_def new_channel_def

lemma mux_inv_open: "mux_inv h \<Longrightarrow> mux_inv (open_stream i udp h)"
  by (fastforce simp: table_defs Let_def less_Suc_eq)

lemma mux_inv_close: "mux_inv h \<Longrightarrow> mux_inv (close_stream i h)"
  by (auto simp: table_defs)

lemma mux_inv_frame [simp]:
  "mux_inv (ws_send m h) \<longleftrightarrow> mux_inv h" "mux_inv (end_task t h) \<longleftrightarrow> mux_inv h"
  "mux_inv (writer_next c h) \<longleftrightarrow> mux_inv h" "mux_inv (drop_receiver c h) \<longleftrightarrow> mux_inv h"
  "mux_inv (report_pong r now f h) \<longleftrightarrow> mux_inv h" "mux_inv (answer_ping f h) \<longleftrightarrow> mux_inv h"
  "mux_inv (keepalive now h) \<longleftrightarrow> mux_inv h" "mux_inv (h\<lparr>mx_ws_open := b\<rparr>) \<longleftrightarrow> mux_inv h"
  by (simp_all add: end_task_def writer_next_def drop_receiver_def report_pong_def answer_ping_def
      keepalive_def mux_inv_def Let_def split: list.split)

lemma mux_inv_pumps:
  "mux_inv h \<Longrightarrow> mux_inv (tcp_read ze i chunk h)"
  "mux_inv h \<Longrightarrow> mux_inv (tcp_reader_end i h)"
  "mux_inv h \<Longrightarrow> mux_inv (udp_read i d h)"
  "mux_inv h \<Longrightarrow> mux_inv (udp_reader_end i h)"
  "mux_inv h \<Longrightarrow> mux_inv (tcp_writer_end i c h)"
  "mux_inv h \<Longrightarrow> mux_inv (udp_writer_end c h)"
  by (simp_all add: tcp_read_def tcp_reader_end_def udp_read_def udp_reader_end_def
      tcp_writer_end_def udp_writer_end_def mux_inv_close)

lemma mux_inv_send: "mux_inv h \<Longrightarrow> mux_inv (send_to_stream i p h)"
  by (auto simp: table_defs Let_def split: option.splits)

lemma send_to_stream_other:
  "mx_streams h i = None \<Longrightarrow> send_to_stream i p h = h"
  by (simp add: send_to_stream_def)

lemma send_to_stream_some:
  "mx_streams h i = Some c \<Longrightarrow> send_to_stream i p h =
     (if ch_alive (mx_chans h ! c)
      then h\<lparr>mx_chans := (mx_chans h)[c := (mx_chans h ! c)\<lparr>ch_queue := ch_queue (mx_chans h ! c) @ [p]\<rparr>]\<rparr>
      else h)"
  by (simp add: send_to_stream_def Let_def)

lemma stream_ready_send:
  assumes "mux_inv h"
  shows "stream_ready (send_to_stream i p h) j = stream_ready h j"
proof (cases "mx_streams h i")
  case (Some c)
  then have "c < length (mx_chans h)" using assms by (simp add: mux_inv_def)
  then show ?thesis
    by (auto simp: send_to_stream_some [OF Some] stream_ready_def nth_list_update split: option.split)
qed (simp add: send_to_stream_other)

lemma stream_queue_send:
  assumes "mux_inv h" and "stream_open h j"
  shows "stream_queue (send_to_stream i p h) j =
    (if j = i \<and> stream_ready h i then stream_queue h j @ [p] else stream_queue h j)"
proof (cases "mx_streams h i")
  case None
  then show ?thesis using assms(2) by (auto simp: send_to_stream_other stream_open_def)
next
  case (Some c)
  obtain d where d: "mx_streams h j = Some d" using assms(2) by (auto simp: stream_open_def)
  have "c < length (mx_chans h)" using Some assms(1) by (simp add: mux_inv_def)
  moreover have "c = d \<longleftrightarrow> i = j" using Some d assms(1) by (auto simp: mux_inv_def)
  ultimately show ?thesis
    using Some d
    by (auto simp: send_to_stream_some [OF Some] stream_queue_def stream_ready_def nth_list_update)
qed

interpretation mux_table: stream_table stream_open stream_queue stream_ready
    "\<lambda>i. open_stream i udp" close_stream send_to_stream mux_inv
  for udp
proof (unfold_locales, goal_cases)
  case (1 s i)
  then show ?case by (rule mux_inv_open)
next
  case (2 s i)
  then show ?case by (rule mux_inv_close)
next
  case (3 s i p)
  then show ?case by (rule mux_inv_send)
next
  case (4 i s j)
  then show ?case by (simp add: stream_open_def open_stream_def Let_def)
next
  case (5 i s j)
  then show ?case by (simp add: stream_open_def close_stream_def)
next
  case (6 i p s j)
  then show ?case
    by (simp add: stream_open_def send_to_stream_def Let_def split: option.split)
next
  case (7 s i j)
  then show ?case
    by (cases "mx_streams s j")
      (auto simp: mux_inv_def stream_queue_def open_stream_def new_channel_def Let_def nth_append)
next
  case (8 j i s)
  then show ?case by (simp add: stream_queue_def close_stream_def split: option.split)
next
  case (9 s j i p)
  then show ?case by (rule stream_queue_send)
next
  case (10 i s)
  then show ?case
    by (simp add: stream_ready_def open_stream_def new_channel_def Let_def)
next
  case (11 s j i p)
  then show ?case by (simp add: stream_ready_send)
qed

end
