(* ===== verification/Wss_Host.thy ===== *)
theory Wss_Host
  imports Wss_Mux
begin

text \<open>
  The host side of a relay session in its data phase (\<open>handle_host_frame\<close> and the reader
  loop of \<open>host_session\<close>): every frame received from the relay server, the tasks it spawns
  and the steps those tasks take. What the operating system answers (binding a UDP
  socket, connecting to the local game, the clock) is an argument.
\<close>

record os_answers =
  os_udp_bind :: "string + unit" \<comment> \<open>\<open>UdpSocket::bind("127.0.0.1:0")\<close>\<close>
  os_tcp_connect :: "string + unit" \<comment> \<open>\<open>TcpStream::connect\<close> to the local game\<close>
  os_now :: u64 \<comment> \<open>milliseconds since the epoch\<close>

definition refuse_stream :: "u64 \<Rightarrow> string \<Rightarrow> 'a mux_scheme \<Rightarrow> 'a mux_scheme" where
  "refuse_stream sid error h =
     ws_send (WsBinary (encode_frame FRAME_CLOSE sid []))
       (ws_send (WsBinary (encode_frame FRAME_ERROR sid (as_bytes error))) h)"

text \<open>The \<open>FRAME_OPEN\<close> arm.\<close>

definition host_open :: "u16 \<Rightarrow> os_answers \<Rightarrow> frame \<Rightarrow> mux \<Rightarrow> mux" where
  "host_open local_game_port os f h =
     (let sid = fr_stream_id f
      in if mx_streams h sid \<noteq> None then h
         else if length (fr_payload f) = 1 \<and> fr_payload f ! 0 = 1 then
           (case parse_addr (''127.0.0.1:'' @ show_word local_game_port) of
              None \<Rightarrow> refuse_stream sid ''invalid socket address syntax'' h
            | Some target_addr \<Rightarrow>
                (case os_udp_bind os of
                   Inr _ \<Rightarrow> open_stream sid True h
                 | Inl error \<Rightarrow> refuse_stream sid error h))
         else
           (case os_tcp_connect os of
              Inr _ \<Rightarrow> open_stream sid False h
            | Inl error \<Rightarrow> refuse_stream sid error h))"

text \<open>The \<open>FRAME_DATA\<close> arm: stream 0 is the UDP stream, opened by its first datagram.\<close>

definition host_data :: "u16 \<Rightarrow> os_answers \<Rightarrow> frame \<Rightarrow> mux \<Rightarrow> mux" where
  "host_data local_game_port os f h =
     (let sid = fr_stream_id f;
          (got_stream, h') =
            (if mx_streams h sid \<noteq> None then (True, h)
             else if sid = 0 then
               (case parse_addr (''127.0.0.1:'' @ show_word local_game_port) of
                  Some target_addr \<Rightarrow>
                    (case os_udp_bind os of
                       Inr _ \<Rightarrow> (True, open_stream 0 True h)
                     | Inl _ \<Rightarrow> (False, h))
                | None \<Rightarrow> (False, h))
             else (False, h))
      in if got_stream then send_to_stream sid (fr_payload f) h' else h')"

definition handle_host_frame ::
  "zstd_decoder \<Rightarrow> u16 \<Rightarrow> bool \<Rightarrow> os_answers \<Rightarrow> bytes \<Rightarrow> mux \<Rightarrow> anyhow + mux" where
  "handle_host_frame zd local_game_port reporting os raw h =
     and_then (decode_frame zd raw) (\<lambda>f.
       Inr (if fr_kind f = FRAME_HELLO then ws_send (WsBinary (encode_frame FRAME_READY 0 [])) h
            else if fr_kind f = FRAME_OPEN then host_open local_game_port os f h
            else if fr_kind f = FRAME_DATA then host_data local_game_port os f h
            else if fr_kind f = FRAME_CLOSE \<or> fr_kind f = FRAME_ERROR
              then close_stream (fr_stream_id f) h
            else if fr_kind f = FRAME_PING then answer_ping f h
            else if fr_kind f = FRAME_PONG then report_pong reporting (os_now os) f h
            else h))"

text \<open>
  The reader loop: what one message of the WebSocket does. \<open>Inr (False, h)\<close> leaves the loop
  with success, \<open>Inl\<close> with the error.
\<close>

fun host_message ::
  "zstd_decoder \<Rightarrow> u16 \<Rightarrow> bool \<Rightarrow> os_answers \<Rightarrow> ws_msg \<Rightarrow> mux \<Rightarrow> anyhow + (bool \<times> mux)" where
  "host_message zd port reporting os (WsBinary data) h =
     map_sum id (Pair True) (handle_host_frame zd port reporting os data h)"
| "host_message zd port reporting os (WsPing data) h = Inr (True, ws_send (WsPong data) h)"
| "host_message zd port reporting os WsClose h = Inr (False, h)"
| "host_message zd port reporting os msg h = Inr (True, h)"

text \<open>A run of the reader loop over the messages that arrive, with no task in between.\<close>

fun host_run ::
  "zstd_decoder \<Rightarrow> u16 \<Rightarrow> bool \<Rightarrow> (os_answers \<times> ws_msg) list \<Rightarrow> mux \<Rightarrow> anyhow + mux" where
  "host_run zd port reporting [] h = Inr h"
| "host_run zd port reporting ((os, m) # ms) h =
     and_then (host_message zd port reporting os m h) (\<lambda>(continue, h').
       if continue then host_run zd port reporting ms h' else Inr h')"

section \<open>The session as a step relation\<close>

text \<open>
  The reader loop, the keepalive task and the tasks of the streams interleave freely; a
  step of a stream's task needs the task.
\<close>

inductive host_task :: "mux \<Rightarrow> mux \<Rightarrow> bool" where
  ht_keepalive: "host_task h (keepalive now h)"
| ht_tcp_reader_end: "TcpReader sid \<in> set (mx_tasks h) \<Longrightarrow> host_task h (tcp_reader_end sid h)"
| ht_udp_read: "UdpReader sid \<in> set (mx_tasks h) \<Longrightarrow> host_task h (udp_read sid datagram h)"
| ht_udp_reader_end: "UdpReader sid \<in> set (mx_tasks h) \<Longrightarrow> host_task h (udp_reader_end sid h)"
| ht_tcp_write: "TcpWriter sid c \<in> set (mx_tasks h) \<Longrightarrow> host_task h (writer_next c h)"
| ht_tcp_writer_end: "TcpWriter sid c \<in> set (mx_tasks h) \<Longrightarrow> host_task h (tcp_writer_end sid c h)"
| ht_udp_write: "UdpWriter c \<in> set (mx_tasks h) \<Longrightarrow> host_task h (writer_next c h)"
| ht_udp_writer_end: "UdpWriter c \<in> set (mx_tasks h) \<Longrightarrow> host_task h (udp_writer_end c h)"
| ht_ws_writer_gone: "host_task h (h\<lparr>mx_ws_open := False\<rparr>)"

inductive host_step :: "zstd_encoder \<Rightarrow> zstd_decoder \<Rightarrow> u16 \<Rightarrow> bool \<Rightarrow> mux \<Rightarrow> mux \<Rightarrow> bool"
  for ze zd port reporting where
  hs_message: "host_message zd port reporting os m h = Inr (c, h') \<Longrightarrow>
     host_step ze zd port reporting h h'"
| hs_tcp_read: "reads_chunk sid chunk h \<Longrightarrow>
     host_step ze zd port reporting h (tcp_read ze sid chunk h)"
| hs_task: "host_task h h' \<Longrightarrow> host_step ze zd port reporting h h'"

inductive host_reachable :: "zstd_encoder \<Rightarrow> zstd_decoder \<Rightarrow> u16 \<Rightarrow> bool \<Rightarrow> mux \<Rightarrow> bool"
  for ze zd port reporting where
  hr_init: "host_reachable ze zd port reporting empty_mux"
| hr_step: "host_reachable ze zd port reporting h \<Longrightarrow> host_step ze zd port reporting h h' \<Longrightarrow>
     host_reachable ze zd port reporting h'"

section \<open>Lemmas\<close>

text \<open>The local address always parses, so its error branches are never taken.\<close>

lemma parse_local:
  "parse_addr (''127.0.0.1:'' @ show_word port) = Some (SockV4 127 0 0 1 port)"
  using parse_local_addr [of port] by (simp add: minecraft_local_addr_def)

lemmas parse_local_simp [simp] = parse_local [simplified]

lemma host_open_known: "mx_streams h (fr_stream_id f) \<noteq> None \<Longrightarrow> host_open port os f h = h"
  by (simp add: host_open_def Let_def)

lemma mux_inv_refuse [simp]: "mux_inv (refuse_stream i e h) \<longleftrightarrow> mux_inv h"
  by (simp add: refuse_stream_def)

lemma mux_inv_host_open: "mux_inv h \<Longrightarrow> mux_inv (host_open port os f h)"
  by (simp add: host_open_def Let_def mux_inv_open split: sum.split)

lemma mux_inv_host_data: "mux_inv h \<Longrightarrow> mux_inv (host_data port os f h)"
  by (simp add: host_data_def Let_def mux_inv_open mux_inv_send split: sum.split)

lemma mux_inv_host_message:
  assumes "host_message zd port reporting os m h = Inr (c, h')" and "mux_inv h"
  shows "mux_inv h'"
  using assms
  by (cases m)
    (auto simp: handle_host_frame_def and_then_def mux_inv_host_open mux_inv_host_data mux_inv_close
      split: sum.splits if_splits)

lemma host_step_mux_inv:
  "host_step ze zd port reporting h h' \<Longrightarrow> mux_inv h \<Longrightarrow> mux_inv h'"
  by (induction rule: host_step.induct)
    (auto intro: mux_inv_host_message mux_inv_pumps elim!: host_task.cases)

lemma empty_mux_inv: "mux_inv empty_mux"
  by (simp add: empty_mux_def mux_inv_def)

lemma host_reachable_mux_inv: "host_reachable ze zd port reporting h \<Longrightarrow> mux_inv h"
  by (induction rule: host_reachable.induct)
    (auto intro: host_step_mux_inv simp: empty_mux_inv)

text \<open>A data frame on an open stream.\<close>

lemma host_data_open:
  "stream_open h (fr_stream_id f) \<Longrightarrow>
     host_data port os f h = send_to_stream (fr_stream_id f) (fr_payload f) h"
  by (simp add: host_data_def stream_open_def Let_def)

definition stream_usable :: "'a mux_scheme \<Rightarrow> u64 \<Rightarrow> bool" where
  "stream_usable h j \<longleftrightarrow> mux_inv h \<and> stream_open h j \<and> stream_ready h j"

lemma mx_streams_send: "mx_streams (send_to_stream i p h) = mx_streams h"
  by (simp add: send_to_stream_def Let_def split: option.split)

lemma stream_usable_send:
  "stream_usable h j \<Longrightarrow> stream_usable (send_to_stream i p h) j"
  by (simp add: stream_usable_def mux_inv_send stream_ready_send mux_table.opened_deliver)

lemma stream_ready_open:
  assumes "mux_inv h"
  shows "stream_ready (open_stream i udp h) j \<longleftrightarrow> j = i \<or> stream_ready h j"
proof (cases "mx_streams h j")
  case (Some c)
  then have "c < length (mx_chans h)" using assms by (simp add: mux_inv_def)
  then show ?thesis
    using Some by (auto simp: stream_ready_def open_stream_def new_channel_def Let_def nth_append)
qed (auto simp: stream_ready_def open_stream_def new_channel_def Let_def nth_append)

lemma stream_usable_open:
  "mux_inv h \<Longrightarrow> j = i \<or> stream_usable h j \<Longrightarrow> stream_usable (open_stream i udp h) j"
  by (auto simp: stream_usable_def mux_inv_open mux_table.opened_opn stream_ready_open)

lemma host_data_usable:
  assumes "stream_usable h j"
  shows "stream_usable (host_data port os f h) j
    \<and> stream_queue (host_data port os f h) j =
        stream_queue h j @ (if fr_stream_id f = j then [fr_payload f] else [])
    \<and> mx_streams (host_data port os f h) j = mx_streams h j"
proof (cases "stream_open h (fr_stream_id f)")
  case True
  then show ?thesis
    using assms stream_usable_send [OF assms]
    by (auto simp: host_data_open stream_usable_def stream_queue_send mx_streams_send)
next
  case False
  then have ne: "fr_stream_id f \<noteq> j" using assms by (auto simp: stream_usable_def)
  have inv: "mux_inv h" and jo: "stream_open h j" using assms by (auto simp: stream_usable_def)
  let ?o = "open_stream 0 True h"
  have o: "stream_usable ?o j" if "fr_stream_id f = 0"
    using stream_usable_open [OF inv] assms by blast
  have q: "stream_queue ?o j = stream_queue h j" if "fr_stream_id f = 0"
    using mux_table.queue_opn [OF inv, where i = 0 and j = j and udp = True] that ne by simp
  have *: "stream_queue (send_to_stream 0 p ?o) j = stream_queue ?o j" if "fr_stream_id f = 0" for p
    using stream_queue_send [of ?o j 0 p] o that ne by (simp add: stream_usable_def)
  show ?thesis
    using False ne assms o q * stream_usable_send [of ?o j 0]
    by (auto simp: host_data_def stream_open_def Let_def mx_streams_send open_stream_def
        split: sum.splits)
qed

lemma host_message_data:
  assumes "zstd_lossless ze zd"
  shows "host_message zd port reporting os
      (WsBinary (encode_data_frame_maybe_compressed ze i p)) h =
    Inr (True, host_data port os \<lparr>fr_kind = FRAME_DATA, fr_stream_id = i, fr_payload = p\<rparr> h)"
  by (simp add: handle_host_frame_def decode_encode_data [OF assms]) (simp add: wire_consts)

lemma host_run_data:
  assumes "zstd_lossless ze zd" and "stream_usable h j"
  shows "\<exists>h'. host_run zd port reporting
        (map (\<lambda>(os, i, p). (os, WsBinary (encode_data_frame_maybe_compressed ze i p))) xs) h = Inr h'
      \<and> stream_usable h' j
      \<and> mx_streams h' j = mx_streams h j
      \<and> stream_queue h' j = stream_queue h j @ map (snd \<circ> snd) (filter (\<lambda>(os, i, p). i = j) xs)"
  using assms(2)
proof (induction xs arbitrary: h)
  case (Cons x xs)
  obtain os i p where x: "x = (os, i, p)" by (cases x)
  let ?h = "host_data port os \<lparr>fr_kind = FRAME_DATA, fr_stream_id = i, fr_payload = p\<rparr> h"
  from host_data_usable [OF Cons.prems, of port os "\<lparr>fr_kind = FRAME_DATA, fr_stream_id = i, fr_payload = p\<rparr>"]
  have u: "stream_usable ?h j"
    and q: "stream_queue ?h j = stream_queue h j @ (if i = j then [p] else [])"
    and m: "mx_streams ?h j = mx_streams h j" by simp_all
  from Cons.IH [OF u] show ?case
    by (auto simp: x host_message_data [OF assms(1)] q m simp del: host_message.simps)
qed simp

lemma host_kinds [simp]:
  "FRAME_OPEN \<noteq> FRAME_HELLO" "FRAME_DATA \<noteq> FRAME_HELLO" "FRAME_DATA \<noteq> FRAME_OPEN"
  by (simp_all add: wire_consts)

lemma host_message_open:
  "host_message zd port reporting os (WsBinary (encode_frame FRAME_OPEN i p)) h =
     Inr (True, host_open port os \<lparr>fr_kind = FRAME_OPEN, fr_stream_id = i, fr_payload = p\<rparr> h)"
  by (simp add: handle_host_frame_def decode_encode_frame)

declare host_message.simps(1) [simp del]

text \<open>The answer of the system to an OPEN frame: the payload \<open>[1]\<close> asks for UDP.\<close>

definition os_open_result :: "bytes \<Rightarrow> os_answers \<Rightarrow> string + unit" where
  "os_open_result p os = (if p = [1] then os_udp_bind os else os_tcp_connect os)"

lemma udp_payload: "length p = Suc 0 \<and> p ! 0 = 1 \<longleftrightarrow> p = [1]" for p :: bytes
  by (cases p) (auto simp: length_Suc_conv)

lemma host_open_cases:
  assumes "mx_streams h i = None"
  shows "host_open port os \<lparr>fr_kind = k, fr_stream_id = i, fr_payload = p\<rparr> h =
    (case os_open_result p os of
       Inr _ \<Rightarrow> open_stream i (p = [1]) h
     | Inl e \<Rightarrow> refuse_stream i e h)"
  using assms
  by (auto simp: host_open_def os_open_result_def udp_payload Let_def split: sum.split)

lemma host_run_open:
  assumes "os_open_result p os = Inr ()" and "mx_streams h i = None"
  shows "host_run zd port reporting ((os, WsBinary (encode_frame FRAME_OPEN i p)) # ms) h =
    host_run zd port reporting ms (open_stream i (p = [1]) h)"
  using assms by (simp add: host_message_open host_open_cases)

text \<open>What a host may send: never OPEN or HELLO.\<close>

definition host_kind :: "u8 \<Rightarrow> bool" where
  "host_kind k \<longleftrightarrow> k \<in> {FRAME_DATA, FRAME_DATA_ZSTD, FRAME_CLOSE, FRAME_READY, FRAME_ERROR,
     FRAME_PING, FRAME_PONG}"

definition host_sends :: "ws_msg list \<Rightarrow> bool" where
  "host_sends ms \<longleftrightarrow> (\<forall>d. WsBinary d \<in> set ms \<longrightarrow> 9 \<le> length d \<and> host_kind (d ! 0))"

lemma host_sends_ws_send:
  "host_sends (mx_ws h) \<Longrightarrow> (\<And>d. m = WsBinary d \<Longrightarrow> 9 \<le> length d \<and> host_kind (d ! 0)) \<Longrightarrow>
     host_sends (mx_ws (ws_send m h))"
  by (auto simp: host_sends_def ws_send_ws split: if_splits)

lemma host_sends_frame:
  "host_sends (mx_ws h) \<Longrightarrow> host_kind k \<Longrightarrow>
     host_sends (mx_ws (ws_send (WsBinary (encode_frame k i p)) h))"
  by (rule host_sends_ws_send) (auto simp: frame_parts)

lemma host_sends_other:
  "host_sends (mx_ws h) \<Longrightarrow> host_sends (mx_ws (ws_send (WsPing d) h))"
  "host_sends (mx_ws h) \<Longrightarrow> host_sends (mx_ws (ws_send (WsPong d) h))"
  by (rule host_sends_ws_send; simp)+

lemma host_kinds_sent [simp]:
  "host_kind FRAME_DATA" "host_kind FRAME_DATA_ZSTD" "host_kind FRAME_CLOSE"
  "host_kind FRAME_READY" "host_kind FRAME_ERROR" "host_kind FRAME_PING" "host_kind FRAME_PONG"
  by (simp_all add: host_kind_def)

lemma quiet_ws [simp]:
  "mx_ws (close_stream i h) = mx_ws h" "mx_ws (end_task t h) = mx_ws h"
  "mx_ws (open_stream i udp h) = mx_ws h" "mx_ws (send_to_stream i p h) = mx_ws h"
  "mx_ws (writer_next c h) = mx_ws h" "mx_ws (drop_receiver c h) = mx_ws h"
  "mx_ws (report_pong r now f h) = mx_ws h"
  by (simp_all add: close_stream_def end_task_def open_stream_def send_to_stream_def
      writer_next_def drop_receiver_def report_pong_def Let_def split: option.split list.split)

lemma host_sends_data:
  "host_sends (mx_ws h) \<Longrightarrow> host_sends (mx_ws (tcp_read ze i chunk h))"
  by (simp add: tcp_read_def encode_data_frame_maybe_compressed_def host_sends_frame split: sum.split)

lemma host_sends_pumps:
  assumes "host_sends (mx_ws h)"
  shows "host_sends (mx_ws (keepalive now h))" "host_sends (mx_ws (answer_ping f h))"
    "host_sends (mx_ws (tcp_reader_end i h))" "host_sends (mx_ws (udp_read i d h))"
    "host_sends (mx_ws (udp_reader_end i h))" "host_sends (mx_ws (tcp_writer_end i c h))"
    "host_sends (mx_ws (udp_writer_end c h))" "host_sends (mx_ws (refuse_stream i e h))"
  using assms
  by (simp_all add: keepalive_def answer_ping_def tcp_reader_end_def udp_read_def
      udp_reader_end_def tcp_writer_end_def udp_writer_end_def refuse_stream_def
      host_sends_frame host_sends_other)

lemma host_sends_message:
  assumes "host_message zd port reporting os m h = Inr (c, h')" and "host_sends (mx_ws h)"
  shows "host_sends (mx_ws h')"
proof -
  have "host_sends (mx_ws (host_open port os f h))" "host_sends (mx_ws (host_data port os f h))" for f
    using assms(2)
    by (simp_all add: host_open_def host_data_def Let_def host_sends_pumps split: sum.split)
  with assms show ?thesis
    by (cases m)
      (auto simp: host_message.simps handle_host_frame_def and_then_def host_sends_frame
        host_sends_pumps host_sends_other split: sum.splits if_splits)
qed

lemma host_step_sends:
  "host_step ze zd port reporting h h' \<Longrightarrow> host_sends (mx_ws h) \<Longrightarrow> host_sends (mx_ws h')"
  by (induction rule: host_step.induct)
    (auto intro: host_sends_message host_sends_pumps host_sends_data elim!: host_task.cases)

lemma host_reachable_sends: "host_reachable ze zd port reporting h \<Longrightarrow> host_sends (mx_ws h)"
  by (induction rule: host_reachable.induct)
    (auto simp: empty_mux_def host_sends_def [of "[]"] intro: host_step_sends)

section \<open>Properties\<close>

definition sample_os :: os_answers where
  "sample_os = \<lparr>os_udp_bind = Inr (), os_tcp_connect = Inr (), os_now = 1000\<rparr>"

lemma sample_os_open: "os_open_result p sample_os = Inr ()"
  by (simp add: os_open_result_def sample_os_def)

text \<open>
  after an accepted OPEN frame of a new stream, the host queues for that stream exactly
  the payloads of its DATA frames, in order and undamaged by compression, whatever DATA of
  other streams is interleaved; the session goes on.
\<close>

theorem host_demultiplexes:
  assumes "zstd_lossless ze zd" and "mux_inv h" and "mx_streams h i = None"
    and "os_open_result p os = Inr ()"
  shows "\<exists>h'. host_run zd port reporting ((os, WsBinary (encode_frame FRAME_OPEN i p)) #
        map (\<lambda>(os, j, d). (os, WsBinary (encode_data_frame_maybe_compressed ze j d))) xs) h = Inr h'
      \<and> stream_queue h' i = map (snd \<circ> snd) (filter (\<lambda>(os, j, d). j = i) xs)"
proof -
  have "stream_usable (open_stream i (p = [1]) h) i"
    using assms(2) by (simp add: stream_usable_open)
  from host_run_data [OF assms(1) this]
    mux_table.queue_opn [OF assms(2), where i = i and j = i and udp = "p = [1]"]
  show ?thesis unfolding host_run_open [OF assms(4,3)] by fastforce
qed

theorem host_demultiplexes_witness:
  "\<exists>h'. host_run pair_decode 25565 True ((sample_os, WsBinary (encode_frame FRAME_OPEN 1 [])) #
      map (\<lambda>(os, j, d). (os, WsBinary (encode_data_frame_maybe_compressed pair_encode j d)))
        [(sample_os, 1, [5]), (sample_os, 0, [6]), (sample_os, 1, replicate 80 9)]) empty_mux = Inr h'
    \<and> stream_queue h' 1 = [[5], replicate 80 9]"
  using host_demultiplexes [OF pair_lossless empty_mux_inv, of 1 "[]" sample_os 25565 True
      "[(sample_os, 1, [5]), (sample_os, 0, [6]), (sample_os, 1, replicate 80 9)]"]
  by (simp add: sample_os_open empty_mux_def)

text \<open>
  C10: whatever arrives and however its tasks interleave, a host session keeps one channel per
  open stream and sends only well-formed frames of kinds DATA, CLOSE, READY, ERROR, PING and
  PONG, never OPEN or HELLO.
\<close>

theorem host_session_safe:
  assumes "host_reachable ze zd port reporting h"
  shows "mux_inv h \<and> (\<forall>d. WsBinary d \<in> set (mx_ws h) \<longrightarrow> 9 \<le> length d \<and> host_kind (d ! 0))"
  using host_reachable_mux_inv [OF assms] host_reachable_sends [OF assms]
  by (simp add: host_sends_def)

theorem host_session_safe_witness:
  "mux_inv (keepalive 5 empty_mux) \<and> host_kind (encode_frame FRAME_PING 0 (to_be (5 :: u64)) ! 0)"
  using host_session_safe [OF hr_step [OF hr_init hs_task [OF ht_keepalive [where now = 5]]]]
  by (simp add: keepalive_def ws_send_def empty_mux_def)

text \<open>
  what an OPEN frame does on every branch: a known stream is left as it is; a refused one
  is answered with ERROR, carrying the reason, then CLOSE, and not opened; an accepted one
  starts with an empty queue. Other streams keep their queues.
\<close>

theorem host_open_branches:
  assumes "mux_inv h" and "mx_ws_open h"
  shows "\<exists>h'. host_message zd port reporting os (WsBinary (encode_frame FRAME_OPEN i p)) h
        = Inr (True, h')
    \<and> (if stream_open h i then h' = h
       else case os_open_result p os of
           Inl e \<Rightarrow> \<not> stream_open h' i
             \<and> mx_ws h' = mx_ws h @ [WsBinary (encode_frame FRAME_ERROR i (as_bytes e)),
                                     WsBinary (encode_frame FRAME_CLOSE i [])]
         | Inr _ \<Rightarrow> stream_open h' i \<and> stream_ready h' i \<and> stream_queue h' i = []
             \<and> mx_ws h' = mx_ws h)
    \<and> (\<forall>j. j \<noteq> i \<longrightarrow> stream_queue h' j = stream_queue h j)"
proof (cases "stream_open h i")
  case True
  then show ?thesis
    by (simp add: host_message_open host_open_known stream_open_def)
next
  case False
  then have n: "mx_streams h i = None" by (simp add: stream_open_def)
  have q: "stream_queue (ws_send m h) j = stream_queue h j" for m j and h :: mux
    by (cases "mx_streams h j") (simp_all add: stream_queue_def)
  show ?thesis
    using False assms mux_table.queue_opn [OF assms(1), where i = i and udp = "p = [1]"]
      mux_table.ready_opn [where i = i and s = h and udp = "p = [1]"]
      mux_table.opened_opn [where i = i and s = h and j = i and udp = "p = [1]"]
    by (simp add: host_message_open host_open_cases [OF n] refuse_stream_def ws_send_ws q
        stream_open_def split: sum.split)
qed

theorem host_open_branches_witness:
  "\<exists>h'. host_message pair_decode 25565 True \<lparr>os_udp_bind = Inl ''no'', os_tcp_connect = Inl ''refused'',
        os_now = 0\<rparr> (WsBinary (encode_frame FRAME_OPEN 3 [])) empty_mux = Inr (True, h')
      \<and> mx_ws h' = [WsBinary (encode_frame FRAME_ERROR 3 (as_bytes ''refused'')),
                    WsBinary (encode_frame FRAME_CLOSE 3 [])]"
  using host_open_branches [OF empty_mux_inv, of pair_decode 25565 True
      "\<lparr>os_udp_bind = Inl ''no'', os_tcp_connect = Inl ''refused'', os_now = 0\<rparr>" 3 "[]"]
  by (auto simp: os_open_result_def stream_open_def empty_mux_def)

text \<open>
  a host session ends with an error only if one of the binary messages it received does
  not decode, and then with that decoding error.
\<close>

theorem host_run_error:
  assumes "host_run zd port reporting ms h = Inl e"
  shows "\<exists>(os, m) \<in> set ms. \<exists>d. m = WsBinary d \<and> decode_frame zd d = Inl e"
  using assms
proof (induction zd port reporting ms h rule: host_run.induct)
  case (2 zd port reporting os m ms h)
  show ?case
  proof (cases "host_message zd port reporting os m h")
    case (Inl e')
    then have "\<exists>d. m = WsBinary d \<and> decode_frame zd d = Inl e'"
      by (cases m) (auto simp: host_message.simps handle_host_frame_def and_then_def split: sum.splits)
    with 2(2) Inl show ?thesis by auto
  next
    case (Inr r)
    with 2 show ?thesis by (cases r) (force split: if_splits)
  qed
qed simp

theorem host_run_error_witness:
  "\<exists>(os, m) \<in> set [(sample_os, WsBinary [1, 2])].
     \<exists>d. m = WsBinary d \<and> decode_frame pair_decode d =
       Inl [''WSS relay frame too short ('' @ show_nat 2 @ '' bytes)'']"
  by (rule host_run_error [where port = 0 and reporting = True and h = empty_mux])
    (simp add: host_message.simps handle_host_frame_def decode_frame_def
      eval_nat_numeral)

text \<open>
  C28: the pumps of a stream forget the stream by its id: when a stream was closed and its id
  opened again, the end of the old stream's reader or writer removes the new stream from the
  table, and later DATA for it is dropped, although its own pumps still run.
\<close>

theorem stale_pump_closes_new_stream:
  assumes "mux_inv h" and "mx_streams h i = Some c" and "i \<noteq> 0"
  shows "let h' = open_stream i False (close_stream i h) in
      stream_open h' i
    \<and> \<not> stream_open (tcp_reader_end i h') i
    \<and> \<not> stream_open (tcp_writer_end i c h') i
    \<and> TcpWriter i (length (mx_chans h)) \<in> set (mx_tasks (tcp_writer_end i c h'))
    \<and> host_data port os \<lparr>fr_kind = FRAME_DATA, fr_stream_id = i, fr_payload = p\<rparr>
        (tcp_writer_end i c h') = tcp_writer_end i c h'"
proof -
  have "c \<noteq> length (mx_chans h)" using assms by (auto simp: mux_inv_def)
  then show ?thesis
    using assms(3)
    by (simp add: tcp_reader_end_def tcp_writer_end_def end_task_def drop_receiver_def
        close_stream_def open_stream_def stream_open_def host_data_def Let_def ws_send_def
        in_set_remove1)
qed

theorem stale_pump_closes_new_stream_witness:
  "\<not> stream_open (tcp_writer_end 1 0 (open_stream 1 False (close_stream 1
       (open_stream 1 False empty_mux)))) 1"
  using stale_pump_closes_new_stream [of "open_stream 1 False empty_mux" 1 0]
  by (simp add: mux_inv_open empty_mux_inv Let_def) (simp add: open_stream_def empty_mux_def)

end
