(* ===== verification/Wss_Client.thy ===== *)
theory Wss_Client
  imports Wss_Mux
begin

text \<open>
  The client sides of a relay session in their data phase: the TCP client
  (\<open>client_session\<close>: accept loop and reader loop) and the UDP client of Bedrock Edition
  (\<open>client_session_udp\<close>). Both answer the first \<open>FRAME_READY\<close> by firing the one-shot
  ready signal they were started with.
\<close>

record ready_mux = mux +
  rm_got_ready :: bool
  rm_ready_pending :: bool \<comment> \<open>\<open>ready_signal.is_some()\<close>\<close>
  rm_ready_sent :: "(anyhow + unit) list"

record client_mux = ready_mux +
  cm_counter :: u64
  cm_accepting :: "u64 option" \<comment> \<open>OPEN sent, stream not yet in the table\<close>
  cm_accept_alive :: bool \<comment> \<open>the accept loop still runs\<close>

record udp_mux = ready_mux +
  um_recv_alive :: bool \<comment> \<open>the task that receives from the game still runs\<close>
  um_last_addr :: "sock_addr option"
  um_sent :: "(sock_addr \<times> bytes) list"

definition empty_client :: "bool \<Rightarrow> client_mux" where
  "empty_client pending = mux.extend empty_mux
     \<lparr>rm_got_ready = False, rm_ready_pending = pending, rm_ready_sent = [],
      cm_counter = 1, cm_accepting = None, cm_accept_alive = True\<rparr>"

definition empty_udp :: "bool \<Rightarrow> udp_mux" where
  "empty_udp pending = mux.extend empty_mux
     \<lparr>rm_got_ready = False, rm_ready_pending = pending, rm_ready_sent = [],
      um_recv_alive = True, um_last_addr = None, um_sent = []\<rparr>"

lemma empty_client_simps [simp]:
  "mx_streams (empty_client b) = Map.empty" "mx_chans (empty_client b) = []"
  "mx_tasks (empty_client b) = []" "mx_ws (empty_client b) = []" "mx_ws_open (empty_client b)"
  "mx_pings (empty_client b) = []" "cm_counter (empty_client b) = 1"
  "cm_accepting (empty_client b) = None" "cm_accept_alive (empty_client b)"
  "rm_ready_sent (empty_client b) = []" "rm_ready_pending (empty_client b) = b"
  by (simp_all add: empty_client_def mux.defs)

lemma empty_udp_simps [simp]:
  "um_recv_alive (empty_udp b)" "mx_ws_open (empty_udp b)" "um_last_addr (empty_udp b) = None"
  "um_sent (empty_udp b) = []"
  by (simp_all add: empty_udp_def mux.defs)

section \<open>The TCP client\<close>

text \<open>\<open>ready_signal.take()\<close> and the send to it.\<close>

definition signal_ready :: "'a ready_mux_scheme \<Rightarrow> 'a ready_mux_scheme" where
  "signal_ready h =
     (if \<not> rm_got_ready h then
        let h = h\<lparr>rm_got_ready := True\<rparr>
        in if rm_ready_pending h
           then h\<lparr>rm_ready_pending := False, rm_ready_sent := rm_ready_sent h @ [Inr ()]\<rparr>
           else h
      else h)"

text \<open>
  One accepted connection, in the two steps other tasks can come between: the next stream
  id and the OPEN frame, then the stream in the table with its pumps.
\<close>

definition client_accept :: "client_mux \<Rightarrow> client_mux" where
  "client_accept h =
     (if cm_accept_alive h \<and> cm_accepting h = None then
        let sid = cm_counter h; h1 = h\<lparr>cm_counter := sid + 1\<rparr>
        in if mx_ws_open h1
           then (ws_send (WsBinary (encode_frame FRAME_OPEN sid [])) h1)\<lparr>cm_accepting := Some sid\<rparr>
           else h1\<lparr>cm_accept_alive := False\<rparr>
      else h)"

definition client_register :: "client_mux \<Rightarrow> client_mux" where
  "client_register h =
     (case cm_accepting h of
        Some sid \<Rightarrow> open_stream sid False (h\<lparr>cm_accepting := None\<rparr>)
      | None \<Rightarrow> h)"

definition client_frame :: "bool \<Rightarrow> u64 \<Rightarrow> frame \<Rightarrow> client_mux \<Rightarrow> client_mux" where
  "client_frame reporting now f h =
     (if fr_kind f = FRAME_READY then signal_ready h
      else if fr_kind f = FRAME_DATA then send_to_stream (fr_stream_id f) (fr_payload f) h
      else if fr_kind f = FRAME_CLOSE \<or> fr_kind f = FRAME_ERROR
        then close_stream (fr_stream_id f) h
      else if fr_kind f = FRAME_PING then answer_ping f h
      else if fr_kind f = FRAME_PONG then report_pong reporting now f h
      else h)"

fun client_message ::
  "zstd_decoder \<Rightarrow> bool \<Rightarrow> u64 \<Rightarrow> ws_msg \<Rightarrow> client_mux \<Rightarrow> anyhow + (bool \<times> client_mux)" where
  "client_message zd reporting now (WsBinary data) h =
     and_then (decode_frame zd data) (\<lambda>f. Inr (True, client_frame reporting now f h))"
| "client_message zd reporting now (WsPing data) h = Inr (True, ws_send (WsPong data) h)"
| "client_message zd reporting now WsClose h = Inr (False, h)"
| "client_message zd reporting now msg h = Inr (True, h)"

fun client_run :: "zstd_decoder \<Rightarrow> bool \<Rightarrow> (u64 \<times> ws_msg) list \<Rightarrow> client_mux \<Rightarrow> anyhow + client_mux" where
  "client_run zd reporting [] h = Inr h"
| "client_run zd reporting ((now, m) # ms) h =
     and_then (client_message zd reporting now m h) (\<lambda>(continue, h').
       if continue then client_run zd reporting ms h' else Inr h')"

text \<open>
  The steps of a client session: those of its accept loop, keepalive, writers and ending
  pumps, a chunk that a pump reads, and a message for the reader loop.
\<close>

inductive client_task :: "client_mux \<Rightarrow> client_mux \<Rightarrow> bool" where
  ct_accept: "client_task h (client_accept h)"
| ct_register: "client_task h (client_register h)"
| ct_keepalive: "client_task h (keepalive now h)"
| ct_tcp_reader_end: "TcpReader sid \<in> set (mx_tasks h) \<Longrightarrow> client_task h (tcp_reader_end sid h)"
| ct_tcp_write: "TcpWriter sid c \<in> set (mx_tasks h) \<Longrightarrow> client_task h (writer_next c h)"
| ct_tcp_writer_end: "TcpWriter sid c \<in> set (mx_tasks h) \<Longrightarrow>
     client_task h (tcp_writer_end sid c h)"
| ct_ws_writer_gone: "client_task h (h\<lparr>mx_ws_open := False\<rparr>)"

inductive client_step :: "zstd_encoder \<Rightarrow> zstd_decoder \<Rightarrow> bool \<Rightarrow> client_mux \<Rightarrow> client_mux \<Rightarrow> bool"
  for ze zd reporting where
  cs_message: "client_message zd reporting now m h = Inr (c, h') \<Longrightarrow> client_step ze zd reporting h h'"
| cs_tcp_read: "reads_chunk sid chunk h \<Longrightarrow> client_step ze zd reporting h (tcp_read ze sid chunk h)"
| cs_task: "client_task h h' \<Longrightarrow> client_step ze zd reporting h h'"

inductive client_reachable :: "zstd_encoder \<Rightarrow> zstd_decoder \<Rightarrow> bool \<Rightarrow> bool \<Rightarrow> client_mux \<Rightarrow> bool"
  for ze zd reporting pending where
  cr_init: "client_reachable ze zd reporting pending (empty_client pending)"
| cr_step: "client_reachable ze zd reporting pending h \<Longrightarrow> client_step ze zd reporting h h' \<Longrightarrow>
     client_reachable ze zd reporting pending h'"

section \<open>The UDP client\<close>

definition udp_datagram :: "bytes \<Rightarrow> sock_addr \<Rightarrow> udp_mux \<Rightarrow> udp_mux" where
  "udp_datagram datagram addr h =
     (if um_recv_alive h then
        let h1 = h\<lparr>um_last_addr := Some addr\<rparr>
        in if mx_ws_open h1 then ws_send (WsBinary (encode_frame FRAME_DATA 0 datagram)) h1
           else h1\<lparr>um_recv_alive := False\<rparr>
      else h)"

definition udp_frame :: "bool \<Rightarrow> u64 \<Rightarrow> frame \<Rightarrow> udp_mux \<Rightarrow> udp_mux" where
  "udp_frame reporting now f h =
     (if fr_kind f = FRAME_READY then signal_ready h
      else if fr_kind f = FRAME_DATA then
        (case um_last_addr h of
           Some addr \<Rightarrow> h\<lparr>um_sent := um_sent h @ [(addr, fr_payload f)]\<rparr>
         | None \<Rightarrow> h)
      else if fr_kind f = FRAME_PING then answer_ping f h
      else if fr_kind f = FRAME_PONG then report_pong reporting now f h
      else h)"

fun udp_message ::
  "zstd_decoder \<Rightarrow> bool \<Rightarrow> u64 \<Rightarrow> ws_msg \<Rightarrow> udp_mux \<Rightarrow> anyhow + (bool \<times> udp_mux)" where
  "udp_message zd reporting now (WsBinary data) h =
     and_then (decode_frame zd data) (\<lambda>f. Inr (True, udp_frame reporting now f h))"
| "udp_message zd reporting now (WsPing data) h = Inr (True, ws_send (WsPong data) h)"
| "udp_message zd reporting now WsClose h = Inr (False, h)"
| "udp_message zd reporting now msg h = Inr (True, h)"

text \<open>A run of the UDP client: datagrams of local game clients and messages of the relay.\<close>

datatype udp_event = UdpFromGame bytes sock_addr | UdpFromRelay u64 ws_msg

fun udp_run :: "zstd_decoder \<Rightarrow> bool \<Rightarrow> udp_event list \<Rightarrow> udp_mux \<Rightarrow> anyhow + udp_mux" where
  "udp_run zd reporting [] h = Inr h"
| "udp_run zd reporting (UdpFromGame d a # es) h = udp_run zd reporting es (udp_datagram d a h)"
| "udp_run zd reporting (UdpFromRelay now m # es) h =
     and_then (udp_message zd reporting now m h) (\<lambda>(continue, h').
       if continue then udp_run zd reporting es h' else Inr h')"

section \<open>Lemmas\<close>

text \<open>The stream ids of the frames of one kind, in the order they are sent.\<close>

definition frame_id_of :: "u8 \<Rightarrow> ws_msg \<Rightarrow> u64 list" where
  "frame_id_of k m =
     (case m of WsBinary d \<Rightarrow> if d \<noteq> [] \<and> d ! 0 = k then [from_be (take 8 (drop 1 d))] else []
      | _ \<Rightarrow> [])"

definition frame_ids :: "u8 \<Rightarrow> ws_msg list \<Rightarrow> u64 list" where
  "frame_ids k ms = concat (map (frame_id_of k) ms)"

lemma frame_ids_append [simp]: "frame_ids k (ms @ ns) = frame_ids k ms @ frame_ids k ns"
  by (simp add: frame_ids_def)

lemma frame_ids_Nil [simp]: "frame_ids k [] = []"
  by (simp add: frame_ids_def)

lemma frame_id_of_encode [simp]:
  "frame_id_of k (WsBinary (encode_frame k' i p)) = (if k = k' then [i] else [])"
  by (auto simp: frame_id_of_def frame_parts encode_frame_def)

lemma frame_id_of_other [simp]:
  "frame_id_of k (WsPing d) = []" "frame_id_of k (WsPong d) = []"
  by (simp_all add: frame_id_of_def)

lemma frame_ids_Cons [simp]: "frame_ids k (m # ms) = frame_id_of k m @ frame_ids k ms"
  by (simp add: frame_ids_def)

lemma frame_id_of_data:
  "frame_id_of k (WsBinary (encode_data_frame_maybe_compressed ze i p)) =
     (if k = FRAME_DATA \<or> k = FRAME_DATA_ZSTD then
        frame_id_of k (WsBinary (encode_data_frame_maybe_compressed ze i p)) else [])"
  by (auto simp: encode_data_frame_maybe_compressed_def split: sum.split)

text \<open>Every DATA and CLOSE frame comes after the OPEN frame of its stream.\<close>

definition stream_ids :: "ws_msg \<Rightarrow> u64 set" where
  "stream_ids m = set (frame_id_of FRAME_DATA m) \<union> set (frame_id_of FRAME_DATA_ZSTD m)
     \<union> set (frame_id_of FRAME_CLOSE m)"

fun opened_first :: "u64 set \<Rightarrow> ws_msg list \<Rightarrow> bool" where
  "opened_first S [] = True"
| "opened_first S (m # ms) =
     (stream_ids m \<subseteq> S \<and> opened_first (S \<union> set (frame_id_of FRAME_OPEN m)) ms)"

lemma opened_first_append:
  "opened_first S (ms @ ns) \<longleftrightarrow>
     opened_first S ms \<and> opened_first (S \<union> set (frame_ids FRAME_OPEN ms)) ns"
  by (induction ms arbitrary: S) (auto simp: Un_assoc)

lemma stream_ids_encode:
  "stream_ids (WsBinary (encode_frame k i p)) =
     (if k = FRAME_DATA \<or> k = FRAME_DATA_ZSTD \<or> k = FRAME_CLOSE then {i} else {})"
  by (auto simp: stream_ids_def)

lemma stream_ids_simps [simp]:
  "stream_ids (WsBinary (encode_frame FRAME_OPEN i p)) = {}"
  "stream_ids (WsBinary (encode_frame FRAME_PING i p)) = {}"
  "stream_ids (WsBinary (encode_frame FRAME_PONG i p)) = {}"
  "stream_ids (WsBinary (encode_frame FRAME_CLOSE i p)) = {i}"
  "stream_ids (WsBinary (encode_frame FRAME_DATA i p)) = {i}"
  "stream_ids (WsPing d) = {}" "stream_ids (WsPong d) = {}"
  by (simp_all add: stream_ids_encode) (simp_all add: wire_consts stream_ids_def)

lemma stream_ids_data [simp]:
  "stream_ids (WsBinary (encode_data_frame_maybe_compressed ze i p)) = {i}"
  by (auto simp: encode_data_frame_maybe_compressed_def stream_ids_encode split: sum.split)

lemma open_kind [simp]:
  "FRAME_OPEN \<noteq> FRAME_CLOSE" "FRAME_OPEN \<noteq> FRAME_PING" "FRAME_OPEN \<noteq> FRAME_PONG"
  by (simp_all add: wire_consts)

lemma open_ids_simps [simp]:
  "frame_id_of FRAME_OPEN (WsBinary (encode_data_frame_maybe_compressed ze i p)) = []"
  "frame_id_of FRAME_OPEN (WsBinary (encode_frame FRAME_PING i p)) = []"
  "frame_id_of FRAME_OPEN (WsBinary (encode_frame FRAME_PONG i p)) = []"
  "frame_id_of FRAME_OPEN (WsBinary (encode_frame FRAME_CLOSE i p)) = []"
  by (simp_all add: frame_id_of_data wire_consts)

text \<open>The streams, readers and pending connection all have an OPEN frame behind them.\<close>

definition client_ids :: "client_mux \<Rightarrow> u64 set" where
  "client_ids h = dom (mx_streams h) \<union> {i. TcpReader i \<in> set (mx_tasks h)}
     \<union> set_option (cm_accepting h)"

definition client_inv :: "client_mux \<Rightarrow> bool" where
  "client_inv h \<longleftrightarrow> opened_first {} (mx_ws h)
     \<and> client_ids h \<subseteq> set (frame_ids FRAME_OPEN (mx_ws h))"

definition counter_inv :: "client_mux \<Rightarrow> bool" where
  "counter_inv h \<longleftrightarrow>
     (\<exists>n. frame_ids FRAME_OPEN (mx_ws h) = map word_of_nat [1..<Suc n]
        \<and> (cm_accept_alive h \<longrightarrow> cm_counter h = word_of_nat (Suc n)))"

definition ready_inv :: "'a ready_mux_scheme \<Rightarrow> bool" where
  "ready_inv h \<longleftrightarrow> rm_ready_sent h = [] \<or>
     (rm_ready_sent h = [Inr ()] \<and> rm_got_ready h \<and> \<not> rm_ready_pending h)"

definition client_good :: "client_mux \<Rightarrow> bool" where
  "client_good h \<longleftrightarrow> mux_inv h \<and> client_inv h \<and> counter_inv h \<and> ready_inv h"

text \<open>
  Almost every step leaves the counter and the ready signal alone, makes no new ids, and
  sends only frames of ids that have been opened.
\<close>

definition client_quiet :: "client_mux \<Rightarrow> client_mux \<Rightarrow> bool" where
  "client_quiet h h' \<longleftrightarrow>
     mux_inv h' \<and> client_ids h' \<subseteq> client_ids h \<and>
     cm_counter h' = cm_counter h \<and> cm_accept_alive h' = cm_accept_alive h \<and> ready_inv h' \<and>
     (\<exists>ms. mx_ws h' = mx_ws h @ ms \<and> opened_first (client_ids h) ms \<and>
        frame_ids FRAME_OPEN ms = [])"

lemma opened_first_mono: "opened_first S ms \<Longrightarrow> S \<subseteq> T \<Longrightarrow> opened_first T ms"
  by (induction ms arbitrary: S T) (auto, blast)

lemma client_quiet_good:
  assumes "client_good h" and "client_quiet h h'"
  shows "client_good h'"
proof -
  from assms(2) obtain ms where ms: "mx_ws h' = mx_ws h @ ms" "opened_first (client_ids h) ms"
    "frame_ids FRAME_OPEN ms = []"
    by (auto simp: client_quiet_def)
  have "opened_first (set (frame_ids FRAME_OPEN (mx_ws h))) ms"
    using opened_first_mono [OF ms(2)] assms(1) by (simp add: client_good_def client_inv_def)
  then show ?thesis
    using assms ms
    by (auto simp: client_good_def client_inv_def counter_inv_def client_quiet_def opened_first_append)
qed

lemma mux_inv_rm_update [simp]:
  "mux_inv ((h :: 'a ready_mux_scheme)\<lparr>rm_got_ready := a\<rparr>) = mux_inv h"
  "mux_inv (h\<lparr>rm_ready_pending := a\<rparr>) = mux_inv h"
  "mux_inv (h\<lparr>rm_ready_sent := b\<rparr>) = mux_inv h"
  by (simp_all add: mux_inv_def)

lemma mux_inv_cm_update [simp]:
  "mux_inv ((h :: 'a client_mux_scheme)\<lparr>cm_counter := n\<rparr>) = mux_inv h"
  "mux_inv (h\<lparr>cm_accepting := x\<rparr>) = mux_inv h"
  "mux_inv (h\<lparr>cm_accept_alive := a\<rparr>) = mux_inv h"
  by (simp_all add: mux_inv_def)

lemma quiet_ws_send:
  assumes "client_good h" and "stream_ids m \<subseteq> client_ids h" and "frame_id_of FRAME_OPEN m = []"
  shows "client_quiet h (ws_send m h)"
proof -
  have "mux_inv (ws_send m h)" using assms(1) by (simp add: client_good_def)
  then show ?thesis
    using assms
    by (auto simp: client_quiet_def client_good_def client_ids_def ready_inv_def ws_send_def)
qed

lemma quiet_trans:
  assumes "client_good h" and "client_quiet h h1" and "client_quiet h1 h2"
  shows "client_quiet h h2"
proof -
  from assms(2,3) obtain ms ns where
    "mx_ws h1 = mx_ws h @ ms" "opened_first (client_ids h) ms" "frame_ids FRAME_OPEN ms = []"
    "mx_ws h2 = mx_ws h1 @ ns" "opened_first (client_ids h1) ns" "frame_ids FRAME_OPEN ns = []"
    by (auto simp: client_quiet_def)
  moreover have "client_ids h1 \<subseteq> client_ids h" using assms(2) by (simp add: client_quiet_def)
  ultimately show ?thesis
    using assms opened_first_mono [of "client_ids h1" ns "client_ids h"]
    by (auto simp: client_quiet_def opened_first_append)
qed

lemma quiet_local:
  assumes "client_good h" and "mux_inv h'" and "mx_ws h' = mx_ws h"
    and "client_ids h' \<subseteq> client_ids h" and "cm_counter h' = cm_counter h"
    and "cm_accept_alive h' = cm_accept_alive h" and "ready_inv h'"
  shows "client_quiet h h'"
  using assms by (simp add: client_quiet_def)

lemma quiet_close: "client_good h \<Longrightarrow> client_quiet h (close_stream i h)"
  by (rule quiet_local, simp, simp add: client_good_def mux_inv_close)
    (auto simp: client_good_def close_stream_def client_ids_def ready_inv_def split: if_splits)

lemma quiet_end_task: "client_good h \<Longrightarrow> client_quiet h (end_task t h)"
  by (rule quiet_local, simp, simp add: client_good_def)
    (auto simp: client_good_def end_task_def client_ids_def ready_inv_def dest: notin_set_remove1)

lemma quiet_update:
  assumes "client_good h"
  shows "client_quiet h (h\<lparr>mx_chans := (mx_chans h)[c := x]\<rparr>)"
    and "client_quiet h (h\<lparr>mx_pings := y\<rparr>)"
    and "client_quiet h (h\<lparr>mx_ws_open := b\<rparr>)"
    and "client_quiet h h"
  using assms
  by (intro quiet_local; simp add: client_good_def client_ids_def ready_inv_def mux_inv_def)+

lemma quiet_chans:
  assumes "client_good h"
  shows "client_quiet h (send_to_stream i p h)"
    and "client_quiet h (writer_next c h)"
    and "client_quiet h (drop_receiver c h)"
    and "client_quiet h (report_pong r now f h)"
    and "client_quiet h (h\<lparr>mx_ws_open := b\<rparr>)"
  using quiet_update [OF assms]
  by (simp_all add: send_to_stream_def writer_next_def drop_receiver_def report_pong_def Let_def
      split: option.split list.split)

lemma quiet_signal: "client_good h \<Longrightarrow> client_quiet h (signal_ready h)"
  by (rule quiet_local, simp, simp add: client_good_def signal_ready_def Let_def)
    (auto simp: client_good_def signal_ready_def Let_def client_ids_def ready_inv_def)

lemmas quiet_steps = quiet_ws_send quiet_close quiet_end_task quiet_chans quiet_signal

lemma quiet_pumps:
  assumes "client_good h"
  shows "TcpReader i \<in> set (mx_tasks h) \<Longrightarrow> client_quiet h (tcp_read ze i chunk h)"
    and "TcpReader i \<in> set (mx_tasks h) \<Longrightarrow> client_quiet h (tcp_reader_end i h)"
    and "client_quiet h (tcp_writer_end i c h)"
    and "client_quiet h (keepalive now h)"
    and "client_quiet h (answer_ping f h)"
proof -
  note trans = quiet_trans [OF assms] and good = client_quiet_good [OF assms]
  assume "TcpReader i \<in> set (mx_tasks h)"
  then have ids: "i \<in> client_ids h" by (simp add: client_ids_def)
  then show "client_quiet h (tcp_read ze i chunk h)"
    unfolding tcp_read_def by (intro quiet_ws_send assms) simp_all
  have "client_quiet h (ws_send (WsBinary (encode_frame FRAME_CLOSE i [])) h)"
    using ids by (intro quiet_ws_send assms) simp_all
  then show "client_quiet h (tcp_reader_end i h)"
    unfolding tcp_reader_end_def by (meson trans good quiet_close quiet_end_task)
next
  show "client_quiet h (tcp_writer_end i c h)"
    unfolding tcp_writer_end_def
    by (meson assms client_quiet_good quiet_trans quiet_close quiet_end_task quiet_chans(3))
  have ping: "client_quiet h (ws_send (WsBinary (encode_frame FRAME_PING 0 (to_be now))) h)"
    by (intro quiet_ws_send assms) simp_all
  show "client_quiet h (keepalive now h)"
    unfolding keepalive_def
    by (rule quiet_trans [OF assms ping], rule quiet_ws_send)
      (use client_quiet_good [OF assms ping] in simp_all)
  show "client_quiet h (answer_ping f h)"
    unfolding answer_ping_def by (intro quiet_ws_send assms) simp_all
qed

lemma quiet_frame: "client_good h \<Longrightarrow> client_quiet h (client_frame reporting now f h)"
  using quiet_chans quiet_signal quiet_close quiet_pumps(5) quiet_update(4)
  by (simp add: client_frame_def)

lemma quiet_message:
  "client_message zd reporting now m h = Inr (c, h') \<Longrightarrow> client_good h \<Longrightarrow> client_quiet h h'"
  by (cases m) (auto simp: and_then_eq_Inr quiet_frame quiet_update(4) intro!: quiet_ws_send)

lemma good_accept:
  assumes "client_good h"
  shows "client_good (client_accept h)"
proof (cases "cm_accept_alive h \<and> cm_accepting h = None")
  case alive: True
  from assms have inv: "mux_inv h" "client_inv h" "ready_inv h" by (simp_all add: client_good_def)
  from assms alive obtain n where n: "frame_ids FRAME_OPEN (mx_ws h) = map word_of_nat [1..<Suc n]"
    and c: "cm_counter h = word_of_nat (Suc n)"
    by (auto simp: client_good_def counter_inv_def)
  let ?h = "client_accept h"
  have "mux_inv ?h"
    using inv by (simp add: client_accept_def Let_def)
  moreover have "ready_inv ?h"
    using inv by (simp add: client_accept_def Let_def ready_inv_def ws_send_def)
  ultimately have inv': "mux_inv ?h" "ready_inv ?h" by simp_all
  show ?thesis
  proof (cases "mx_ws_open h")
    case True
    have ws: "mx_ws ?h = mx_ws h @ [WsBinary (encode_frame FRAME_OPEN (word_of_nat (Suc n)) [])]"
      using alive True c by (simp add: client_accept_def Let_def ws_send_def)
    have "frame_ids FRAME_OPEN (mx_ws ?h) = map word_of_nat ([1..<Suc n] @ [Suc n])"
      by (simp only: ws n frame_ids_append map_append frame_ids_Cons frame_id_of_encode) simp
    also have "[1..<Suc n] @ [Suc n] = [1..<Suc (Suc n)]" by simp
    finally have "frame_ids FRAME_OPEN (mx_ws ?h) = map word_of_nat [1..<Suc (Suc n)]" .
    moreover have "cm_counter ?h = word_of_nat (Suc n) + 1"
      using alive True c by (simp only: client_accept_def Let_def ws_send_def) simp
    then have "cm_counter ?h = word_of_nat (Suc (Suc n))"
      by (simp only: of_nat_Suc [of "Suc n"] add.commute)
    ultimately have "counter_inv ?h" unfolding counter_inv_def by blast
    moreover have "client_ids ?h = insert (word_of_nat (Suc n)) (client_ids h)"
      using alive True c by (simp add: client_accept_def Let_def ws_send_def client_ids_def)
    then have "client_inv ?h"
      using inv(2) by (auto simp: client_inv_def ws opened_first_append)
    ultimately show ?thesis using inv' by (simp add: client_good_def)
  next
    case False
    then have h: "?h = h\<lparr>cm_counter := cm_counter h + 1, cm_accept_alive := False\<rparr>"
      using alive by (simp add: client_accept_def Let_def)
    have "client_inv ?h" "counter_inv ?h"
      using inv(2) n by (auto simp: h client_inv_def client_ids_def counter_inv_def)
    with inv' show ?thesis by (simp add: client_good_def)
  qed
next
  case False
  then have "client_accept h = h" by (auto simp: client_accept_def)
  with assms show ?thesis by simp
qed

lemma good_register:
  assumes "client_good h"
  shows "client_good (client_register h)"
proof (cases "cm_accepting h")
  case (Some sid)
  have "mux_inv (client_register h)"
    using assms by (simp add: client_register_def Some mux_inv_open client_good_def)
  moreover have "client_ids (client_register h) \<subseteq> client_ids h"
    by (auto simp: client_register_def Some open_stream_def Let_def client_ids_def)
  ultimately show ?thesis
    using assms
    by (auto simp: client_good_def client_inv_def counter_inv_def ready_inv_def client_register_def
        Some open_stream_def Let_def)
qed (use assms in \<open>simp add: client_register_def\<close>)

lemma client_task_good: "client_task h h' \<Longrightarrow> client_good h \<Longrightarrow> client_good h'"
  by (induction rule: client_task.induct)
    (auto intro: client_quiet_good quiet_pumps quiet_chans good_accept good_register)

lemma client_step_good:
  "client_step ze zd reporting h h' \<Longrightarrow> client_good h \<Longrightarrow> client_good h'"
  by (induction rule: client_step.induct)
    (auto intro: client_quiet_good quiet_message quiet_pumps client_task_good simp: reads_chunk_def)

lemma client_reachable_good:
  "client_reachable ze zd reporting pending h \<Longrightarrow> client_good h"
proof (induction rule: client_reachable.induct)
  case cr_init
  have "frame_ids FRAME_OPEN [] = map word_of_nat [1..<Suc 0]" by simp
  then show ?case
    by (auto simp: client_good_def mux_inv_def client_inv_def client_ids_def counter_inv_def
        ready_inv_def empty_client_def empty_mux_def mux.defs intro!: exI [of _ 0])
qed (rule client_step_good)

section \<open>Properties\<close>

text \<open>A session that accepts one connection, to instantiate the properties below.\<close>

lemma sample_client:
  "client_reachable pair_encode pair_decode True True
     (tcp_read pair_encode 1 [7] (client_register (client_accept (empty_client True))))"
proof -
  have 1: "client_reachable pair_encode pair_decode True True
      (client_register (client_accept (empty_client True)))"
    by (rule cr_step [OF cr_step [OF cr_init cs_task [OF ct_accept]] cs_task [OF ct_register]])
  have "TcpReader 1 \<in> set (mx_tasks (client_register (client_accept (empty_client True))))"
    by (simp add: client_register_def client_accept_def empty_client_def empty_mux_def mux.defs
        Let_def ws_send_def open_stream_def)
  then have "client_step pair_encode pair_decode True
      (client_register (client_accept (empty_client True)))
      (tcp_read pair_encode 1 [7] (client_register (client_accept (empty_client True))))"
    by (intro cs_tcp_read) (simp add: reads_chunk_def TCP_CHUNK_SIZE_def)
  with 1 show ?thesis by (rule cr_step)
qed

text \<open>
  C8: whatever the relay sends and however the tasks interleave, a client session opens the
  streams 1, 2, 3, ... in this order, each once (modulo 2^64); stream 0 is never opened first.
\<close>

theorem client_opens_in_order:
  assumes "client_reachable ze zd reporting pending h"
  shows "\<exists>n. frame_ids FRAME_OPEN (mx_ws h) = map word_of_nat [1..<Suc n]"
  using client_reachable_good [OF assms] by (auto simp: client_good_def counter_inv_def)

theorem client_opens_in_order_witness:
  "\<exists>n. frame_ids FRAME_OPEN (mx_ws (tcp_read pair_encode 1 [7]
     (client_register (client_accept (empty_client True))))) = map word_of_nat [1..<Suc n]"
  by (rule client_opens_in_order [OF sample_client])

text \<open>
  C9: a client session never sends a DATA or CLOSE frame for a stream before the OPEN frame
  of that stream, and its stream table holds only streams it has opened, each with a channel
  of its own.
\<close>

theorem client_data_after_open:
  assumes "client_reachable ze zd reporting pending h"
  shows "opened_first {} (mx_ws h)
    \<and> dom (mx_streams h) \<subseteq> set (frame_ids FRAME_OPEN (mx_ws h)) \<and> mux_inv h"
  using client_reachable_good [OF assms]
  by (auto simp: client_good_def client_inv_def client_ids_def)

theorem client_data_after_open_witness:
  "opened_first {} (mx_ws (tcp_read pair_encode 1 [7]
     (client_register (client_accept (empty_client True)))))"
  using client_data_after_open [OF sample_client] by simp

text \<open>
  a client session fires the ready signal at most once, and only after a READY frame.
\<close>

theorem client_ready_once:
  assumes "client_reachable ze zd reporting pending h"
  shows "rm_ready_sent h = [] \<or> rm_ready_sent h = [Inr ()] \<and> rm_got_ready h"
  using client_reachable_good [OF assms] by (auto simp: client_good_def ready_inv_def)

theorem client_ready_once_witness:
  "rm_ready_sent (tcp_read pair_encode 1 [7]
     (client_register (client_accept (empty_client True)))) = []"
  using client_ready_once [OF sample_client]
  by (simp add: tcp_read_def client_register_def client_accept_def empty_client_def empty_mux_def
      mux.defs Let_def ws_send_def open_stream_def)

text \<open>The host's refusal of a stream, as the client handles it.\<close>

definition refuse_at_client :: "u64 \<Rightarrow> client_mux \<Rightarrow> client_mux" where
  "refuse_at_client sid h =
     client_frame True 0 \<lparr>fr_kind = FRAME_CLOSE, fr_stream_id = sid, fr_payload = []\<rparr>
       (client_frame True 0 \<lparr>fr_kind = FRAME_ERROR, fr_stream_id = sid, fr_payload = as_bytes ''refused''\<rparr> h)"

text \<open>
  if the host's refusal (ERROR and CLOSE) of a stream is handled after the OPEN frame was
  sent but before the accept loop has put the stream in the table, the stream stays open with
  both pumps running; handled afterwards, the refusal closes it.
\<close>

theorem early_refusal_lost:
  assumes "cm_accept_alive h" and "cm_accepting h = None" and "mx_ws_open h"
  shows "stream_open (client_register (refuse_at_client (cm_counter h) (client_accept h)))
           (cm_counter h)
    \<and> TcpReader (cm_counter h) \<in> set (mx_tasks
        (client_register (refuse_at_client (cm_counter h) (client_accept h))))
    \<and> \<not> stream_open (refuse_at_client (cm_counter h) (client_register (client_accept h)))
           (cm_counter h)"
  using assms
  by (simp add: refuse_at_client_def client_frame_def wire_consts client_accept_def
      client_register_def Let_def ws_send_def close_stream_def open_stream_def stream_open_def)

theorem early_refusal_lost_witness:
  "stream_open (client_register (refuse_at_client 1 (client_accept (empty_client True)))) 1"
  using early_refusal_lost [of "empty_client True"]
  by (simp add: empty_client_def empty_mux_def mux.defs)

section \<open>The UDP client delivers to the last sender\<close>

text \<open>What the game clients should receive: every payload goes to the last sender.\<close>

datatype udp_traffic = FromGame bytes sock_addr | FromHost bytes

fun expected_replies :: "sock_addr option \<Rightarrow> udp_traffic list \<Rightarrow> (sock_addr \<times> bytes) list" where
  "expected_replies prev [] = []"
| "expected_replies prev (FromGame d a # ts) = expected_replies (Some a) ts"
| "expected_replies prev (FromHost p # ts) =
     (case prev of Some a \<Rightarrow> [(a, p)] | None \<Rightarrow> []) @ expected_replies prev ts"

fun udp_event_of :: "zstd_encoder \<Rightarrow> udp_traffic \<Rightarrow> udp_event" where
  "udp_event_of ze (FromGame d a) = UdpFromGame d a"
| "udp_event_of ze (FromHost p) =
     UdpFromRelay 0 (WsBinary (encode_data_frame_maybe_compressed ze 0 p))"

lemma udp_run_replies:
  assumes "zstd_lossless ze zd" and "um_recv_alive h" and "mx_ws_open h"
  shows "\<exists>h'. udp_run zd reporting (map (udp_event_of ze) ts) h = Inr h'
    \<and> um_sent h' = um_sent h @ expected_replies (um_last_addr h) ts"
  using assms(2,3)
proof (induction ts arbitrary: h)
  case (Cons t ts)
  show ?case
  proof (cases t)
    case (FromGame d a)
    then show ?thesis
      using Cons.IH [of "udp_datagram d a h"] Cons.prems by (simp add: udp_datagram_def ws_send_def)
  next
    case (FromHost p)
    let ?f = "\<lparr>fr_kind = FRAME_DATA, fr_stream_id = 0, fr_payload = p\<rparr>"
    have "udp_frame reporting 0 ?f h =
        (case um_last_addr h of Some a \<Rightarrow> h\<lparr>um_sent := um_sent h @ [(a, p)]\<rparr> | None \<Rightarrow> h)"
      by (cases "um_last_addr h") (simp_all add: udp_frame_def wire_consts)
    then show ?thesis
      using Cons.IH [of "udp_frame reporting 0 ?f h"] Cons.prems
      by (cases "um_last_addr h") (simp_all add: FromHost decode_encode_data [OF assms(1)])
  qed
qed simp

text \<open>
  C30: in any interleaving of local datagrams and DATA frames of the host, the UDP client
  sends each payload to the sender of the latest local datagram, in order, and drops what
  arrives before the first one.
\<close>

theorem udp_replies_to_last_sender:
  assumes "zstd_lossless ze zd"
  shows "map_sum id um_sent (udp_run zd reporting (map (udp_event_of ze) ts) (empty_udp pending))
    = Inr (expected_replies None ts)"
  using udp_run_replies [OF assms, of "empty_udp pending" reporting ts]
  by (auto simp: empty_udp_def empty_mux_def mux.defs)

theorem udp_replies_to_last_sender_witness:
  "map_sum id um_sent (udp_run pair_decode True (map (udp_event_of pair_encode)
     [FromHost [1], FromGame [2] (SockV4 127 0 0 1 5), FromHost [3]]) (empty_udp True))
   = Inr [(SockV4 127 0 0 1 5, [3])]"
  using udp_replies_to_last_sender [OF pair_lossless, of True
      "[FromHost [1], FromGame [2] (SockV4 127 0 0 1 5), FromHost [3]]" True] by simp

end
