(* ===== verification/Wss_Link.thy ===== *)
theory Wss_Link
  imports Wss_Host Wss_Client
begin

text \<open>
  Host and client of one relay session together (\<open>wss_relay.rs\<close> on both ends, with a relay
  server that forwards binary messages in order): what the client's accept loop and pumps
  send, and what the host's reader loop makes of it; what the host's readers send back, and
  what the client's reader loop and writers make of it; the keepalive round trip; and what a
  host that kept its session does with the frames of a client that reconnected.
\<close>

section \<open>A client connection\<close>

text \<open>The chunks one accepted connection delivers to \<open>pump_reader_to_ws\<close>.\<close>

fun client_pump :: "zstd_encoder \<Rightarrow> u64 \<Rightarrow> bytes list \<Rightarrow> client_mux \<Rightarrow> client_mux" where
  "client_pump ze sid [] h = h"
| "client_pump ze sid (c # cs) h = client_pump ze sid cs (tcp_read ze sid c h)"

definition client_connection :: "zstd_encoder \<Rightarrow> bytes list \<Rightarrow> client_mux \<Rightarrow> client_mux" where
  "client_connection ze chunks h =
     client_pump ze (cm_counter h) chunks (client_register (client_accept h))"

lemma client_pump_ws:
  "mx_ws_open h \<Longrightarrow> mx_ws (client_pump ze sid cs h) = mx_ws h
     @ map (\<lambda>c. WsBinary (encode_data_frame_maybe_compressed ze sid c)) cs"
  by (induction cs arbitrary: h) (simp_all add: tcp_read_def ws_send_ws)

definition client_accepting :: "client_mux \<Rightarrow> bool" where
  "client_accepting h \<longleftrightarrow> cm_accept_alive h \<and> cm_accepting h = None \<and> mx_ws_open h"

lemma client_connection_ws:
  assumes "client_accepting h"
  shows "mx_ws (client_connection ze chunks h) = mx_ws h
    @ WsBinary (encode_frame FRAME_OPEN (cm_counter h) [])
      # map (\<lambda>c. WsBinary (encode_data_frame_maybe_compressed ze (cm_counter h) c)) chunks"
proof -
  let ?h = "client_register (client_accept h)"
  have "mx_ws_open ?h" "mx_ws ?h = mx_ws h @ [WsBinary (encode_frame FRAME_OPEN (cm_counter h) [])]"
    using assms
    by (simp_all add: client_accepting_def client_accept_def client_register_def Let_def
        ws_send_def open_stream_def)
  then show ?thesis by (simp add: client_connection_def client_pump_ws)
qed

text \<open>The relay server hands the messages to the host in the order they were sent.\<close>

definition relayed :: "os_answers \<Rightarrow> ws_msg list \<Rightarrow> (os_answers \<times> ws_msg) list" where
  "relayed os ms = map (Pair os) ms"

section \<open>The way back\<close>

text \<open>
  The host's TCP readers, one per stream, share the session's queue: each chunk is one turn of
  the loop of \<open>pump_reader_to_ws\<close> of its stream, in the order the readers are scheduled.
\<close>

fun host_reads :: "zstd_encoder \<Rightarrow> (u64 \<times> bytes) list \<Rightarrow> 'a mux_scheme \<Rightarrow> 'a mux_scheme" where
  "host_reads ze [] h = h"
| "host_reads ze ((sid, c) # xs) h = host_reads ze xs (tcp_read ze sid c h)"

lemma host_reads_ws:
  "mx_ws_open h \<Longrightarrow> mx_ws (host_reads ze xs h) = mx_ws h
     @ map (\<lambda>(sid, c). WsBinary (encode_data_frame_maybe_compressed ze sid c)) xs
   \<and> mx_ws_open (host_reads ze xs h)"
  by (induction ze xs h rule: host_reads.induct) (simp_all add: tcp_read_def ws_send_ws)

text \<open>
  A schedule of the client: a turn of the writer task of a channel (\<open>pump_channel_to_writer\<close>),
  or a message for the reader loop.
\<close>

datatype client_event = Writer nat | Incoming u64 ws_msg

fun client_sched ::
  "zstd_decoder \<Rightarrow> bool \<Rightarrow> client_event list \<Rightarrow> client_mux \<Rightarrow> anyhow + client_mux" where
  "client_sched zd reporting [] h = Inr h"
| "client_sched zd reporting (Writer c # es) h = client_sched zd reporting es (writer_next c h)"
| "client_sched zd reporting (Incoming now m # es) h =
     and_then (client_message zd reporting now m h) (\<lambda>(continue, h').
       if continue then client_sched zd reporting es h' else Inr h')"

fun incoming :: "client_event list \<Rightarrow> ws_msg list" where
  "incoming [] = []"
| "incoming (Writer c # es) = incoming es"
| "incoming (Incoming now m # es) = m # incoming es"

text \<open>What has gone through a channel: written to the socket, then still queued.\<close>

definition channel_bytes :: "'a mux_scheme \<Rightarrow> nat \<Rightarrow> bytes list" where
  "channel_bytes h c = ch_written (mx_chans h ! c) @ ch_queue (mx_chans h ! c)"

lemma writer_next_keeps [simp]:
  "mx_streams (writer_next d h) = mx_streams h"
  "length (mx_chans (writer_next d h)) = length (mx_chans h)"
  by (simp_all add: writer_next_def split: list.split)

lemma writer_next_channel:
  "c < length (mx_chans h) \<Longrightarrow> channel_bytes (writer_next d h) c = channel_bytes h c
     \<and> ch_alive (mx_chans (writer_next d h) ! c) = ch_alive (mx_chans h ! c)"
  by (cases "d = c") (auto simp: writer_next_def channel_bytes_def split: list.split)

lemma usable_channel:
  "stream_usable h j \<Longrightarrow> mx_streams h j = Some c \<Longrightarrow> c < length (mx_chans h)"
  by (simp add: stream_usable_def mux_inv_def)

lemma stream_usable_writer:
  assumes "stream_usable h j"
  shows "stream_usable (writer_next d h) j"
proof -
  obtain c where c: "mx_streams h j = Some c"
    using assms by (auto simp: stream_usable_def stream_open_def)
  show ?thesis
    using assms writer_next_channel [OF usable_channel [OF assms c], of d] c
    by (simp add: stream_usable_def stream_open_def stream_ready_def)
qed

lemma channel_bytes_send:
  assumes "stream_usable h j" and "mx_streams h j = Some c"
  shows "channel_bytes (send_to_stream i p h) c = channel_bytes h c @ (if i = j then [p] else [])"
proof (cases "mx_streams h i")
  case None
  then show ?thesis using assms by (auto simp: send_to_stream_other)
next
  case (Some d)
  have "d = c \<longleftrightarrow> i = j" using Some assms by (auto simp: stream_usable_def mux_inv_def)
  then show ?thesis
    using assms usable_channel [OF assms]
    by (auto simp: send_to_stream_some [OF Some] channel_bytes_def stream_usable_def
        stream_ready_def nth_list_update)
qed

lemma client_message_data:
  assumes "zstd_lossless ze zd"
  shows "client_message zd reporting now (WsBinary (encode_data_frame_maybe_compressed ze i p)) h =
    Inr (True, send_to_stream i p h)"
  by (simp add: decode_encode_data [OF assms] client_frame_def) (simp add: wire_consts)

lemma client_message_close:
  "client_message zd reporting now (WsBinary (encode_frame FRAME_CLOSE i [])) h =
    Inr (True, close_stream i h)"
  by (simp add: decode_encode_frame client_frame_def) (simp add: wire_consts)

lemma client_sched_writers:
  "incoming es = [] \<Longrightarrow> c < length (mx_chans h) \<Longrightarrow>
     \<exists>h'. client_sched zd reporting es h = Inr h' \<and> mx_streams h' = mx_streams h
       \<and> channel_bytes h' c = channel_bytes h c"
  by (induction zd reporting es h rule: client_sched.induct) (auto simp: writer_next_channel)

lemma client_sched_stream:
  assumes "zstd_lossless ze zd"
  shows "stream_usable h j \<Longrightarrow> mx_streams h j = Some c \<Longrightarrow>
     incoming es = map (\<lambda>(i, p). WsBinary (encode_data_frame_maybe_compressed ze i p)) xs
       @ [WsBinary (encode_frame FRAME_CLOSE j [])] \<Longrightarrow>
     \<exists>h'. client_sched zd reporting es h = Inr h'
       \<and> mx_streams h' = (mx_streams h)(j := None)
       \<and> channel_bytes h' c = channel_bytes h c @ map snd (filter (\<lambda>(i, p). i = j) xs)"
proof (induction es arbitrary: h xs)
  case (Cons e es)
  note c = usable_channel [OF Cons.prems(1,2)]
  show ?case
  proof (cases e)
    case (Writer d)
    then show ?thesis
      using Cons.IH [OF stream_usable_writer [OF Cons.prems(1)], of d xs] Cons.prems
        writer_next_channel [OF c] by simp
  next
    case (Incoming now m)
    show ?thesis
    proof (cases xs)
      case Nil
      then show ?thesis
        using Cons.prems(3) Incoming client_sched_writers [of es c "close_stream j h" zd reporting] c
        by (auto simp: client_message_close close_stream_def channel_bytes_def fun_upd_def
            simp del: client_message.simps)
    next
      case (Cons x ys)
      obtain i p where x: "x = (i, p)" by (cases x)
      have "incoming es = map (\<lambda>(i, p). WsBinary (encode_data_frame_maybe_compressed ze i p)) ys
          @ [WsBinary (encode_frame FRAME_CLOSE j [])]"
        using Cons.prems(3) Incoming Cons x by simp
      from Cons.IH [OF stream_usable_send [OF Cons.prems(1)] _ this, of i p]
      show ?thesis
        using Cons.prems Incoming Cons x channel_bytes_send [OF Cons.prems(1,2), of i p]
        by (auto simp: client_message_data [OF assms] mx_streams_send
            simp del: client_message.simps)
    qed
  qed
qed simp

section \<open>Properties\<close>

text \<open>
  the bytes a game writes to the client's local port arrive, in order and complete, in
  the queue of the host's connection to the game server: the messages of a fresh connection,
  handled by a host that does not know its stream id, leave exactly the chunks in the queue.
\<close>

theorem client_to_host_stream:
  assumes "zstd_lossless ze zd" and "client_accepting cl" and "mux_inv h"
    and "mx_streams h (cm_counter cl) = None" and "os_tcp_connect os = Inr ()"
  shows "\<exists>h'. host_run zd port reporting
      (relayed os (drop (length (mx_ws cl)) (mx_ws (client_connection ze chunks cl)))) h = Inr h'
    \<and> stream_queue h' (cm_counter cl) = chunks"
proof -
  let ?i = "cm_counter cl"
  have "os_open_result [] os = Inr ()" using assms(5) by (simp add: os_open_result_def)
  from host_run_open [OF this assms(4)]
  have "host_run zd port reporting
      (relayed os (drop (length (mx_ws cl)) (mx_ws (client_connection ze chunks cl)))) h =
    host_run zd port reporting (map (\<lambda>(os, j, d). (os, WsBinary
      (encode_data_frame_maybe_compressed ze j d))) (map (\<lambda>c. (os, ?i, c)) chunks))
      (open_stream ?i False h)"
    by (simp add: client_connection_ws [OF assms(2)] relayed_def comp_def)
  moreover have "stream_usable (open_stream ?i False h) ?i"
    using assms(3) by (simp add: stream_usable_open)
  note host_run_data [OF assms(1) this, of port reporting "map (\<lambda>c. (os, ?i, c)) chunks"]
  ultimately show ?thesis
    using mux_table.queue_opn [OF assms(3), where i = ?i and j = ?i and udp = False]
    by (auto simp: filter_map comp_def)
qed

theorem client_to_host_stream_witness:
  "\<exists>h'. host_run pair_decode 25565 True (relayed sample_os (drop 0
      (mx_ws (client_connection pair_encode [[1, 2], replicate 90 3] (empty_client True))))) empty_mux
      = Inr h' \<and> stream_queue h' 1 = [[1, 2], replicate 90 3]"
  using client_to_host_stream [OF pair_lossless, of "empty_client True" empty_mux sample_os
      25565 True "[[1, 2], replicate 90 3]"]
  by (simp add: empty_mux_inv client_accepting_def sample_os_def)

text \<open>
  C4: the bytes the game server sends back reach the game, in order and complete, even when the
  server closes at once. The host's readers of any number of streams interleave; the client
  handles their messages, then the CLOSE frame of stream \<open>j\<close>, with the turns of its writer tasks
  anywhere in between. The stream is forgotten, but what was written to the game's socket
  followed by what its writer still holds is what was there before and then exactly the chunks
  read for stream \<open>j\<close>.
\<close>

theorem host_to_client_stream:
  assumes "zstd_lossless ze zd" and "mx_ws_open h"
    and "stream_usable cl j" and "mx_streams cl j = Some c"
    and "incoming es = drop (length (mx_ws h)) (mx_ws (tcp_reader_end j (host_reads ze xs h)))"
  shows "\<exists>cl'. client_sched zd reporting es cl = Inr cl'
    \<and> mx_streams cl' = (mx_streams cl)(j := None)
    \<and> channel_bytes cl' c = channel_bytes cl c @ map snd (filter (\<lambda>(i, p). i = j) xs)"
proof (rule client_sched_stream [OF assms(1,3,4)])
  show "incoming es = map (\<lambda>(i, p). WsBinary (encode_data_frame_maybe_compressed ze i p)) xs
      @ [WsBinary (encode_frame FRAME_CLOSE j [])]"
    using host_reads_ws [OF assms(2), of ze xs] assms(5)
    by (simp add: tcp_reader_end_def end_task_def close_stream_def ws_send_ws)
qed

definition back_events :: "client_event list" where
  "back_events =
     [Incoming 0 (WsBinary (encode_data_frame_maybe_compressed pair_encode 1 [7])), Writer 0,
      Incoming 0 (WsBinary (encode_data_frame_maybe_compressed pair_encode 2 [8])),
      Incoming 0 (WsBinary (encode_data_frame_maybe_compressed pair_encode 1 (replicate 90 9))),
      Incoming 0 (WsBinary (encode_frame FRAME_CLOSE 1 [])), Writer 0]"

theorem host_to_client_stream_witness:
  "\<exists>cl'. client_sched pair_decode True back_events
        (open_stream 2 False (open_stream 1 False (empty_client True))) = Inr cl'
    \<and> mx_streams cl' = [2 \<mapsto> 1]
    \<and> channel_bytes cl' 0 = [[7], replicate 90 9]"
proof -
  let ?cl = "open_stream 2 False (open_stream 1 False (empty_client True))"
  have u: "stream_usable ?cl 1"
    by (intro stream_usable_open [OF _ disjI2] mux_inv_open stream_usable_open [OF _ disjI1])
      (simp_all add: mux_inv_def)
  have s: "mx_streams ?cl = [1 \<mapsto> 0, 2 \<mapsto> 1]" "channel_bytes ?cl 0 = []"
    by (simp_all add: open_stream_def new_channel_def Let_def channel_bytes_def nth_append)
  have i: "incoming back_events = drop (length (mx_ws empty_mux)) (mx_ws (tcp_reader_end 1
      (host_reads pair_encode [(1, [7]), (2, [8]), (1, replicate 90 9)] empty_mux)))"
    by (simp add: back_events_def tcp_reader_end_def end_task_def close_stream_def tcp_read_def
        ws_send_ws)
  show ?thesis
    using host_to_client_stream [OF pair_lossless _ u _ i, of 0 True] s
    by (auto simp: fun_eq_iff)
qed

text \<open>
  a keepalive probe comes back: the host's answer to the PING frame the client sent at
  time \<open>sent\<close> makes the client report the time elapsed, or 0 if its clock went back.
\<close>

theorem ping_round_trip:
  assumes "mx_ws_open h" and "mx_ws_open cl"
  shows "\<exists>h' pong. host_message zd port reporting os
        (WsBinary (encode_frame FRAME_PING 0 (to_be sent))) h = Inr (True, h')
    \<and> mx_ws h' = mx_ws h @ [WsBinary pong]
    \<and> (\<exists>cl'. client_message zd True now (WsBinary pong) cl = Inr (True, cl')
        \<and> mx_pings cl' = mx_pings cl @ [if sent \<le> now then now - sent else 0])"
proof (intro exI conjI)
  let ?pong = "encode_frame FRAME_PONG 0 (to_be sent)"
  show "host_message zd port reporting os (WsBinary (encode_frame FRAME_PING 0 (to_be sent))) h =
      Inr (True, ws_send (WsBinary ?pong) h)"
    by (simp add: host_message.simps handle_host_frame_def decode_encode_frame)
      (simp add: wire_consts answer_ping_def)
  show "mx_ws (ws_send (WsBinary ?pong) h) = mx_ws h @ [WsBinary ?pong]"
    using assms(1) by (simp add: ws_send_ws)
  show "client_message zd True now (WsBinary ?pong) cl = Inr (True,
      cl\<lparr>mx_pings := mx_pings cl @ [if sent \<le> now then now - sent else 0]\<rparr>)"
    by (simp add: decode_encode_frame client_frame_def)
      (simp add: wire_consts report_pong_def saturating_sub_def Let_def)
  show "mx_pings (cl\<lparr>mx_pings := mx_pings cl @ [if sent \<le> now then now - sent else 0]\<rparr>) =
      mx_pings cl @ [if sent \<le> now then now - sent else 0]"
    by simp
qed

theorem ping_round_trip_witness:
  "\<exists>h' pong. host_message Inr 0 True sample_os (WsBinary (encode_frame FRAME_PING 0
        (to_be (40 :: u64)))) empty_mux = Inr (True, h')
    \<and> mx_ws h' = [WsBinary pong]
    \<and> (\<exists>cl'. client_message Inr True 100 (WsBinary pong) (empty_client True) = Inr (True, cl')
        \<and> mx_pings cl' = [60])"
  using ping_round_trip [of empty_mux "empty_client True" Inr 0 True sample_os 40 100]
  by simp

text \<open>
  stream ids are not unique across the sessions of a client: they restart at 1 in every
  session. A host that still holds a stream of the id ignores the OPEN frame of the new
  connection and appends its bytes to the old connection's channel.
\<close>

theorem reconnect_joins_old_stream:
  assumes "zstd_lossless ze zd" and "stream_usable h 1"
  shows "\<exists>h'. host_run zd port reporting
      (relayed os (mx_ws (client_connection ze chunks (empty_client pending)))) h = Inr h'
    \<and> mx_streams h' 1 = mx_streams h 1
    \<and> stream_queue h' 1 = stream_queue h 1 @ chunks"
proof -
  have acc: "client_accepting (empty_client pending)" by (simp add: client_accepting_def)
  have "host_run zd port reporting
      (relayed os (mx_ws (client_connection ze chunks (empty_client pending)))) h =
    host_run zd port reporting (map (\<lambda>(os, j, d). (os, WsBinary
      (encode_data_frame_maybe_compressed ze j d))) (map (\<lambda>c. (os, 1, c)) chunks)) h"
    using assms(2)
    by (simp add: client_connection_ws [OF acc] relayed_def comp_def host_message_open
        host_open_known stream_usable_def stream_open_def)
  with host_run_data [OF assms, of port reporting "map (\<lambda>c. (os, 1, c)) chunks"]
  show ?thesis by (auto simp: filter_map comp_def)
qed

theorem reconnect_joins_old_stream_witness:
  "\<exists>h'. host_run pair_decode 25565 True (relayed sample_os
      (mx_ws (client_connection pair_encode [[1]] (empty_client False)))) (open_stream 1 False empty_mux)
      = Inr h' \<and> mx_streams h' 1 = Some 0 \<and> stream_queue h' 1 = [[1]]"
proof -
  have "stream_usable (open_stream 1 False empty_mux) 1"
    by (simp add: stream_usable_open empty_mux_inv)
  from reconnect_joins_old_stream [OF pair_lossless this, of 25565 True sample_os "[[1]]" False]
  show ?thesis
    by (simp add: stream_queue_def open_stream_def new_channel_def Let_def)
qed

end
