(* ===== verification/Wss_Contents.thy ===== *)
theory Wss_Contents
  imports Wss_Link "HOL-Library.Sublist"
begin

text \<open>
  What the channels of a session hold, compared with the data frames sent to their streams: the
  data of a stream in a log of messages, and the bookkeeping of streams, channels and writer
  tasks as a contract that both ends keep.
\<close>

section \<open>The data of a stream in a log of messages\<close>

definition payload_of :: "zstd_decoder \<Rightarrow> u64 \<Rightarrow> ws_msg \<Rightarrow> bytes list" where
  "payload_of zd i m =
     (case m of
        WsBinary d \<Rightarrow>
          (case decode_frame zd d of
             Inr f \<Rightarrow> if fr_kind f = FRAME_DATA \<and> fr_stream_id f = i then [fr_payload f] else []
           | Inl _ \<Rightarrow> [])
      | _ \<Rightarrow> [])"

definition data_of :: "zstd_decoder \<Rightarrow> ws_msg list \<Rightarrow> u64 \<Rightarrow> bytes list" where
  "data_of zd ms i = concat (map (payload_of zd i) ms)"

lemma data_of_simps [simp]:
  "data_of zd [] i = []" "data_of zd (m # ms) i = payload_of zd i m @ data_of zd ms i"
  "data_of zd (ms @ ns) i = data_of zd ms i @ data_of zd ns i"
  by (simp_all add: data_of_def)

lemma payload_of_simps [simp]:
  "payload_of zd i (WsText t) = []" "payload_of zd i (WsPing d) = []"
  "payload_of zd i (WsPong d) = []" "payload_of zd i WsClose = []" "payload_of zd i WsRaw = []"
  by (simp_all add: payload_of_def)

lemma payload_of_frame:
  "k \<noteq> FRAME_DATA \<Longrightarrow> k \<noteq> FRAME_DATA_ZSTD \<Longrightarrow> payload_of zd i (WsBinary (encode_frame k j p)) = []"
  by (simp add: payload_of_def decode_encode_frame)

lemma payload_of_control [simp]:
  "payload_of zd i (WsBinary (encode_frame FRAME_OPEN j p)) = []"
  "payload_of zd i (WsBinary (encode_frame FRAME_CLOSE j p)) = []"
  "payload_of zd i (WsBinary (encode_frame FRAME_HELLO j p)) = []"
  "payload_of zd i (WsBinary (encode_frame FRAME_READY j p)) = []"
  "payload_of zd i (WsBinary (encode_frame FRAME_ERROR j p)) = []"
  "payload_of zd i (WsBinary (encode_frame FRAME_PING j p)) = []"
  "payload_of zd i (WsBinary (encode_frame FRAME_PONG j p)) = []"
  by (rule payload_of_frame; simp add: wire_consts)+

lemma payload_of_data:
  "zstd_lossless ze zd \<Longrightarrow>
     payload_of zd i (WsBinary (encode_data_frame_maybe_compressed ze j p)) = (if i = j then [p] else [])"
  by (simp add: payload_of_def decode_encode_data)

section \<open>What the channels of one end hold\<close>

text \<open>
  Both ends keep the same bookkeeping between a stream, its channel and its writer task, and
  differ in how much of the data sent to a stream its channel has seen: the host's all of
  it, the client's all since the stream was registered. \<open>whole\<close> relates the contents of the
  channel of an open stream to the data sent, \<open>part\<close> those of a channel whose stream may be
  closed already.
\<close>

locale channel_contents =
  fixes whole :: "bytes list \<Rightarrow> bytes list \<Rightarrow> bool"
    and part :: "bytes list \<Rightarrow> bytes list \<Rightarrow> bool"
  assumes whole_part: "whole b d \<Longrightarrow> part b d"
    and whole_snoc: "whole b d \<Longrightarrow> whole (b @ [p]) (d @ [p])"
    and part_snoc: "part b d \<Longrightarrow> part b (d @ [p])"
begin

definition contents :: "(u64 \<Rightarrow> bytes list) \<Rightarrow> 'a mux_scheme \<Rightarrow> bool" where
  "contents sent h \<longleftrightarrow>
     (\<forall>i c. mx_streams h i = Some c \<longrightarrow> TcpWriter i c \<in> set (mx_tasks h)
        \<and> ch_alive (mx_chans h ! c) \<and> whole (channel_bytes h c) (sent i)) \<and>
     (\<forall>i c. TcpWriter i c \<in> set (mx_tasks h) \<longrightarrow>
        c < length (mx_chans h) \<and> part (channel_bytes h c) (sent i)) \<and>
     (\<forall>i j c. TcpWriter i c \<in> set (mx_tasks h) \<longrightarrow> TcpWriter j c \<in> set (mx_tasks h) \<longrightarrow> i = j) \<and>
     (\<forall>i. UdpReader i \<notin> set (mx_tasks h)) \<and> (\<forall>c. UdpWriter c \<notin> set (mx_tasks h))"

lemma contents_cong:
  assumes "mx_streams h' = mx_streams h" "mx_chans h' = mx_chans h" "mx_tasks h' = mx_tasks h"
  shows "contents sent h' \<longleftrightarrow> contents sent h"
  by (simp add: contents_def channel_bytes_def assms)

lemma contents_same [simp]:
  "contents sent (ws_send m h) \<longleftrightarrow> contents sent h"
  "contents sent (h\<lparr>mx_ws_open := b\<rparr>) \<longleftrightarrow> contents sent h"
  "contents sent (h\<lparr>mx_pings := ps\<rparr>) \<longleftrightarrow> contents sent h"
  by (rule contents_cong; simp)+

lemma contents_stream:
  "contents sent h \<Longrightarrow> mx_streams h i = Some c \<Longrightarrow> TcpWriter i c \<in> set (mx_tasks h)
     \<and> ch_alive (mx_chans h ! c) \<and> whole (channel_bytes h c) (sent i)"
  by (simp add: contents_def)

lemma contents_writer:
  "contents sent h \<Longrightarrow> TcpWriter i c \<in> set (mx_tasks h) \<Longrightarrow>
     c < length (mx_chans h) \<and> part (channel_bytes h c) (sent i)"
  by (simp add: contents_def)

lemma contents_unique:
  "contents sent h \<Longrightarrow> TcpWriter i c \<in> set (mx_tasks h) \<Longrightarrow> TcpWriter j c \<in> set (mx_tasks h) \<Longrightarrow> i = j"
  by (simp add: contents_def)

lemma contents_udp:
  "contents sent h \<Longrightarrow> UdpReader i \<notin> set (mx_tasks h) \<and> UdpWriter c \<notin> set (mx_tasks h)"
  by (simp add: contents_def)

lemma contents_open:
  assumes "contents sent h" and "whole [] (sent i)"
  shows "contents sent (open_stream i False h)"
proof -
  let ?n = "length (mx_chans h)" and ?h = "open_stream i False h"
  have new: "channel_bytes ?h ?n = []" "ch_alive (mx_chans ?h ! ?n)" "mx_streams ?h i = Some ?n"
    by (simp_all add: open_stream_def new_channel_def Let_def channel_bytes_def)
  have old: "channel_bytes ?h c = channel_bytes h c" "mx_chans ?h ! c = mx_chans h ! c" if "c < ?n" for c
    using that by (simp_all add: open_stream_def Let_def channel_bytes_def nth_append)
  have other: "mx_streams ?h j = mx_streams h j" if "j \<noteq> i" for j
    using that by (simp add: open_stream_def Let_def)
  have tasks: "set (mx_tasks ?h) = set (mx_tasks h) \<union> {TcpWriter i ?n, TcpReader i}"
    and len: "length (mx_chans ?h) = Suc ?n"
    by (auto simp: open_stream_def Let_def)
  have fresh: "TcpWriter j c \<in> set (mx_tasks h) \<Longrightarrow> c < ?n" for j c
    using contents_writer [OF assms(1)] by blast
  show ?thesis
    unfolding contents_def
  proof (intro conjI allI impI)
    fix j c assume j: "mx_streams ?h j = Some c"
    show "TcpWriter j c \<in> set (mx_tasks ?h)" "ch_alive (mx_chans ?h ! c)"
      "whole (channel_bytes ?h c) (sent j)"
      using j new old fresh assms(2) contents_stream [OF assms(1), of j c] other [of j]
      by (cases "j = i"; auto simp: tasks)+
  next
    fix j c assume "TcpWriter j c \<in> set (mx_tasks ?h)"
    then show "c < length (mx_chans ?h)" "part (channel_bytes ?h c) (sent j)"
      using new old fresh contents_writer [OF assms(1), of j c] whole_part [OF assms(2)]
      by (auto simp: tasks len intro: less_SucI)
  next
    fix j k c assume "TcpWriter j c \<in> set (mx_tasks ?h)" "TcpWriter k c \<in> set (mx_tasks ?h)"
    then show "j = k" using fresh contents_unique [OF assms(1)] by (auto simp: tasks)
  qed (use contents_udp [OF assms(1)] in \<open>auto simp: tasks\<close>)
qed

lemma contents_close: "contents sent h \<Longrightarrow> contents sent (close_stream i h)"
  by (auto simp: contents_def close_stream_def channel_bytes_def)

lemma contents_end_reader: "contents sent h \<Longrightarrow> contents sent (end_task (TcpReader i) h)"
  by (auto simp: contents_def end_task_def channel_bytes_def in_set_remove1 dest: notin_set_remove1)

lemma contents_reader_end: "contents sent h \<Longrightarrow> contents sent (tcp_reader_end i h)"
  by (simp add: tcp_reader_end_def contents_end_reader contents_close)

text \<open>A change of the channels that keeps what they have seen.\<close>

lemma contents_chans:
  assumes "contents sent h" and "mx_streams h' = mx_streams h" and "mx_tasks h' = mx_tasks h"
    and "length (mx_chans h') = length (mx_chans h)"
    and "\<And>c. c < length (mx_chans h) \<Longrightarrow> channel_bytes h' c = channel_bytes h c
      \<and> ch_alive (mx_chans h' ! c) = ch_alive (mx_chans h ! c)"
  shows "contents sent h'"
proof -
  have "c < length (mx_chans h)" if "mx_streams h i = Some c" for i c
    using that contents_stream [OF assms(1)] contents_writer [OF assms(1)] by blast
  then show ?thesis
    using assms unfolding contents_def by auto
qed

lemma contents_writer_next: "contents sent h \<Longrightarrow> contents sent (writer_next c h)"
  by (rule contents_chans [where h = h])
    (simp_all add: writer_next_channel, simp add: writer_next_def split: list.split)

lemma contents_writer_end:
  assumes "contents sent h" and "TcpWriter i c \<in> set (mx_tasks h)"
  shows "contents sent (tcp_writer_end i c h)"
proof -
  let ?h = "tcp_writer_end i c h"
  have bytes: "channel_bytes ?h d = channel_bytes h d" if "d < length (mx_chans h)" for d
    using that by (cases "d = c") (simp_all add: tcp_writer_end_def end_task_def drop_receiver_def
        close_stream_def channel_bytes_def)
  have tasks: "set (mx_tasks ?h) \<subseteq> set (mx_tasks h)" "length (mx_chans ?h) = length (mx_chans h)"
    using set_remove1_subset [of "TcpWriter i c" "mx_tasks h"]
    by (auto simp: tcp_writer_end_def end_task_def drop_receiver_def close_stream_def)
  have stream: "TcpWriter j d \<in> set (mx_tasks ?h) \<and> ch_alive (mx_chans ?h ! d)
      \<and> mx_streams h j = Some d" if "mx_streams ?h j = Some d" for j d
  proof -
    have j: "j \<noteq> i" "mx_streams h j = Some d"
      using that by (auto simp: tcp_writer_end_def end_task_def drop_receiver_def close_stream_def
          split: if_splits)
    from contents_stream [OF assms(1) j(2)] have t: "TcpWriter j d \<in> set (mx_tasks h)"
      "ch_alive (mx_chans h ! d)" by auto
    have "d \<noteq> c" using contents_unique [OF assms(1) t(1)] assms(2) j(1) by auto
    then show ?thesis
      using t j by (simp add: tcp_writer_end_def end_task_def drop_receiver_def close_stream_def
          in_set_remove1)
  qed
  show ?thesis
    unfolding contents_def
  proof (intro conjI allI impI)
    fix j d assume j: "mx_streams ?h j = Some d"
    note s = stream [OF j]
    from s show "TcpWriter j d \<in> set (mx_tasks ?h)" "ch_alive (mx_chans ?h ! d)" by simp_all
    from s have h: "mx_streams h j = Some d" by simp
    with contents_stream [OF assms(1) h] contents_writer [OF assms(1), of j d]
    show "whole (channel_bytes ?h d) (sent j)" by (simp add: bytes)
  next
    fix j d assume "TcpWriter j d \<in> set (mx_tasks ?h)"
    then show "d < length (mx_chans ?h)" "part (channel_bytes ?h d) (sent j)"
      using tasks contents_writer [OF assms(1), of j d] by (auto simp: bytes)
  next
    fix j k d assume "TcpWriter j d \<in> set (mx_tasks ?h)" "TcpWriter k d \<in> set (mx_tasks ?h)"
    then show "j = k" using tasks contents_unique [OF assms(1)] by blast
  qed (use tasks contents_udp [OF assms(1)] in auto)
qed

lemma contents_deliver:
  assumes "contents sent h"
  shows "contents (sent(i := sent i @ [p])) (send_to_stream i p h)"
proof (cases "mx_streams h i")
  case None
  then show ?thesis
    using assms part_snoc by (auto simp: send_to_stream_other contents_def)
next
  case (Some c)
  have i: "TcpWriter i c \<in> set (mx_tasks h)" "ch_alive (mx_chans h ! c)" "c < length (mx_chans h)"
    "whole (channel_bytes h c) (sent i)"
    using contents_stream [OF assms Some] contents_writer [OF assms] by auto
  let ?h = "send_to_stream i p h"
  have bytes: "channel_bytes ?h d = channel_bytes h d @ (if d = c then [p] else [])"
    and alive: "ch_alive (mx_chans ?h ! d) = ch_alive (mx_chans h ! d)"
    if "d < length (mx_chans h)" for d
    using that i by (cases "d = c"; simp add: send_to_stream_some [OF Some] channel_bytes_def)+
  have same: "mx_streams ?h = mx_streams h" "mx_tasks ?h = mx_tasks h"
    "length (mx_chans ?h) = length (mx_chans h)"
    by (simp_all add: send_to_stream_some [OF Some])
  have only: "TcpWriter j d \<in> set (mx_tasks h) \<Longrightarrow> d = c \<Longrightarrow> j = i" for j d
    using contents_unique [OF assms i(1)] by blast
  show ?thesis
    unfolding contents_def same
  proof (intro conjI allI impI)
    fix j d assume j: "mx_streams h j = Some d"
    from contents_stream [OF assms j] contents_writer [OF assms, of j d]
    have t: "TcpWriter j d \<in> set (mx_tasks h)" "ch_alive (mx_chans h ! d)"
      "whole (channel_bytes h d) (sent j)" "d < length (mx_chans h)" by auto
    then show "TcpWriter j d \<in> set (mx_tasks h)" "ch_alive (mx_chans ?h ! d)"
      by (simp_all add: alive)
    show "whole (channel_bytes ?h d) ((sent(i := sent i @ [p])) j)"
      using t only [OF t(1)] j Some whole_snoc by (auto simp: bytes)
  next
    fix j d assume t: "TcpWriter j d \<in> set (mx_tasks h)"
    from contents_writer [OF assms t] show "d < length (mx_chans h)" by simp
    then show "part (channel_bytes ?h d) ((sent(i := sent i @ [p])) j)"
      using contents_writer [OF assms t] only [OF t] i(4) whole_part whole_snoc part_snoc
      by (cases "d = c") (auto simp: bytes)
  next
    fix j k d assume "TcpWriter j d \<in> set (mx_tasks h)" "TcpWriter k d \<in> set (mx_tasks h)"
    then show "j = k" by (rule contents_unique [OF assms])
  qed (use contents_udp [OF assms] in auto)
qed

lemmas contents_steps = contents_close contents_reader_end contents_writer_next
  contents_writer_end contents_open

end

interpretation host_chans: channel_contents "(=)" prefix
  by unfold_locales auto

interpretation client_chans: channel_contents suffix sublist
proof (unfold_locales, goal_cases)
  case (3 b d p)
  then show ?case unfolding sublist_def by (metis append.assoc)
qed (simp_all add: suffix_imp_sublist)

end
