(* ===== verification/Wss_System.thy ===== *)
theory Wss_System
  imports Wss_Contents
begin

text \<open>
  A host session and a TCP client session of one relay room running together: the reader
  loops, accept loop, keepalives and pumps of both ends interleave freely, the relay server
  hands the binary messages of each end to the other in the order they were sent, and sends
  messages of its own that are not binary. The theory shows what such a system keeps of the
  bytes of every stream.
\<close>

section \<open>The two logs\<close>

definition is_binary :: "ws_msg \<Rightarrow> bool" where
  "is_binary m = (case m of WsBinary _ \<Rightarrow> True | _ \<Rightarrow> False)"

text \<open>
  What the relay hands on: of the host everything binary it sent, of the client the HELLO
  frame of its handshake before that.
\<close>

definition host_log :: "mux \<Rightarrow> ws_msg list" where
  "host_log h = filter is_binary (mx_ws h)"

definition client_log :: "client_mux \<Rightarrow> ws_msg list" where
  "client_log cl = WsBinary (encode_frame FRAME_HELLO 0 []) # filter is_binary (mx_ws cl)"

lemma data_of_binary [simp]: "data_of zd (filter is_binary ms) i = data_of zd ms i"
  by (induction ms) (auto simp: is_binary_def split: ws_msg.splits)

lemma frame_ids_binary [simp]: "frame_ids k (filter is_binary ms) = frame_ids k ms"
  by (induction ms) (auto simp: is_binary_def frame_id_of_def split: ws_msg.splits)

lemma opened_first_binary: "opened_first S (filter is_binary ms) = opened_first S ms"
  by (induction ms arbitrary: S)
    (auto simp: is_binary_def stream_ids_def frame_id_of_def split: ws_msg.splits)

text \<open>A client's OPEN frames have no payload, so they ask for TCP.\<close>

definition plain_opens :: "ws_msg list \<Rightarrow> bool" where
  "plain_opens ms \<longleftrightarrow>
     (\<forall>d. WsBinary d \<in> set ms \<longrightarrow> frame_id_of FRAME_OPEN (WsBinary d) \<noteq> [] \<longrightarrow> length d \<le> 9)"

text \<open>Every frame of a log can be decoded.\<close>

definition decodable :: "zstd_decoder \<Rightarrow> ws_msg list \<Rightarrow> bool" where
  "decodable zd ms \<longleftrightarrow> (\<forall>d. WsBinary d \<in> set ms \<longrightarrow> (\<exists>f. decode_frame zd d = Inr f))"

lemma decodable_simps [simp]:
  "decodable zd []" "decodable zd (ms @ ns) \<longleftrightarrow> decodable zd ms \<and> decodable zd ns"
  by (auto simp: decodable_def)

lemma decodable_binary [simp]: "decodable zd (filter is_binary ms) \<longleftrightarrow> decodable zd ms"
  by (auto simp: decodable_def is_binary_def)

lemma decodable_control:
  "decodable zd [WsPing d]" "decodable zd [WsPong d]"
  "k \<noteq> FRAME_DATA_ZSTD \<Longrightarrow> decodable zd [WsBinary (encode_frame k i p)]"
  by (simp_all add: decodable_def decode_encode_frame)

lemma decodable_data:
  "zstd_lossless ze zd \<Longrightarrow> decodable zd [WsBinary (encode_data_frame_maybe_compressed ze i p)]"
  by (simp add: decodable_def decode_encode_data)

definition log_ok :: "ws_msg list \<Rightarrow> bool" where
  "log_ok ms \<longleftrightarrow> opened_first {} ms \<and> plain_opens ms
     \<and> distinct (frame_ids FRAME_OPEN ms) \<and> 0 \<notin> set (frame_ids FRAME_OPEN ms)"

lemma log_ok_append: "log_ok (ms @ ns) \<Longrightarrow> log_ok ms"
  by (auto simp: log_ok_def plain_opens_def opened_first_append)

lemma decoded_data:
  assumes "decode_frame zd d = Inr f" and "fr_kind f = FRAME_DATA"
  shows "fr_stream_id f \<in> stream_ids (WsBinary d)"
proof -
  have "d \<noteq> []" "d ! 0 = FRAME_DATA \<or> d ! 0 = FRAME_DATA_ZSTD"
    "fr_stream_id f = from_be (take 8 (drop 1 d))"
    using assms by (auto simp: decode_frame_def Let_def and_then_eq_Inr split: if_splits)
  then show ?thesis by (auto simp: stream_ids_def frame_id_of_def)
qed

lemma decoded_open:
  assumes "decode_frame zd d = Inr f" and "fr_kind f = FRAME_OPEN"
  shows "frame_id_of FRAME_OPEN (WsBinary d) = [fr_stream_id f]" "fr_payload f = drop 9 d"
proof -
  have "d \<noteq> []" "d ! 0 = FRAME_OPEN" "fr_stream_id f = from_be (take 8 (drop 1 d))"
    "fr_payload f = drop 9 d"
    using assms data_kinds
    by (auto simp: decode_frame_def Let_def and_then_eq_Inr wire_consts split: if_splits)
  then show "frame_id_of FRAME_OPEN (WsBinary d) = [fr_stream_id f]" "fr_payload f = drop 9 d"
    by (simp_all add: frame_id_of_def)
qed

lemma opened_first_data:
  "opened_first S ms \<Longrightarrow> i \<notin> S \<Longrightarrow> i \<notin> set (frame_ids FRAME_OPEN ms) \<Longrightarrow> data_of zd ms i = []"
proof (induction ms arbitrary: S)
  case (Cons m ms)
  have "payload_of zd i m = []"
    using Cons.prems decoded_data
    by (fastforce simp: payload_of_def split: ws_msg.splits sum.splits)
  moreover have "data_of zd ms i = []"
    by (rule Cons.IH [of "S \<union> set (frame_id_of FRAME_OPEN m)"]) (use Cons.prems in auto)
  ultimately show ?case by simp
qed simp

section \<open>The host's side\<close>

definition host_tracks :: "zstd_decoder \<Rightarrow> ws_msg list \<Rightarrow> mux \<Rightarrow> bool" where
  "host_tracks zd handled h \<longleftrightarrow> host_chans.contents (data_of zd handled) h
     \<and> dom (mx_streams h) \<subseteq> set (frame_ids FRAME_OPEN handled)"

text \<open>The next message of the client's log.\<close>

lemma host_handles_frame:
  assumes "log_ok (handled @ [WsBinary d])" and "host_tracks zd handled h"
    and "handle_host_frame zd port reporting os d h = Inr h'"
  shows "host_tracks zd (handled @ [WsBinary d]) h'"
proof -
  let ?m = "WsBinary d" and ?D = "data_of zd handled"
  have cont: "host_chans.contents ?D h" and dom: "dom (mx_streams h) \<subseteq> set (frame_ids FRAME_OPEN handled)"
    using assms(2) by (simp_all add: host_tracks_def)
  obtain f where f: "decode_frame zd d = Inr f"
    using assms(3) by (auto simp: handle_host_frame_def and_then_eq_Inr)
  have D: "data_of zd (handled @ [?m]) = (if fr_kind f = FRAME_DATA
      then ?D(fr_stream_id f := ?D (fr_stream_id f) @ [fr_payload f]) else ?D)"
    by (auto simp: fun_eq_iff payload_of_def f)
  consider (opens) "fr_kind f = FRAME_OPEN" | (data) "fr_kind f = FRAME_DATA"
    | (other) "fr_kind f \<noteq> FRAME_OPEN" "fr_kind f \<noteq> FRAME_DATA" by blast
  then show ?thesis
  proof cases
    case opens
    let ?i = "fr_stream_id f"
    note o = decoded_open [OF f opens]
    have new: "?i \<notin> set (frame_ids FRAME_OPEN handled)" and p: "fr_payload f = []"
      using assms(1) o by (auto simp: log_ok_def plain_opens_def)
    have none: "mx_streams h ?i = None" using new dom by auto
    have "?D ?i = []"
      using opened_first_data [of "{}" handled] assms(1) new by (simp add: log_ok_def opened_first_append)
    then have "host_chans.contents ?D (open_stream ?i False h)"
      by (intro host_chans.contents_open cont) simp
    moreover have "h' = (case os_tcp_connect os of Inr _ \<Rightarrow> open_stream ?i False h
        | Inl e \<Rightarrow> refuse_stream ?i e h)"
      using assms(3) opens none p
      by (auto simp: handle_host_frame_def f host_open_def wire_consts Let_def split: sum.splits)
    moreover have "data_of zd (handled @ [?m]) = ?D" using D opens by (simp add: wire_consts)
    ultimately show ?thesis
      using cont dom o(1)
      by (auto simp: host_tracks_def refuse_stream_def open_stream_def Let_def split: sum.splits)
  next
    case data
    have opened: "fr_stream_id f \<in> set (frame_ids FRAME_OPEN handled)"
      using assms(1) decoded_data [OF f data] by (auto simp: log_ok_def opened_first_append)
    then have "fr_stream_id f \<noteq> 0" using assms(1) by (auto simp: log_ok_def)
    then have "h' = send_to_stream (fr_stream_id f) (fr_payload f) h"
      using assms(3) data
      by (auto simp: handle_host_frame_def f host_data_def send_to_stream_other Let_def split: if_splits)
    then show ?thesis
      using host_chans.contents_deliver [OF cont] dom data
      by (auto simp: host_tracks_def D mx_streams_send)
  next
    case other
    have "host_chans.contents ?D h' \<and> dom (mx_streams h') \<subseteq> dom (mx_streams h)"
      using assms(3) other cont host_chans.contents_close [OF cont]
      by (auto simp: handle_host_frame_def f answer_ping_def report_pong_def close_stream_def Let_def
          split: if_splits)
    moreover from this dom have "dom (mx_streams h') \<subseteq> set (frame_ids FRAME_OPEN handled)" by blast
    ultimately show ?thesis using other by (auto simp: host_tracks_def D)
  qed
qed

text \<open>Messages that carry no data, and steps that send only such messages.\<close>

definition silent :: "zstd_decoder \<Rightarrow> 'a mux_scheme \<Rightarrow> 'a mux_scheme \<Rightarrow> bool" where
  "silent zd h h' \<longleftrightarrow>
     (\<exists>ms. mx_ws h' = mx_ws h @ ms \<and> (\<forall>i. data_of zd ms i = []) \<and> plain_opens ms
        \<and> decodable zd ms)"

lemma plain_opens_simps [simp]:
  "plain_opens []" "plain_opens (ms @ ns) \<longleftrightarrow> plain_opens ms \<and> plain_opens ns"
  by (auto simp: plain_opens_def)

lemma silent_refl: "mx_ws h' = mx_ws h \<Longrightarrow> silent zd h h'"
  by (auto simp: silent_def)

lemma silent_trans: "silent zd h h1 \<Longrightarrow> silent zd h1 h2 \<Longrightarrow> silent zd h h2"
  by (fastforce simp: silent_def)

lemma silent_ws:
  assumes "silent zd h h1" and "mx_ws h2 = mx_ws h1"
  shows "silent zd h h2"
  using assms by (simp add: silent_def)

lemma silent_send:
  assumes "\<And>i. payload_of zd i m = []" and "plain_opens [m]" and "decodable zd [m]" and "silent zd h h1"
  shows "silent zd h (ws_send m h1)"
proof (rule silent_trans [OF assms(4)])
  show "silent zd h1 (ws_send m h1)"
    using assms(1-3) unfolding silent_def
    by (intro exI [of _ "if mx_ws_open h1 then [m] else []"]) (simp add: ws_send_ws)
qed

lemma plain_control:
  "plain_opens [WsPing d]" "plain_opens [WsPong d]"
  "plain_opens [WsBinary (encode_frame FRAME_OPEN i [])]"
  "k \<noteq> FRAME_OPEN \<Longrightarrow> plain_opens [WsBinary (encode_frame k i p)]"
  by (simp_all add: plain_opens_def)

lemma plain_data: "plain_opens [WsBinary (encode_data_frame_maybe_compressed ze i p)]"
  by (simp add: plain_opens_def)

lemma silent_frame:
  assumes "silent zd h h1" and "k \<in> {FRAME_CLOSE, FRAME_READY, FRAME_ERROR, FRAME_PING, FRAME_PONG}"
  shows "silent zd h (ws_send (WsBinary (encode_frame k i p)) h1)"
proof -
  have "k \<noteq> FRAME_DATA" "k \<noteq> FRAME_DATA_ZSTD" "k \<noteq> FRAME_OPEN"
    using assms(2) by (auto simp: wire_consts)
  then show ?thesis using assms(1) by (intro silent_send plain_control decodable_control payload_of_frame)
qed

lemma silent_control:
  "silent zd h h1 \<Longrightarrow> silent zd h (ws_send (WsPing d) h1)"
  "silent zd h h1 \<Longrightarrow> silent zd h (ws_send (WsPong d) h1)"
  "silent zd h h1 \<Longrightarrow> silent zd h (ws_send (WsBinary (encode_frame FRAME_OPEN i [])) h1)"
  by (intro silent_send plain_control decodable_control; simp)+

lemma silent_pumps:
  assumes "silent zd h h1"
  shows "silent zd h (keepalive now h1)" "silent zd h (answer_ping f h1)"
    "silent zd h (tcp_reader_end i h1)" "silent zd h (tcp_writer_end i c h1)"
    "silent zd h (refuse_stream i e h1)"
proof -
  show "silent zd h (keepalive now h1)" "silent zd h (answer_ping f h1)"
    "silent zd h (refuse_stream i e h1)"
    unfolding keepalive_def answer_ping_def refuse_stream_def
    by (intro silent_control silent_frame assms; simp)+
  show "silent zd h (tcp_reader_end i h1)"
    by (rule silent_ws [OF silent_frame [OF assms, of FRAME_CLOSE i "[]"]])
      (simp_all add: tcp_reader_end_def)
  show "silent zd h (tcp_writer_end i c h1)"
    by (rule silent_ws [OF assms]) (simp add: tcp_writer_end_def)
qed

lemma host_frame_silent:
  assumes "handle_host_frame zd port reporting os d h = Inr h'"
  shows "silent zd h h'"
  using assms silent_pumps(2,5) [OF silent_refl [of h h zd]]
    silent_frame [OF silent_refl [of h h zd], of FRAME_READY 0 "[]"]
  by (auto simp: handle_host_frame_def and_then_eq_Inr host_open_def host_data_def Let_def
      intro: silent_refl split: if_splits sum.splits)

lemma host_message_silent:
  "host_message zd port reporting os m h = Inr (c, h') \<Longrightarrow> silent zd h h'"
  by (cases m) (auto simp: host_message.simps map_sum_def host_frame_silent
      intro: silent_refl silent_control split: sum.splits)

lemma host_task_silent:
  "host_task h h' \<Longrightarrow> host_chans.contents sent h \<Longrightarrow> silent zd h h'"
  by (induction rule: host_task.induct)
    (auto intro: silent_refl silent_pumps simp: udp_reader_end_def udp_writer_end_def
      dest: host_chans.contents_udp)

lemma client_frame_silent: "silent zd cl (client_frame reporting now f cl)"
  using silent_pumps(2) [OF silent_refl [of cl cl zd], of f]
  by (simp add: client_frame_def signal_ready_def Let_def silent_refl)

lemma client_message_silent:
  "client_message zd reporting now m cl = Inr (c, cl') \<Longrightarrow> silent zd cl cl'"
  using silent_control(2) [OF silent_refl [of cl cl zd]]
  by (cases m) (auto simp: and_then_eq_Inr client_frame_silent silent_refl)

lemma silent_accept: "silent zd cl (client_accept cl)"
proof (cases "cm_accept_alive cl \<and> cm_accepting cl = None \<and> mx_ws_open cl")
  case True
  then show ?thesis
    by (intro silent_ws [OF silent_control(3) [OF silent_refl [OF refl]]])
      (simp add: client_accept_def Let_def ws_send_ws)
qed (auto simp: client_accept_def Let_def intro!: silent_refl)

lemma client_task_silent: "client_task cl cl' \<Longrightarrow> silent zd cl cl'"
  by (induction rule: client_task.induct)
    (auto intro: silent_refl silent_pumps silent_accept simp: client_register_def split: option.split)

section \<open>The client's side\<close>

lemma client_contents_same [simp]:
  "client_chans.contents sent (signal_ready cl) \<longleftrightarrow> client_chans.contents sent cl"
  "client_chans.contents sent (client_accept cl) \<longleftrightarrow> client_chans.contents sent cl"
  "client_chans.contents sent (cl\<lparr>cm_accepting := a\<rparr>) \<longleftrightarrow> client_chans.contents sent cl"
  by (rule client_chans.contents_cong; simp add: signal_ready_def client_accept_def Let_def)+

lemma client_handles_frame:
  assumes "client_chans.contents (data_of zd handled) cl" and "decode_frame zd d = Inr f"
  shows "client_chans.contents (data_of zd (handled @ [WsBinary d])) (client_frame reporting now f cl)"
proof (cases "fr_kind f = FRAME_DATA")
  case True
  then have "data_of zd (handled @ [WsBinary d]) = (data_of zd handled)
      (fr_stream_id f := data_of zd handled (fr_stream_id f) @ [fr_payload f])"
    by (auto simp: fun_eq_iff payload_of_def assms(2))
  then show ?thesis
    using client_chans.contents_deliver [OF assms(1)] True
    by (simp add: client_frame_def) (simp add: wire_consts)
next
  case False
  then have "data_of zd (handled @ [WsBinary d]) = data_of zd handled"
    by (auto simp: fun_eq_iff payload_of_def assms(2))
  then show ?thesis
    using assms(1) False client_chans.contents_close [OF assms(1)]
    by (simp add: client_frame_def answer_ping_def report_pong_def Let_def)
qed

lemma client_task_contents:
  "client_task cl cl' \<Longrightarrow> client_chans.contents sent cl \<Longrightarrow> client_chans.contents sent cl'"
  by (induction rule: client_task.induct)
    (auto simp: keepalive_def client_register_def intro: client_chans.contents_steps split: option.split)

lemma host_task_tracks:
  assumes "host_task h h'" and "host_tracks zd handled h"
  shows "host_tracks zd handled h'"
proof -
  from assms(2) have cont: "host_chans.contents (data_of zd handled) h"
    and dom: "dom (mx_streams h) \<subseteq> set (frame_ids FRAME_OPEN handled)"
    by (simp_all add: host_tracks_def)
  from assms(1) cont have "host_chans.contents (data_of zd handled) h'"
    by (induction rule: host_task.induct)
      (auto simp: keepalive_def intro: host_chans.contents_steps dest: host_chans.contents_udp)
  moreover from assms(1) have "dom (mx_streams h') \<subseteq> dom (mx_streams h)"
    by (induction rule: host_task.induct)
      (auto simp: keepalive_def tcp_reader_end_def udp_read_def udp_reader_end_def end_task_def
        tcp_writer_end_def udp_writer_end_def drop_receiver_def close_stream_def split: if_splits)
  ultimately show ?thesis using dom by (auto simp: host_tracks_def)
qed

section \<open>The system\<close>

record relay_system =
  sy_host :: mux
  sy_client :: client_mux
  sy_up :: nat \<comment> \<open>how many messages of the client's log the host has handled\<close>
  sy_down :: nat \<comment> \<open>how many messages of the host's log the client has handled\<close>
  sy_from_game :: "(u64 \<times> bytes) list" \<comment> \<open>chunks the client's pumps read and handed over\<close>
  sy_from_server :: "(u64 \<times> bytes) list" \<comment> \<open>chunks the host's pumps read and handed over\<close>

definition fresh_system :: "bool \<Rightarrow> relay_system" where
  "fresh_system pending = \<lparr>sy_host = empty_mux, sy_client = empty_client pending, sy_up = 0,
     sy_down = 0, sy_from_game = [], sy_from_server = []\<rparr>"

text \<open>A chunk that cannot be handed to the WebSocket's writer any more ends its pump.\<close>

definition handed_over :: "u64 \<Rightarrow> bytes \<Rightarrow> 'a mux_scheme \<Rightarrow> (u64 \<times> bytes) list" where
  "handed_over sid chunk h = (if mx_ws_open h then [(sid, chunk)] else [])"

inductive system_step :: "zstd_encoder \<Rightarrow> zstd_decoder \<Rightarrow> u16 \<Rightarrow> bool \<Rightarrow> bool \<Rightarrow>
    relay_system \<Rightarrow> relay_system \<Rightarrow> bool"
  for ze zd port reporting reporting' where
  sy_game_reads: "reads_chunk sid chunk (sy_client s) \<Longrightarrow>
     system_step ze zd port reporting reporting' s
       (s\<lparr>sy_client := tcp_read ze sid chunk (sy_client s),
          sy_from_game := sy_from_game s @ handed_over sid chunk (sy_client s)\<rparr>)"
| sy_client_task: "client_task (sy_client s) cl' \<Longrightarrow>
     system_step ze zd port reporting reporting' s (s\<lparr>sy_client := cl'\<rparr>)"
| sy_client_handles: "sy_down s < length (host_log (sy_host s)) \<Longrightarrow>
     client_message zd reporting' now (host_log (sy_host s) ! sy_down s) (sy_client s) = Inr (c, cl') \<Longrightarrow>
     system_step ze zd port reporting reporting' s (s\<lparr>sy_client := cl', sy_down := Suc (sy_down s)\<rparr>)"
| sy_client_other: "\<not> is_binary m \<Longrightarrow>
     client_message zd reporting' now m (sy_client s) = Inr (c, cl') \<Longrightarrow>
     system_step ze zd port reporting reporting' s (s\<lparr>sy_client := cl'\<rparr>)"
| sy_server_reads: "reads_chunk sid chunk (sy_host s) \<Longrightarrow>
     system_step ze zd port reporting reporting' s
       (s\<lparr>sy_host := tcp_read ze sid chunk (sy_host s),
          sy_from_server := sy_from_server s @ handed_over sid chunk (sy_host s)\<rparr>)"
| sy_host_task: "host_task (sy_host s) h' \<Longrightarrow>
     system_step ze zd port reporting reporting' s (s\<lparr>sy_host := h'\<rparr>)"
| sy_host_handles: "sy_up s < length (client_log (sy_client s)) \<Longrightarrow>
     host_message zd port reporting os (client_log (sy_client s) ! sy_up s) (sy_host s) = Inr (c, h') \<Longrightarrow>
     system_step ze zd port reporting reporting' s (s\<lparr>sy_host := h', sy_up := Suc (sy_up s)\<rparr>)"
| sy_host_other: "\<not> is_binary m \<Longrightarrow>
     host_message zd port reporting os m (sy_host s) = Inr (c, h') \<Longrightarrow>
     system_step ze zd port reporting reporting' s (s\<lparr>sy_host := h'\<rparr>)"

inductive system_reachable :: "zstd_encoder \<Rightarrow> zstd_decoder \<Rightarrow> u16 \<Rightarrow> bool \<Rightarrow> bool \<Rightarrow> bool \<Rightarrow>
    relay_system \<Rightarrow> bool"
  for ze zd port reporting reporting' pending where
  sr_init: "system_reachable ze zd port reporting reporting' pending (fresh_system pending)"
| sr_step: "system_reachable ze zd port reporting reporting' pending s \<Longrightarrow>
     system_step ze zd port reporting reporting' s s' \<Longrightarrow>
     system_reachable ze zd port reporting reporting' pending s'"

definition chunks_of :: "u64 \<Rightarrow> (u64 \<times> bytes) list \<Rightarrow> bytes list" where
  "chunks_of i xs = map snd (filter (\<lambda>(j, c). j = i) xs)"

lemma chunks_of_simps [simp]:
  "chunks_of i [] = []" "chunks_of i (xs @ ys) = chunks_of i xs @ chunks_of i ys"
  by (simp_all add: chunks_of_def)

section \<open>The invariant of the system\<close>

definition system_tracks :: "zstd_decoder \<Rightarrow> relay_system \<Rightarrow> bool" where
  "system_tracks zd s \<longleftrightarrow>
     sy_up s \<le> length (client_log (sy_client s)) \<and> sy_down s \<le> length (host_log (sy_host s))
     \<and> host_tracks zd (take (sy_up s) (client_log (sy_client s))) (sy_host s)
     \<and> client_chans.contents (data_of zd (take (sy_down s) (host_log (sy_host s)))) (sy_client s)
     \<and> (\<forall>i. data_of zd (mx_ws (sy_client s)) i = chunks_of i (sy_from_game s))
     \<and> (\<forall>i. data_of zd (mx_ws (sy_host s)) i = chunks_of i (sy_from_server s))"

text \<open>The last part is conditional: after 2^64 connections the ids of a client start again.\<close>

definition system_inv :: "zstd_decoder \<Rightarrow> relay_system \<Rightarrow> bool" where
  "system_inv zd s \<longleftrightarrow> client_good (sy_client s) \<and> plain_opens (mx_ws (sy_client s))
     \<and> decodable zd (mx_ws (sy_client s))
     \<and> (log_ok (client_log (sy_client s)) \<longrightarrow> system_tracks zd s)"

text \<open>A step of one end: what it must show of that end, the other being left alone.\<close>

lemma system_inv_client:
  assumes "system_inv zd s"
    and "mx_ws cl' = mx_ws (sy_client s) @ ms" and "plain_opens ms" and "decodable zd ms" and "client_good cl'"
    and "\<And>i. data_of zd ms i = chunks_of i new"
    and "sy_down s \<le> length (host_log (sy_host s)) \<Longrightarrow> d \<le> length (host_log (sy_host s))"
    and "client_chans.contents (data_of zd (take (sy_down s) (host_log (sy_host s)))) (sy_client s) \<Longrightarrow>
      client_chans.contents (data_of zd (take d (host_log (sy_host s)))) cl'"
  shows "system_inv zd (s\<lparr>sy_client := cl', sy_down := d, sy_from_game := sy_from_game s @ new\<rparr>)"
proof -
  have log: "client_log cl' = client_log (sy_client s) @ filter is_binary ms"
    by (simp add: client_log_def assms(2))
  show ?thesis
    using assms log_ok_append [of "client_log (sy_client s)" "filter is_binary ms"]
    by (auto simp: system_inv_def system_tracks_def log)
qed

lemma system_inv_host:
  assumes "system_inv zd s"
    and "system_tracks zd s \<Longrightarrow> log_ok (client_log (sy_client s)) \<Longrightarrow>
      \<exists>ms. mx_ws h' = mx_ws (sy_host s) @ ms \<and> (\<forall>i. data_of zd ms i = chunks_of i new)"
    and "sy_up s \<le> length (client_log (sy_client s)) \<Longrightarrow> u \<le> length (client_log (sy_client s))"
    and "host_tracks zd (take (sy_up s) (client_log (sy_client s))) (sy_host s) \<Longrightarrow>
      log_ok (client_log (sy_client s)) \<Longrightarrow> host_tracks zd (take u (client_log (sy_client s))) h'"
  shows "system_inv zd (s\<lparr>sy_host := h', sy_up := u, sy_from_server := sy_from_server s @ new\<rparr>)"
proof -
  have "system_tracks zd (s\<lparr>sy_host := h', sy_up := u, sy_from_server := sy_from_server s @ new\<rparr>)"
    if ok: "log_ok (client_log (sy_client s))"
  proof -
    have t: "system_tracks zd s" using assms(1) ok by (simp add: system_inv_def)
    from assms(2) [OF t ok] obtain ms where "mx_ws h' = mx_ws (sy_host s) @ ms"
      "\<forall>i. data_of zd ms i = chunks_of i new" by blast
    then show ?thesis
      using t assms(3) assms(4) [OF _ ok] by (auto simp: system_tracks_def host_log_def)
  qed
  then show ?thesis using assms(1) by (simp add: system_inv_def)
qed

lemma tcp_read_ws:
  "mx_ws (tcp_read ze sid chunk h) =
     mx_ws h @ (if mx_ws_open h then [WsBinary (encode_data_frame_maybe_compressed ze sid chunk)] else [])"
  by (simp add: tcp_read_def ws_send_ws)

lemma handed_over_data:
  assumes "zstd_lossless ze zd"
  shows "data_of zd (if mx_ws_open h then [WsBinary (encode_data_frame_maybe_compressed ze sid chunk)]
      else []) i = chunks_of i (handed_over sid chunk h)"
  by (auto simp: handed_over_def chunks_of_def payload_of_data [OF assms])

lemma silentE:
  assumes "silent zd h h'"
  obtains ms where "mx_ws h' = mx_ws h @ ms" "\<And>i. data_of zd ms i = []" "plain_opens ms" "decodable zd ms"
  using assms by (auto simp: silent_def)

lemma data_of_other: "\<not> is_binary m \<Longrightarrow> data_of zd (ms @ [m]) = data_of zd ms"
  by (cases m) (auto simp: is_binary_def fun_eq_iff)

lemma client_other_contents:
  "client_message zd reporting now m cl = Inr (c, cl') \<Longrightarrow> \<not> is_binary m \<Longrightarrow>
     client_chans.contents sent cl \<Longrightarrow> client_chans.contents sent cl'"
  by (cases m) (auto simp: is_binary_def)

lemma client_message_contents:
  assumes "client_message zd reporting now m cl = Inr (c, cl')"
    and "client_chans.contents (data_of zd handled) cl"
  shows "client_chans.contents (data_of zd (handled @ [m])) cl'"
proof (cases "is_binary m")
  case True
  then obtain d where "m = WsBinary d" by (auto simp: is_binary_def split: ws_msg.splits)
  then show ?thesis
    using assms client_handles_frame by (auto simp: and_then_eq_Inr)
next
  case False
  then show ?thesis using client_other_contents [OF assms(1) False assms(2)] by (simp add: data_of_other)
qed

lemma host_other_tracks:
  "host_message zd port reporting os m h = Inr (c, h') \<Longrightarrow> \<not> is_binary m \<Longrightarrow>
     host_tracks zd handled h \<Longrightarrow> host_tracks zd handled h'"
  by (cases m) (auto simp: host_message.simps host_tracks_def is_binary_def)

lemma host_message_tracks:
  assumes "host_message zd port reporting os m h = Inr (c, h')" and "host_tracks zd handled h"
    and "log_ok (handled @ [m])"
  shows "host_tracks zd (handled @ [m]) h'"
proof (cases "is_binary m")
  case True
  then obtain d where m: "m = WsBinary d" by (auto simp: is_binary_def split: ws_msg.splits)
  then have "handle_host_frame zd port reporting os d h = Inr h'"
    using assms(1) by (auto simp: host_message.simps map_sum_def split: sum.splits)
  then show ?thesis using host_handles_frame assms(2,3) m by blast
next
  case False
  then show ?thesis
    using host_other_tracks [OF assms(1) False assms(2)] by (auto simp: host_tracks_def data_of_other)
qed

text \<open>As long as a client has accepted fewer than 2^64 connections, its ids are all different.\<close>

lemma client_log_ok:
  assumes "client_good cl" and "plain_opens (mx_ws cl)"
    and "length (frame_ids FRAME_OPEN (mx_ws cl)) < 2 ^ 64"
  shows "log_ok (client_log cl)"
proof -
  obtain n where n: "frame_ids FRAME_OPEN (mx_ws cl) = map word_of_nat [1..<Suc n]"
    using assms(1) by (auto simp: client_good_def counter_inv_def)
  then have small: "n < 2 ^ 64" using assms(3) by (simp del: upt_Suc)
  then have inj: "inj_on (word_of_nat :: nat \<Rightarrow> u64) {1..<Suc n}"
    by (intro inj_onI) (simp add: word_of_nat_eq_iff take_bit_nat_eq_self)
  have "(word_of_nat k :: u64) \<noteq> 0" if "k \<in> {1..<Suc n}" for k
    using that small by (auto simp: word_of_nat_eq_0_iff dest: dvd_imp_le)
  then have "distinct (frame_ids FRAME_OPEN (mx_ws cl))" "0 \<notin> set (frame_ids FRAME_OPEN (mx_ws cl))"
    using inj unfolding n by (auto simp: distinct_map simp del: upt_Suc)
  moreover have "frame_ids FRAME_OPEN (client_log cl) = frame_ids FRAME_OPEN (mx_ws cl)"
    by (simp add: client_log_def wire_consts)
  moreover have "opened_first {} (client_log cl)"
    using assms(1) by (simp add: client_log_def opened_first_binary client_good_def client_inv_def
        stream_ids_encode) (simp add: wire_consts)
  moreover have "plain_opens (client_log cl)"
    using assms(2) by (auto simp: client_log_def plain_opens_def wire_consts)
  ultimately show ?thesis by (simp add: log_ok_def)
qed

lemma take_next: "n < length ms \<Longrightarrow> take (Suc n) ms = take n ms @ [ms ! n]"
  by (rule take_Suc_conv_app_nth)

lemma log_ok_take: "log_ok ms \<Longrightarrow> log_ok (take n ms)"
  using log_ok_append [of "take n ms" "drop n ms"] by simp

lemma system_inv_client_silent:
  assumes "system_inv zd s" and "silent zd (sy_client s) cl'" and "client_good cl'"
    and "sy_down s \<le> length (host_log (sy_host s)) \<Longrightarrow> d \<le> length (host_log (sy_host s))"
    and "client_chans.contents (data_of zd (take (sy_down s) (host_log (sy_host s)))) (sy_client s) \<Longrightarrow>
      client_chans.contents (data_of zd (take d (host_log (sy_host s)))) cl'"
  shows "system_inv zd (s\<lparr>sy_client := cl', sy_down := d\<rparr>)"
proof -
  obtain ms where ms: "mx_ws cl' = mx_ws (sy_client s) @ ms" "\<And>i. data_of zd ms i = []" "plain_opens ms"
    "decodable zd ms"
    using silentE [OF assms(2)] by blast
  have "data_of zd ms i = chunks_of i []" for i by (simp add: ms(2))
  from system_inv_client [OF assms(1) ms(1,3,4) assms(3) this assms(4,5)] show ?thesis by simp
qed

lemma system_inv_host_silent:
  assumes "system_inv zd s"
    and "system_tracks zd s \<Longrightarrow> silent zd (sy_host s) h'"
    and "sy_up s \<le> length (client_log (sy_client s)) \<Longrightarrow> u \<le> length (client_log (sy_client s))"
    and "host_tracks zd (take (sy_up s) (client_log (sy_client s))) (sy_host s) \<Longrightarrow>
      log_ok (client_log (sy_client s)) \<Longrightarrow> host_tracks zd (take u (client_log (sy_client s))) h'"
  shows "system_inv zd (s\<lparr>sy_host := h', sy_up := u\<rparr>)"
proof -
  have "\<exists>ms. mx_ws h' = mx_ws (sy_host s) @ ms \<and> (\<forall>i. data_of zd ms i = chunks_of i [])"
    if "system_tracks zd s"
    using assms(2) [OF that] by (auto simp: silent_def)
  from system_inv_host [OF assms(1) this assms(3,4)] show ?thesis by simp
qed

text \<open>The steps of the client, then those of the host.\<close>

lemma game_reads_inv:
  assumes "zstd_lossless ze zd" and "system_inv zd s" and "reads_chunk sid chunk (sy_client s)"
  shows "system_inv zd (s\<lparr>sy_client := tcp_read ze sid chunk (sy_client s),
     sy_from_game := sy_from_game s @ handed_over sid chunk (sy_client s)\<rparr>)"
proof -
  let ?cl = "tcp_read ze sid chunk (sy_client s)"
  have "client_quiet (sy_client s) ?cl"
    using quiet_pumps(1) assms(2,3) by (simp add: system_inv_def reads_chunk_def)
  then have good: "client_good ?cl"
    using client_quiet_good assms(2) by (auto simp: system_inv_def)
  let ?ms = "if mx_ws_open (sy_client s)
      then [WsBinary (encode_data_frame_maybe_compressed ze sid chunk)] else []"
  have plain: "plain_opens ?ms" "decodable zd ?ms"
    by (simp_all add: plain_data decodable_data [OF assms(1)])
  have "system_inv zd (s\<lparr>sy_client := ?cl, sy_down := sy_down s,
      sy_from_game := sy_from_game s @ handed_over sid chunk (sy_client s)\<rparr>)"
    using system_inv_client [OF assms(2) tcp_read_ws plain good handed_over_data [OF assms(1)],
        of "sy_down s"]
    by (simp add: tcp_read_def)
  then show ?thesis by simp
qed

lemma client_task_inv:
  assumes "system_inv zd s" and "client_task (sy_client s) cl'"
  shows "system_inv zd (s\<lparr>sy_client := cl'\<rparr>)"
proof -
  have "client_good cl'" using client_task_good assms by (auto simp: system_inv_def)
  from system_inv_client_silent [OF assms(1) client_task_silent [OF assms(2)] this, of "sy_down s"]
  show ?thesis using client_task_contents [OF assms(2)] by simp
qed

lemma client_received_inv:
  assumes "system_inv zd s"
    and "client_message zd reporting now m (sy_client s) = Inr (c, cl')"
  shows "sy_down s < length (host_log (sy_host s)) \<Longrightarrow> m = host_log (sy_host s) ! sy_down s \<Longrightarrow>
      system_inv zd (s\<lparr>sy_client := cl', sy_down := Suc (sy_down s)\<rparr>)"
    and "\<not> is_binary m \<Longrightarrow> system_inv zd (s\<lparr>sy_client := cl'\<rparr>)"
proof -
  have good: "client_good cl'"
    using client_quiet_good quiet_message [OF assms(2)] assms(1) by (auto simp: system_inv_def)
  note step = system_inv_client_silent [OF assms(1) client_message_silent [OF assms(2)] good]
  show "system_inv zd (s\<lparr>sy_client := cl', sy_down := Suc (sy_down s)\<rparr>)"
    if "sy_down s < length (host_log (sy_host s))" "m = host_log (sy_host s) ! sy_down s"
    using step [of "Suc (sy_down s)"] client_message_contents [OF assms(2)] that
    by (simp add: take_next)
  show "system_inv zd (s\<lparr>sy_client := cl'\<rparr>)" if "\<not> is_binary m"
    using step [of "sy_down s"] client_other_contents [OF assms(2) that] by simp
qed

lemma server_reads_inv:
  assumes "zstd_lossless ze zd" and "system_inv zd s"
  shows "system_inv zd (s\<lparr>sy_host := tcp_read ze sid chunk (sy_host s),
     sy_from_server := sy_from_server s @ handed_over sid chunk (sy_host s)\<rparr>)"
proof -
  have "\<exists>ms. mx_ws (tcp_read ze sid chunk (sy_host s)) = mx_ws (sy_host s) @ ms
      \<and> (\<forall>i. data_of zd ms i = chunks_of i (handed_over sid chunk (sy_host s)))"
    using tcp_read_ws handed_over_data [OF assms(1)] by blast
  from system_inv_host [OF assms(2) this, of "sy_up s"] show ?thesis
    by (simp add: host_tracks_def tcp_read_def)
qed

lemma host_task_inv:
  assumes "system_inv zd s" and "host_task (sy_host s) h'"
  shows "system_inv zd (s\<lparr>sy_host := h'\<rparr>)"
proof -
  have "silent zd (sy_host s) h'" if "system_tracks zd s"
    using host_task_silent [OF assms(2)] that by (auto simp: system_tracks_def host_tracks_def)
  from system_inv_host_silent [OF assms(1) this, of "sy_up s"] show ?thesis
    using host_task_tracks [OF assms(2)] by simp
qed

lemma host_received_inv:
  assumes "system_inv zd s"
    and "host_message zd port reporting os m (sy_host s) = Inr (c, h')"
  shows "sy_up s < length (client_log (sy_client s)) \<Longrightarrow> m = client_log (sy_client s) ! sy_up s \<Longrightarrow>
      system_inv zd (s\<lparr>sy_host := h', sy_up := Suc (sy_up s)\<rparr>)"
    and "\<not> is_binary m \<Longrightarrow> system_inv zd (s\<lparr>sy_host := h'\<rparr>)"
proof -
  note step = system_inv_host_silent [OF assms(1) host_message_silent [OF assms(2)]]
  show "system_inv zd (s\<lparr>sy_host := h', sy_up := Suc (sy_up s)\<rparr>)"
    if "sy_up s < length (client_log (sy_client s))" "m = client_log (sy_client s) ! sy_up s"
    using step [of "Suc (sy_up s)"] host_message_tracks [OF assms(2)] that
      log_ok_take [of "client_log (sy_client s)" "Suc (sy_up s)"]
    by (simp add: take_next)
  show "system_inv zd (s\<lparr>sy_host := h'\<rparr>)" if "\<not> is_binary m"
    using step [of "sy_up s"] host_other_tracks [OF assms(2) that] by simp
qed

lemma system_step_inv:
  "system_step ze zd port reporting reporting' s s' \<Longrightarrow> zstd_lossless ze zd \<Longrightarrow>
     system_inv zd s \<Longrightarrow> system_inv zd s'"
  by (induction rule: system_step.induct)
    (blast intro: game_reads_inv client_task_inv client_received_inv server_reads_inv
      host_task_inv host_received_inv)+

lemma system_reachable_inv:
  assumes "zstd_lossless ze zd"
  shows "system_reachable ze zd port reporting reporting' pending s \<Longrightarrow> system_inv zd s"
proof (induction rule: system_reachable.induct)
  case sr_init
  have "client_good (empty_client pending)"
    by (rule client_reachable_good [OF cr_init])
  then show ?case
    by (simp add: fresh_system_def system_inv_def system_tracks_def host_tracks_def
        host_chans.contents_def client_chans.contents_def)
qed (auto intro: system_step_inv [OF _ assms])

lemma system_tracked:
  assumes "zstd_lossless ze zd" and "system_reachable ze zd port reporting reporting' pending s"
    and "length (frame_ids FRAME_OPEN (mx_ws (sy_client s))) < 2 ^ 64"
  shows "system_tracks zd s"
  using system_reachable_inv [OF assms(1,2)] client_log_ok assms(3) by (simp add: system_inv_def)

section \<open>Catching up\<close>

lemma client_log_decodable: "system_inv zd s \<Longrightarrow> decodable zd (client_log (sy_client s))"
  using decodable_control(3) [of FRAME_HELLO zd 0 "[]"]
  by (auto simp: system_inv_def client_log_def decodable_def is_binary_def)

lemma host_decodes:
  assumes "decodable zd ms" and "n < length ms" and "is_binary (ms ! n)"
  obtains d h' where "ms ! n = WsBinary d"
    and "host_message zd port reporting os (WsBinary d) h = Inr (True, h')"
    and "handle_host_frame zd port reporting os d h = Inr h'"
proof -
  obtain d where d: "ms ! n = WsBinary d"
    using assms(3) by (auto simp: is_binary_def split: ws_msg.splits)
  then have "WsBinary d \<in> set ms" using assms(2) by (metis nth_mem)
  then obtain f where "decode_frame zd d = Inr f"
    using assms(1) by (auto simp: decodable_def)
  then show thesis using that [OF d] by (simp add: host_message.simps handle_host_frame_def)
qed

lemma decoded_close:
  assumes "decode_frame zd d = Inr f" and "fr_kind f = k" and "k \<in> {FRAME_CLOSE, FRAME_ERROR}"
  shows "frame_id_of k (WsBinary d) = [fr_stream_id f]"
  using assms
  by (auto simp: decode_frame_def frame_id_of_def Let_def and_then_eq_Inr wire_consts split: if_splits)

lemma host_keeps_stream:
  assumes "handle_host_frame zd port reporting os d h = Inr h'" and "mx_streams h i = Some c"
    and "i \<notin> set (frame_id_of FRAME_CLOSE (WsBinary d)) \<union> set (frame_id_of FRAME_ERROR (WsBinary d))"
  shows "mx_streams h' i = Some c"
proof -
  obtain f where f: "decode_frame zd d = Inr f"
    using assms(1) by (auto simp: handle_host_frame_def and_then_eq_Inr)
  have "fr_stream_id f \<noteq> i" if "fr_kind f = FRAME_CLOSE \<or> fr_kind f = FRAME_ERROR"
    using decoded_close [OF f] that assms(3) by auto
  then show ?thesis
    using assms(1,2)
    by (auto simp: handle_host_frame_def f host_open_def host_data_def refuse_stream_def open_stream_def
        close_stream_def answer_ping_def report_pong_def mx_streams_send Let_def split: if_splits sum.splits)
qed

lemma client_log_binary: "n < length (client_log cl) \<Longrightarrow> is_binary (client_log cl ! n)"
proof -
  assume "n < length (client_log cl)"
  then have "client_log cl ! n \<in> set (client_log cl)" by simp
  then show ?thesis by (auto simp: client_log_def is_binary_def)
qed

text \<open>The host handles what the client has sent so far, one message after the other.\<close>

abbreviation pending_messages :: "relay_system \<Rightarrow> ws_msg list" where
  "pending_messages s \<equiv> drop (sy_up s) (client_log (sy_client s))"

lemma host_runs_pending:
  assumes "zstd_lossless ze zd" and "system_reachable ze zd port reporting reporting' pending s"
    and "length answers = length (pending_messages s)" and "sy_up s \<le> length (client_log (sy_client s))"
  shows "\<exists>h'. host_run zd port reporting (zip answers (pending_messages s)) (sy_host s) = Inr h'
    \<and> (system_step ze zd port reporting reporting')\<^sup>*\<^sup>* s
        (s\<lparr>sy_host := h', sy_up := length (client_log (sy_client s))\<rparr>)
    \<and> (\<forall>i c. mx_streams (sy_host s) i = Some c \<longrightarrow>
         i \<notin> set (frame_ids FRAME_CLOSE (pending_messages s)) \<union> set (frame_ids FRAME_ERROR (pending_messages s)) \<longrightarrow>
         mx_streams h' i = Some c)"
  using assms(2-4)
proof (induction answers arbitrary: s)
  case Nil
  then have "s\<lparr>sy_host := sy_host s, sy_up := length (client_log (sy_client s))\<rparr> = s" by simp
  with Nil show ?case by (intro exI [of _ "sy_host s"]) simp
next
  case (Cons os answers)
  let ?log = "client_log (sy_client s)"
  from Cons.prems(2) have less: "sy_up s < length ?log" by simp
  have "decodable zd ?log"
    by (rule client_log_decodable [OF system_reachable_inv [OF assms(1) Cons.prems(1)]])
  from host_decodes [OF this less client_log_binary [OF less]]
  obtain d h1 where d: "?log ! sy_up s = WsBinary d"
    and msg: "host_message zd port reporting os (WsBinary d) (sy_host s) = Inr (True, h1)"
    and frame: "handle_host_frame zd port reporting os d (sy_host s) = Inr h1"
    by blast
  let ?s = "s\<lparr>sy_host := h1, sy_up := Suc (sy_up s)\<rparr>"
  have pending: "pending_messages s = WsBinary d # pending_messages ?s"
    using less d by (simp add: Cons_nth_drop_Suc flip: d)
  have step: "system_step ze zd port reporting reporting' s ?s"
    using sy_host_handles [OF less] msg d by metis
  with Cons.prems(1) have "system_reachable ze zd port reporting reporting' pending ?s"
    by (rule sr_step)
  from Cons.IH [OF this] obtain h' where h':
    "host_run zd port reporting (zip answers (pending_messages ?s)) h1 = Inr h'"
    "(system_step ze zd port reporting reporting')\<^sup>*\<^sup>* ?s (?s\<lparr>sy_host := h', sy_up := length ?log\<rparr>)"
    "\<And>i c. mx_streams h1 i = Some c \<Longrightarrow>
       i \<notin> set (frame_ids FRAME_CLOSE (pending_messages ?s)) \<union> set (frame_ids FRAME_ERROR (pending_messages ?s)) \<Longrightarrow>
       mx_streams h' i = Some c"
    using Cons.prems(2) less pending by auto
  have "host_run zd port reporting (zip (os # answers) (pending_messages s)) (sy_host s) = Inr h'"
    using h'(1) msg unfolding pending by simp
  moreover have "(system_step ze zd port reporting reporting')\<^sup>*\<^sup>* s (s\<lparr>sy_host := h', sy_up := length ?log\<rparr>)"
    using converse_rtranclp_into_rtranclp [OF step h'(2)] by simp
  ultimately show ?case
    using h'(3) host_keeps_stream [OF frame] pending by (intro exI [of _ h']) simp
qed

lemma system_steps_reachable:
  "(system_step ze zd port reporting reporting')\<^sup>*\<^sup>* s s' \<Longrightarrow>
     system_reachable ze zd port reporting reporting' pending s \<Longrightarrow>
     system_reachable ze zd port reporting reporting' pending s'"
  by (induction rule: rtranclp_induct) (auto intro: sr_step)

section \<open>Properties\<close>

text \<open>
  C2: whatever the two games do, and in whatever order the tasks of both ends and the relay's
  messages interleave, no stream gets a byte of another, and none is lost, repeated or
  reordered inside a stream. On the host, what has gone into the channel of an open stream
  and what is still on its way are together exactly what the client's pump has read from the
  game for it; of a stream closed in the meantime it is a first part of that. On the client,
  what has gone into a channel is an unbroken part of what the host's pump has read from the
  server, and for an open stream it runs up to the last message handled: only data that arrives
  before the stream is registered is missing. The client has not used up its 2^64 stream ids.
\<close>

theorem relay_session_faithful:
  assumes "zstd_lossless ze zd"
    and "system_reachable ze zd port reporting reporting' pending s"
    and "length (frame_ids FRAME_OPEN (mx_ws (sy_client s))) < 2 ^ 64"
  shows "\<forall>i c. (mx_streams (sy_host s) i = Some c \<longrightarrow>
            channel_bytes (sy_host s) c @ data_of zd (drop (sy_up s) (client_log (sy_client s))) i
              = chunks_of i (sy_from_game s))
      \<and> (TcpWriter i c \<in> set (mx_tasks (sy_host s)) \<longrightarrow>
            prefix (channel_bytes (sy_host s) c) (chunks_of i (sy_from_game s)))
      \<and> (mx_streams (sy_client s) i = Some c \<longrightarrow>
            suffix (channel_bytes (sy_client s) c @ data_of zd (drop (sy_down s) (host_log (sy_host s))) i)
              (chunks_of i (sy_from_server s)))
      \<and> (TcpWriter i c \<in> set (mx_tasks (sy_client s)) \<longrightarrow>
            sublist (channel_bytes (sy_client s) c) (chunks_of i (sy_from_server s)))"
proof -
  let ?up = "client_log (sy_client s)" and ?down = "host_log (sy_host s)"
  have t: "system_tracks zd s" by (rule system_tracked [OF assms])
  have up: "data_of zd (take (sy_up s) ?up) i @ data_of zd (drop (sy_up s) ?up) i = chunks_of i (sy_from_game s)"
    and down: "data_of zd (take (sy_down s) ?down) i @ data_of zd (drop (sy_down s) ?down) i
      = chunks_of i (sy_from_server s)" for i
    using t by (simp_all flip: data_of_simps(3))
      (simp_all add: client_log_def host_log_def system_tracks_def)
  have host: "host_chans.contents (data_of zd (take (sy_up s) ?up)) (sy_host s)"
    and client: "client_chans.contents (data_of zd (take (sy_down s) ?down)) (sy_client s)"
    using t by (simp_all add: system_tracks_def host_tracks_def)
  show ?thesis
  proof (intro allI conjI impI)
    fix i c
    show "channel_bytes (sy_host s) c @ data_of zd (drop (sy_up s) ?up) i = chunks_of i (sy_from_game s)"
      if "mx_streams (sy_host s) i = Some c"
      using host_chans.contents_stream [OF host that] up [of i] by simp
    show "prefix (channel_bytes (sy_host s) c) (chunks_of i (sy_from_game s))"
      if "TcpWriter i c \<in> set (mx_tasks (sy_host s))"
      using host_chans.contents_writer [OF host that] by (simp flip: up)
    show "suffix (channel_bytes (sy_client s) c @ data_of zd (drop (sy_down s) ?down) i)
        (chunks_of i (sy_from_server s))" if "mx_streams (sy_client s) i = Some c"
      using client_chans.contents_stream [OF client that] by (auto simp: suffix_def simp flip: down)
    show "sublist (channel_bytes (sy_client s) c) (chunks_of i (sy_from_server s))"
      if "TcpWriter i c \<in> set (mx_tasks (sy_client s))"
      using client_chans.contents_writer [OF client that] sublist_append_leftI
      by (simp flip: down) (metis append.assoc sublist_def)
  qed
qed

text \<open>A connection whose first chunk has reached the host's channel.\<close>

definition sample_client :: client_mux where
  "sample_client = client_register (client_accept (empty_client True))"

definition sample_host :: mux where
  "sample_host = open_stream 1 False (ws_send (WsBinary (encode_frame FRAME_READY 0 [])) empty_mux)"

definition sample_system :: relay_system where
  "sample_system = \<lparr>sy_host = send_to_stream 1 [7] sample_host,
     sy_client = tcp_read pair_encode 1 [7] sample_client, sy_up = 3, sy_down = 0,
     sy_from_game = [(1, [7])], sy_from_server = []\<rparr>"

lemma sample_client_fields:
  "mx_ws sample_client = [WsBinary (encode_frame FRAME_OPEN 1 [])]" "mx_ws_open sample_client"
  "TcpReader 1 \<in> set (mx_tasks sample_client)"
  by (simp_all add: sample_client_def client_register_def client_accept_def open_stream_def Let_def
      ws_send_def)

text \<open>The same system before the host has handled the OPEN and the first chunk.\<close>

definition behind_system :: relay_system where
  "behind_system = \<lparr>sy_host = ws_send (WsBinary (encode_frame FRAME_READY 0 [])) empty_mux,
     sy_client = tcp_read pair_encode 1 [7] sample_client, sy_up = 1, sy_down = 0,
     sy_from_game = [(1, [7])], sy_from_server = []\<rparr>"

lemma sample_reachable:
  "system_reachable pair_encode pair_decode 25565 True True True sample_system"
  and behind_reachable: "system_reachable pair_encode pair_decode 25565 True True True behind_system"
proof -
  let ?R = "system_reachable pair_encode pair_decode 25565 True True True"
  let ?cl = "tcp_read pair_encode 1 [7] sample_client"
  have "?R ((fresh_system True)\<lparr>sy_client := client_accept (empty_client True)\<rparr>)"
    by (rule sr_step [OF sr_init], rule sy_client_task, simp add: fresh_system_def ct_accept)
  then have "?R ((fresh_system True)\<lparr>sy_client := sample_client\<rparr>)"
    by (rule sr_step) (use sy_client_task [OF ct_register, where s = "(fresh_system True)\<lparr>sy_client :=
        client_accept (empty_client True)\<rparr>"] in \<open>simp add: sample_client_def\<close>)
  then have 1: "?R \<lparr>sy_host = empty_mux, sy_client = ?cl, sy_up = 0, sy_down = 0,
      sy_from_game = [(1, [7])], sy_from_server = []\<rparr>"
    by (rule sr_step) (use sy_game_reads [where sid = 1 and chunk = "[7]"
        and s = "(fresh_system True)\<lparr>sy_client := sample_client\<rparr>"]
      in \<open>simp add: fresh_system_def reads_chunk_def handed_over_def sample_client_fields TCP_CHUNK_SIZE_def\<close>)
  have log: "client_log ?cl = [WsBinary (encode_frame FRAME_HELLO 0 []),
      WsBinary (encode_frame FRAME_OPEN 1 []),
      WsBinary (encode_data_frame_maybe_compressed pair_encode 1 [7])]"
    by (simp add: client_log_def tcp_read_ws sample_client_fields is_binary_def)
  have step: "?R \<lparr>sy_host = h', sy_client = ?cl, sy_up = Suc n, sy_down = 0,
      sy_from_game = [(1, [7])], sy_from_server = []\<rparr>"
    if "?R \<lparr>sy_host = h, sy_client = ?cl, sy_up = n, sy_down = 0,
      sy_from_game = [(1, [7])], sy_from_server = []\<rparr>" "n < 3"
      "host_message pair_decode 25565 True sample_os (client_log ?cl ! n) h = Inr (True, h')" for h h' n
    using sr_step [OF that(1) sy_host_handles] that(2,3) by (simp add: log)
  let ?h0 = "ws_send (WsBinary (encode_frame FRAME_READY 0 [])) empty_mux"
  have "host_message pair_decode 25565 True sample_os (client_log ?cl ! 0) empty_mux = Inr (True, ?h0)"
    by (simp add: log host_message.simps handle_host_frame_def decode_encode_frame)
  from step [OF 1 _ this] have 2: "?R \<lparr>sy_host = ?h0, sy_client = ?cl, sy_up = 1, sy_down = 0,
      sy_from_game = [(1, [7])], sy_from_server = []\<rparr>" by simp
  have "host_message pair_decode 25565 True sample_os (client_log ?cl ! 1) ?h0 = Inr (True, sample_host)"
    by (simp add: log host_message_open host_open_cases sample_os_open sample_host_def)
  from step [OF 2 _ this] have 3: "?R \<lparr>sy_host = sample_host, sy_client = ?cl, sy_up = 2, sy_down = 0,
      sy_from_game = [(1, [7])], sy_from_server = []\<rparr>" by (simp add: eval_nat_numeral)
  have "host_message pair_decode 25565 True sample_os (client_log ?cl ! 2) sample_host =
      Inr (True, send_to_stream 1 [7] sample_host)"
    by (simp add: log host_message_data [OF pair_lossless] host_data_def Let_def)
      (simp add: sample_host_def open_stream_def Let_def)
  from step [OF 3 _ this] show "?R sample_system" by (simp add: sample_system_def eval_nat_numeral)
  show "?R behind_system" using 2 by (simp add: behind_system_def)
qed

theorem relay_session_faithful_witness:
  "channel_bytes (sy_host sample_system) 0
     @ data_of pair_decode (drop 3 (client_log (sy_client sample_system))) 1 = [[7]]"
proof -
  have "mx_streams (sy_host sample_system) 1 = Some 0"
    by (simp add: sample_system_def mx_streams_send sample_host_def open_stream_def Let_def)
  moreover have "length (frame_ids FRAME_OPEN (mx_ws (sy_client sample_system))) < 2 ^ 64"
    by (simp add: sample_system_def tcp_read_ws sample_client_fields)
  ultimately show ?thesis
    using relay_session_faithful [OF pair_lossless sample_reachable]
    by (simp add: sample_system_def chunks_of_def)
qed

lemma behind_run:
  "host_run pair_decode 25565 True (zip [sample_os, sample_os] (drop 1 (client_log (sy_client behind_system))))
      (sy_host behind_system) = Inr (send_to_stream 1 [7] sample_host)"
  "mx_streams (send_to_stream 1 [7] sample_host) 1 = Some 0"
proof -
  have "host_message pair_decode 25565 True sample_os (WsBinary (encode_frame FRAME_OPEN 1 []))
      (ws_send (WsBinary (encode_frame FRAME_READY 0 [])) empty_mux) = Inr (True, sample_host)"
    by (simp add: host_message_open host_open_cases sample_os_open sample_host_def)
  moreover have "host_message pair_decode 25565 True sample_os
      (WsBinary (encode_data_frame_maybe_compressed pair_encode 1 [7])) sample_host =
      Inr (True, send_to_stream 1 [7] sample_host)"
    by (simp add: host_message_data [OF pair_lossless] host_data_def Let_def)
      (simp add: sample_host_def open_stream_def Let_def)
  ultimately show "host_run pair_decode 25565 True (zip [sample_os, sample_os] (drop 1 (client_log (sy_client behind_system))))
      (sy_host behind_system) = Inr (send_to_stream 1 [7] sample_host)"
    by (simp add: behind_system_def client_log_def tcp_read_ws sample_client_fields is_binary_def)
qed (simp add: mx_streams_send sample_host_def open_stream_def Let_def)

text \<open>
  C3: a host never fails on what a client of the same program sends, and catches up. In every
  state the system can reach, each message of the client's log is handled without an error
  and without leaving the reader loop, whatever the host's state and the answers of its
  sockets are. From that state the reader loop, running alone over the messages still on
  their way, returns without an error; the state it leads to is reached from the given one by
  steps of the system in which only the host and its position in the log have moved; the
  streams that were open and not closed by one of these messages are still open, in the same
  channel, and the channel of every stream that is open then has received everything the
  client's pump has read from the game for it. The client has not used up its 2^64 ids.
\<close>

theorem host_catches_up:
  assumes "zstd_lossless ze zd"
    and "system_reachable ze zd port reporting reporting' pending s"
    and "length (frame_ids FRAME_OPEN (mx_ws (sy_client s))) < 2 ^ 64"
  shows "(\<forall>m \<in> set (client_log (sy_client s)). \<forall>os h.
       \<exists>h'. host_message zd port reporting os m h = Inr (True, h'))
    \<and> (\<forall>answers. length answers = length (client_log (sy_client s)) - sy_up s \<longrightarrow>
       (\<exists>h'. host_run zd port reporting (zip answers (drop (sy_up s) (client_log (sy_client s)))) (sy_host s) = Inr h'
          \<and> (system_step ze zd port reporting reporting')\<^sup>*\<^sup>* s
              (s\<lparr>sy_host := h', sy_up := length (client_log (sy_client s))\<rparr>)
          \<and> (\<forall>i c. mx_streams (sy_host s) i = Some c \<longrightarrow>
               i \<notin> set (frame_ids FRAME_CLOSE (drop (sy_up s) (client_log (sy_client s))))
                 \<union> set (frame_ids FRAME_ERROR (drop (sy_up s) (client_log (sy_client s)))) \<longrightarrow>
               mx_streams h' i = Some c)
          \<and> (\<forall>i c. mx_streams h' i = Some c \<longrightarrow> channel_bytes h' c = chunks_of i (sy_from_game s))))"
proof (intro conjI ballI allI impI)
  let ?log = "client_log (sy_client s)"
  have dec: "decodable zd ?log"
    by (rule client_log_decodable [OF system_reachable_inv [OF assms(1,2)]])
  show "\<exists>h'. host_message zd port reporting os m h = Inr (True, h')" if "m \<in> set ?log" for m os h
  proof -
    from that obtain n where n: "n < length ?log" "m = ?log ! n" by (metis in_set_conv_nth)
    from host_decodes [OF dec n(1) client_log_binary [OF n(1)]] show ?thesis using n(2) by metis
  qed
  fix answers :: "os_answers list"
  assume len: "length answers = length ?log - sy_up s"
  have up: "sy_up s \<le> length ?log"
    using system_tracked [OF assms] by (simp add: system_tracks_def)
  from len have "length answers = length (pending_messages s)" by simp
  from host_runs_pending [OF assms(1,2) this up] obtain h' where
    run: "host_run zd port reporting (zip answers (pending_messages s)) (sy_host s) = Inr h'"
    and steps: "(system_step ze zd port reporting reporting')\<^sup>*\<^sup>* s (s\<lparr>sy_host := h', sy_up := length ?log\<rparr>)"
    and open': "\<forall>i c. mx_streams (sy_host s) i = Some c \<longrightarrow>
       i \<notin> set (frame_ids FRAME_CLOSE (pending_messages s)) \<union> set (frame_ids FRAME_ERROR (pending_messages s)) \<longrightarrow>
       mx_streams h' i = Some c"
    by blast
  have "system_tracks zd (s\<lparr>sy_host := h', sy_up := length ?log\<rparr>)"
    using system_tracked [OF assms(1) system_steps_reachable [OF steps assms(2)]] assms(3) by simp
  then have "channel_bytes h' c = chunks_of i (sy_from_game s)" if "mx_streams h' i = Some c" for i c
    using host_chans.contents_stream [of _ h' i c] that
    by (auto simp: system_tracks_def host_tracks_def client_log_def)
  with run steps open' show "\<exists>h'. host_run zd port reporting (zip answers (pending_messages s)) (sy_host s) = Inr h'
      \<and> (system_step ze zd port reporting reporting')\<^sup>*\<^sup>* s (s\<lparr>sy_host := h', sy_up := length ?log\<rparr>)
      \<and> (\<forall>i c. mx_streams (sy_host s) i = Some c \<longrightarrow>
           i \<notin> set (frame_ids FRAME_CLOSE (pending_messages s)) \<union> set (frame_ids FRAME_ERROR (pending_messages s)) \<longrightarrow>
           mx_streams h' i = Some c)
      \<and> (\<forall>i c. mx_streams h' i = Some c \<longrightarrow> channel_bytes h' c = chunks_of i (sy_from_game s))"
    by blast
qed

theorem host_catches_up_witness:
  "\<exists>h' c. host_run pair_decode 25565 True (zip [sample_os, sample_os] (drop 1 (client_log (sy_client behind_system))))
      (sy_host behind_system) = Inr h'
    \<and> mx_streams h' 1 = Some c \<and> channel_bytes h' c = [[7]]"
proof -
  have "length (frame_ids FRAME_OPEN (mx_ws (sy_client behind_system))) < 2 ^ 64"
    and "length (client_log (sy_client behind_system)) - sy_up behind_system = 2"
    by (simp_all add: behind_system_def tcp_read_ws sample_client_fields client_log_def is_binary_def)
  moreover have "sy_up behind_system = 1" "sy_from_game behind_system = [(1, [7])]"
    by (simp_all add: behind_system_def)
  ultimately show ?thesis
    using host_catches_up [OF pair_lossless behind_reachable] behind_run
    by (fastforce simp: chunks_of_def dest: spec [of _ "[sample_os, sample_os]"])
qed

end
