(* ===== verification/Wss_Session.thy ===== *)
theory Wss_Session
  imports Wss_Link
begin

text \<open>
  The life of a relay runtime (\<open>wss_relay.rs\<close>): the handshake of each session, its data
  phase with the tasks it starts and stops, and the reconnect loops that run one session
  after the other. What the network and the local socket layer answer in a session is an
  environment; serde's JSON reader and writer are parameters.
\<close>

section \<open>Configuration\<close>

definition DEFAULT_WSS_RELAY_URL :: string where
  "DEFAULT_WSS_RELAY_URL = ''ws://2.26.87.126:7700/relay''"

record wss_relay_config =
  wc_relay_url :: string
  wc_session_id :: string

definition relay_config_from_env :: "string option \<Rightarrow> string \<Rightarrow> wss_relay_config" where
  "relay_config_from_env var session_id =
     \<lparr>wc_relay_url = (case var of Some url \<Rightarrow> url | None \<Rightarrow> DEFAULT_WSS_RELAY_URL),
      wc_session_id = session_id\<rparr>"

section \<open>Handshake\<close>

datatype handshake_message =
    HostRegister string
  | ClientJoin string
  | Registered string
  | Linked string
  | HsError string

record hs_json =
  to_json :: "handshake_message \<Rightarrow> anyhow + string" \<comment> \<open>\<open>serde_json::to_string\<close>\<close>
  from_json :: "string \<Rightarrow> anyhow + handshake_message" \<comment> \<open>\<open>serde_json::from_str\<close>\<close>
  debug_str :: "string \<Rightarrow> string" \<comment> \<open>\<open>{:?}\<close> of a string\<close>

fun debug_handshake :: "hs_json \<Rightarrow> handshake_message \<Rightarrow> string" where
  "debug_handshake js (HostRegister s) = ''HostRegister { session_id: '' @ debug_str js s @ '' }''"
| "debug_handshake js (ClientJoin s) = ''ClientJoin { session_id: '' @ debug_str js s @ '' }''"
| "debug_handshake js (Registered s) = ''Registered { session_id: '' @ debug_str js s @ '' }''"
| "debug_handshake js (Linked s) = ''Linked { session_id: '' @ debug_str js s @ '' }''"
| "debug_handshake js (HsError s) = ''Error { message: '' @ debug_str js s @ '' }''"

text \<open>\<open>tokio::time::timeout\<close>.\<close>

datatype 'a timed = Elapsed | Timely 'a

definition timely :: "string \<Rightarrow> 'a timed \<Rightarrow> anyhow + 'a" where
  "timely c r = (case r of Elapsed \<Rightarrow> Inl [c, ''deadline has elapsed''] | Timely x \<Rightarrow> Inr x)"

datatype 'm session_item = Cancelled | Received "anyhow + 'm"

record env =
  se_connect :: "(anyhow + unit) timed" \<comment> \<open>\<open>connect_async\<close> within \<open>CONNECT_TIMEOUT\<close>\<close>
  se_send :: "anyhow + unit" \<comment> \<open>sending the registration or join text\<close>
  se_ack :: "(anyhow + ws_msg) option timed" \<comment> \<open>the first message read\<close>
  se_hello :: "anyhow + unit" \<comment> \<open>sending HELLO\<close>
  se_bind :: "string + unit" \<comment> \<open>binding the local listener\<close>
  se_items :: "(os_answers \<times> ws_msg session_item) list" \<comment> \<open>what the reader loop sees\<close>

record texts =
  tx_connect_timeout :: string
  tx_connect_failed :: string
  tx_ack_timeout :: string
  tx_ack_closed :: string
  tx_ack_read :: string

text \<open>Steps 1 to 3 up to the acknowledgement, alike in the three sessions.\<close>

definition connect_and_ack ::
  "texts \<Rightarrow> hs_json \<Rightarrow> handshake_message \<Rightarrow> env \<Rightarrow> anyhow + ws_msg" where
  "connect_and_ack tx js m e =
     and_then (and_then (timely (tx_connect_timeout tx) (se_connect e))
                 (with_context (tx_connect_failed tx))) (\<lambda>_.
     and_then (to_json js m) (\<lambda>_.
     and_then (se_send e) (\<lambda>_.
     and_then (timely (tx_ack_timeout tx) (se_ack e)) (\<lambda>ack.
     and_then (case ack of Some r \<Rightarrow> Inr r | None \<Rightarrow> Inl [tx_ack_closed tx])
       (with_context (tx_ack_read tx))))))"

definition host_texts :: texts where
  "host_texts = \<lparr>tx_connect_timeout = ''WSS relay connect timed out'',
     tx_connect_failed = ''WSS relay connect failed'',
     tx_ack_timeout = ''WSS relay registration timed out'',
     tx_ack_closed = ''WSS relay closed during registration'',
     tx_ack_read = ''WSS relay read error during registration''\<rparr>"

definition client_texts :: texts where
  "client_texts = \<lparr>tx_connect_timeout = ''WSS relay connect timed out'',
     tx_connect_failed = ''WSS relay connect failed'',
     tx_ack_timeout = ''WSS relay join timed out (check signaling server /relay endpoint)'',
     tx_ack_closed = ''WSS relay closed during join (signaling server rejected connection)'',
     tx_ack_read = ''WSS relay read error during join''\<rparr>"

definition udp_texts :: texts where
  "udp_texts = \<lparr>tx_connect_timeout = ''WSS relay UDP connect timed out'',
     tx_connect_failed = ''WSS relay UDP connect failed'',
     tx_ack_timeout = ''WSS relay UDP join timed out'',
     tx_ack_closed = ''WSS relay UDP closed during join'',
     tx_ack_read = ''WSS relay UDP read error''\<rparr>"

definition host_handshake :: "hs_json \<Rightarrow> string \<Rightarrow> env \<Rightarrow> anyhow + unit" where
  "host_handshake js session_id e =
     and_then (connect_and_ack host_texts js (HostRegister session_id) e) (\<lambda>ack.
       case ack of
         WsText t \<Rightarrow> and_then (from_json js t) (\<lambda>m. case m of
             Registered _ \<Rightarrow> Inr ()
           | HsError message \<Rightarrow> Inl [''WSS relay error: '' @ message]
           | other \<Rightarrow> Inl [''unexpected WSS handshake: '' @ debug_handshake js other])
       | _ \<Rightarrow> Inl [''unexpected WSS message type during handshake''])"

definition client_handshake :: "hs_json \<Rightarrow> string \<Rightarrow> env \<Rightarrow> anyhow + unit" where
  "client_handshake js session_id e =
     and_then (connect_and_ack client_texts js (ClientJoin session_id) e) (\<lambda>ack.
       and_then (case ack of
         WsText t \<Rightarrow> and_then (from_json js t) (\<lambda>m. case m of
             Linked _ \<Rightarrow> Inr ()
           | HsError message \<Rightarrow> Inl [''WSS relay error: '' @ message]
           | other \<Rightarrow> Inl [''unexpected WSS handshake: '' @ debug_handshake js other])
       | _ \<Rightarrow> Inl [''unexpected WSS message type during join'']) (\<lambda>_. se_hello e))"

definition udp_handshake :: "hs_json \<Rightarrow> string \<Rightarrow> env \<Rightarrow> anyhow + unit" where
  "udp_handshake js session_id e =
     and_then (connect_and_ack udp_texts js (ClientJoin session_id) e) (\<lambda>ack.
       and_then (case ack of
         WsText t \<Rightarrow> and_then (from_json js t) (\<lambda>m. case m of
             Linked _ \<Rightarrow> Inr ()
           | HsError message \<Rightarrow> Inl [''relay error: '' @ message]
           | other \<Rightarrow> Inl [''unexpected UDP handshake: '' @ debug_handshake js other])
       | _ \<Rightarrow> Inl [''unexpected WSS message type during UDP join'']) (\<lambda>_. se_hello e))"

section \<open>Data phase\<close>

text \<open>
  The reader loops: \<open>step\<close> handles one message; the result is the one the loop leaves the
  session with, beside the state it left.
\<close>

fun reader_loop ::
  "string \<Rightarrow> (os_answers \<Rightarrow> 'm \<Rightarrow> 's \<Rightarrow> anyhow + (bool \<times> 's)) \<Rightarrow>
     (os_answers \<times> 'm session_item) list \<Rightarrow> 's \<Rightarrow> (anyhow + unit) \<times> 's" where
  "reader_loop read_error handle [] s = (Inr (), s)"
| "reader_loop read_error handle ((os, Cancelled) # ms) s = (Inr (), s)"
| "reader_loop read_error handle ((os, Received (Inl e)) # ms) s = (Inl (read_error # e), s)"
| "reader_loop read_error handle ((os, Received (Inr m)) # ms) s =
     (case handle os m s of
        Inl e \<Rightarrow> (Inl e, s)
      | Inr (True, s') \<Rightarrow> reader_loop read_error handle ms s'
      | Inr (False, s') \<Rightarrow> (Inr (), s'))"

text \<open>
  The ready signal of a runtime, across its sessions, and the tasks a session leaves behind
  when it returns: they are aborted at the end of the loop only, not on an early return.
\<close>

record ready_end =
  re_pending :: bool
  re_sent :: "(anyhow + unit) list"

definition take_and_send :: "anyhow + unit \<Rightarrow> ready_end \<Rightarrow> ready_end" where
  "take_and_send r s =
     (if re_pending s then \<lparr>re_pending = False, re_sent = re_sent s @ [r]\<rparr> else s)"

datatype task = WriteTask | PingTask | AcceptTask | UdpRecvTask

definition left_behind :: "task list \<Rightarrow> (anyhow + unit) \<Rightarrow> task list" where
  "left_behind ts r = (case r of Inr _ \<Rightarrow> [] | Inl _ \<Rightarrow> ts)"

definition host_session ::
  "zstd_decoder \<Rightarrow> hs_json \<Rightarrow> string \<Rightarrow> u16 \<Rightarrow> bool \<Rightarrow> env \<Rightarrow> ready_end \<Rightarrow>
     (anyhow + unit) \<times> ready_end \<times> task list" where
  "host_session zd js session_id port reporting e r =
     (case host_handshake js session_id e of
        Inl err \<Rightarrow> (Inl err, r, [])
      | Inr _ \<Rightarrow>
          let r = take_and_send (Inr ()) r;
              res = fst (reader_loop ''WSS relay read error'' (host_message zd port reporting)
                           (se_items e) empty_mux)
          in (res, r, left_behind [WriteTask, PingTask] res))"

text \<open>The ready signal in a client session is the one of the runtime.\<close>

definition merge_ready :: "'a ready_mux_scheme \<Rightarrow> ready_end \<Rightarrow> ready_end" where
  "merge_ready h r = \<lparr>re_pending = rm_ready_pending h, re_sent = re_sent r @ rm_ready_sent h\<rparr>"

definition bind_context :: "u16 \<Rightarrow> string" where
  "bind_context port = ''WSS relay: '' @ map char_of
      ([208, 189, 208, 181, 32, 209, 131, 208, 180, 208, 176, 208, 187, 208, 190, 209, 129,
       209, 140, 32, 208, 183, 208, 176, 208, 189, 209, 143, 209, 130, 209, 140, 32, 208,
       191, 208, 190, 209, 128, 209, 130] :: nat list)
     @ '' 127.0.0.1:'' @ show_word port"

text \<open>
  The listener's port is free unless the accept task of an earlier session still holds it.
\<close>

definition client_session ::
  "zstd_decoder \<Rightarrow> hs_json \<Rightarrow> string \<Rightarrow> u16 \<Rightarrow> bool \<Rightarrow> env \<Rightarrow> bool \<Rightarrow> ready_end \<Rightarrow>
     (anyhow + unit) \<times> ready_end \<times> task list" where
  "client_session zd js session_id port reporting e port_held r =
     (case client_handshake js session_id e of
        Inl err \<Rightarrow> (Inl err, r, [])
      | Inr _ \<Rightarrow>
          (case (if port_held then Inl ''Address already in use'' else se_bind e) of
             Inl err \<Rightarrow> (Inl [bind_context port, err], r, [WriteTask, PingTask])
           | Inr _ \<Rightarrow>
               let (res, h) = reader_loop ''WSS relay client read error''
                     (\<lambda>os. client_message zd reporting (os_now os)) (se_items e)
                     (empty_client (re_pending r))
               in (res, merge_ready h r, left_behind [WriteTask, PingTask, AcceptTask] res)))"

definition client_session_udp ::
  "zstd_decoder \<Rightarrow> hs_json \<Rightarrow> string \<Rightarrow> bool \<Rightarrow> env \<Rightarrow> ready_end \<Rightarrow>
     (anyhow + unit) \<times> ready_end \<times> task list" where
  "client_session_udp zd js session_id reporting e r =
     (case udp_handshake js session_id e of
        Inl err \<Rightarrow> (Inl err, r, [])
      | Inr _ \<Rightarrow>
          let (res, h) = reader_loop ''WSS relay UDP read error''
                (\<lambda>os. udp_message zd reporting (os_now os)) (se_items e)
                (empty_udp (re_pending r))
          in (res, merge_ready h r, left_behind [WriteTask, PingTask, UdpRecvTask] res))"

section \<open>Reconnect loops\<close>

text \<open>
  One round of a loop: the environment of its session, whether the token is cancelled before
  or after it, and whether a leaked accept loop ends before it (a connection comes in while
  its WebSocket writer is gone). A session that has reached its data phase need not return:
  its reader loop awaits a place in the bounded channel of a stream while it holds the stream
  table, and may do so for ever even after a cancellation (\<open>Wss_Backpressure\<close>). Then \<open>at_hangs\<close>
  is true, the items are those it has handled before, and the loop awaits it for ever. A
  loop that has not returned after the rounds given has the result None.
\<close>

record attempt =
  at_cancelled_before :: bool
  at_cancelled_after :: bool
  at_accept_ends :: bool
  at_hangs :: bool
  at_env :: env

definition host_hangs :: "hs_json \<Rightarrow> string \<Rightarrow> attempt \<Rightarrow> bool" where
  "host_hangs js sid a \<longleftrightarrow> at_hangs a \<and> host_handshake js sid (at_env a) = Inr ()"

definition client_hangs :: "hs_json \<Rightarrow> string \<Rightarrow> bool \<Rightarrow> attempt \<Rightarrow> bool" where
  "client_hangs js sid port_held a \<longleftrightarrow> at_hangs a \<and> client_handshake js sid (at_env a) = Inr ()
     \<and> \<not> port_held \<and> se_bind (at_env a) = Inr ()"

definition udp_hangs :: "hs_json \<Rightarrow> string \<Rightarrow> attempt \<Rightarrow> bool" where
  "udp_hangs js sid a \<longleftrightarrow> at_hangs a \<and> udp_handshake js sid (at_env a) = Inr ()"

fun host_loop ::
  "zstd_decoder \<Rightarrow> hs_json \<Rightarrow> string \<Rightarrow> u16 \<Rightarrow> bool \<Rightarrow> attempt list \<Rightarrow> ready_end \<Rightarrow>
     (anyhow + unit) option \<times> ready_end" where
  "host_loop zd js sid port reporting [] r = (None, r)"
| "host_loop zd js sid port reporting (a # as) r =
     (if at_cancelled_before a then (Some (Inr ()), r)
      else let (res, r1, _) = host_session zd js sid port reporting (at_env a) r
           in if host_hangs js sid a then (None, r1)
              else if at_cancelled_after a then (Some (Inr ()), r1)
              else host_loop zd js sid port reporting as
                     (case res of Inr _ \<Rightarrow> r1 | Inl error \<Rightarrow> take_and_send (Inl [alt_format error]) r1))"

fun client_loop ::
  "zstd_decoder \<Rightarrow> hs_json \<Rightarrow> string \<Rightarrow> u16 \<Rightarrow> bool \<Rightarrow> attempt list \<Rightarrow> bool \<Rightarrow> ready_end \<Rightarrow>
     (anyhow + unit) option \<times> ready_end" where
  "client_loop zd js sid port reporting [] held r = (None, r)"
| "client_loop zd js sid port reporting (a # as) held r =
     (if at_cancelled_before a then (Some (Inr ()), r)
      else
        let held = (held \<and> \<not> at_accept_ends a);
            (res, r1, left) = client_session zd js sid port reporting (at_env a) held r
        in if client_hangs js sid held a then (None, r1)
           else if at_cancelled_after a then (Some (Inr ()), r1)
           else case res of
               Inr _ \<Rightarrow> client_loop zd js sid port reporting as held r1
             | Inl error \<Rightarrow>
                 let r2 = take_and_send (Inl [alt_format error]) r1
                 in if contains (to_ascii_lowercase (alt_format error)) ''not found''
                    then (Some (Inl error), r2)
                    else client_loop zd js sid port reporting as (held \<or> AcceptTask \<in> set left) r2)"

fun client_loop_udp ::
  "zstd_decoder \<Rightarrow> hs_json \<Rightarrow> string \<Rightarrow> bool \<Rightarrow> attempt list \<Rightarrow> ready_end \<Rightarrow>
     (anyhow + unit) option \<times> ready_end" where
  "client_loop_udp zd js sid reporting [] r = (None, r)"
| "client_loop_udp zd js sid reporting (a # as) r =
     (if at_cancelled_before a then (Some (Inr ()), r)
      else
        let (res, r1, _) = client_session_udp zd js sid reporting (at_env a) r
        in if udp_hangs js sid a then (None, r1)
           else if at_cancelled_after a then (Some (Inr ()), r1)
           else case res of
               Inr _ \<Rightarrow> client_loop_udp zd js sid reporting as r1
             | Inl error \<Rightarrow>
                 if re_pending r1
                 then (Some (Inr ()), take_and_send (Inl [alt_format error]) r1)
                 else client_loop_udp zd js sid reporting as r1)"

text \<open>\<open>WssRelayRuntime::wait\<close>: the result of the loop, or that its task did not end by itself.\<close>

definition runtime_wait :: "anyhow + (anyhow + unit) \<Rightarrow> anyhow + unit" where
  "runtime_wait joined = and_then (with_context ''WSS relay task panicked'' joined) id"

text \<open>
  What \<open>start_*_runtime\<close> returns: the first value of the ready signal, unless the wait for
  it times out or the loop returned without sending one.
\<close>

definition await_ready :: "string \<Rightarrow> string \<Rightarrow> (anyhow + unit) list \<Rightarrow> bool \<Rightarrow> anyhow + unit" where
  "await_ready timed_out dropped sent in_time =
     (if \<not> in_time then Inl [timed_out, ''deadline has elapsed'']
      else case sent of [] \<Rightarrow> Inl [dropped, ''channel closed''] | r # _ \<Rightarrow> r)"

definition fresh_ready :: ready_end where
  "fresh_ready = \<lparr>re_pending = True, re_sent = []\<rparr>"

definition start_host_runtime ::
  "zstd_decoder \<Rightarrow> hs_json \<Rightarrow> string \<Rightarrow> u16 \<Rightarrow> bool \<Rightarrow> attempt list \<Rightarrow> bool \<Rightarrow> anyhow + unit" where
  "start_host_runtime zd js sid port reporting attempts in_time =
     await_ready ''WSS relay host registration timed out'' ''WSS relay host ready channel dropped''
       (re_sent (snd (host_loop zd js sid port reporting attempts fresh_ready))) in_time"

definition start_client_runtime ::
  "zstd_decoder \<Rightarrow> hs_json \<Rightarrow> string \<Rightarrow> anyhow + u16 \<Rightarrow> bool \<Rightarrow> attempt list \<Rightarrow> bool \<Rightarrow> anyhow + u16" where
  "start_client_runtime zd js sid free_port reporting attempts in_time =
     and_then free_port (\<lambda>local_port.
     and_then (await_ready ''WSS relay client ready timed out''
         ''WSS relay client ready channel dropped''
         (re_sent (snd (client_loop zd js sid local_port reporting attempts False fresh_ready)))
         in_time) (\<lambda>_. Inr local_port))"

definition start_client_runtime_udp ::
  "zstd_decoder \<Rightarrow> hs_json \<Rightarrow> string \<Rightarrow> anyhow + u16 \<Rightarrow> bool \<Rightarrow> attempt list \<Rightarrow> bool \<Rightarrow> anyhow + u16" where
  "start_client_runtime_udp zd js sid udp_port reporting attempts in_time =
     and_then udp_port (\<lambda>local_port.
     and_then (await_ready ''WSS relay UDP client ready timed out''
         ''WSS relay UDP client ready channel dropped''
         (re_sent (snd (client_loop_udp zd js sid reporting attempts fresh_ready)))
         in_time) (\<lambda>_. Inr local_port))"

section \<open>Lemmas\<close>

lemma reader_loop_inv:
  assumes "\<And>os m s c s'. P s \<Longrightarrow> handle os m s = Inr (c, s') \<Longrightarrow> P s'" and "P s"
  shows "P (snd (reader_loop re handle ms s))"
  using assms(2)
proof (induction ms arbitrary: s)
  case (Cons x ms)
  obtain os item where x: "x = (os, item)" by (cases x)
  show ?case
  proof (cases item)
    case (Received y)
    show ?thesis
    proof (cases y)
      case (Inr m)
      show ?thesis
      proof (cases "handle os m s")
        case h: (Inr r)
        obtain c s' where r: "r = (c, s')" by (cases r)
        have "handle os m s = Inr (c, s')" using h r by simp
        with Cons.prems have "P s'" by (rule assms(1))
        then show ?thesis using Cons.IH h r Inr Received x by (cases c) simp_all
      qed (use Cons.prems Inr Received x in simp)
    qed (use Cons.prems Received x in simp)
  qed (use Cons.prems x in simp)
qed simp

text \<open>The signal is pending with nothing sent, or sent once.\<close>

definition ready_ok :: "ready_end \<Rightarrow> bool" where
  "ready_ok r \<longleftrightarrow> (if re_pending r then re_sent r = [] else length (re_sent r) = 1)"

lemma ready_ok_take: "ready_ok r \<Longrightarrow> ready_ok (take_and_send x r)"
  by (simp add: ready_ok_def take_and_send_def)

lemma ready_ok_fresh [simp]: "ready_ok fresh_ready"
  by (simp add: ready_ok_def fresh_ready_def)

lemma ready_ok_length: "ready_ok r \<Longrightarrow> length (re_sent r) \<le> 1"
  by (simp add: ready_ok_def split: if_splits)

definition session_ready :: "bool \<Rightarrow> 'a ready_mux_scheme \<Rightarrow> bool" where
  "session_ready p h \<longleftrightarrow>
     rm_ready_sent h = (if p \<and> \<not> rm_ready_pending h then [Inr ()] else [])
     \<and> (rm_ready_pending h \<longrightarrow> p)"

lemma session_ready_ws [simp]:
  "session_ready p (ws_send m h) = session_ready p h"
  "session_ready p (close_stream i h) = session_ready p h"
  "session_ready p (send_to_stream i d h) = session_ready p h"
  "session_ready p (answer_ping f h) = session_ready p h"
  "session_ready p (report_pong r now f h) = session_ready p h"
  by (simp_all add: session_ready_def ws_send_def close_stream_def send_to_stream_def answer_ping_def
      report_pong_def Let_def split: option.split)

lemma session_ready_sent [simp]:
  "session_ready p ((h :: udp_mux)\<lparr>um_sent := xs\<rparr>) = session_ready p h"
  by (simp add: session_ready_def)

lemma session_ready_signal: "session_ready p h \<Longrightarrow> session_ready p (signal_ready h)"
  by (auto simp: session_ready_def signal_ready_def Let_def)

lemma session_ready_client:
  "session_ready p h \<Longrightarrow> client_message zd r now m h = Inr (c, h') \<Longrightarrow> session_ready p h'"
  by (cases m) (auto simp: and_then_eq_Inr client_frame_def session_ready_signal)

lemma session_ready_udp:
  "session_ready p h \<Longrightarrow> udp_message zd r now m h = Inr (c, h') \<Longrightarrow> session_ready p h'"
  by (cases m)
    (auto simp: and_then_eq_Inr udp_frame_def session_ready_signal split: option.splits)

lemma merge_ready_ok:
  "ready_ok r \<Longrightarrow> session_ready (re_pending r) h \<Longrightarrow> ready_ok (merge_ready h r)"
  by (auto simp: ready_ok_def session_ready_def merge_ready_def split: if_splits)

lemma host_session_ready: "ready_ok r \<Longrightarrow> ready_ok (fst (snd (host_session zd js sid port rep e r)))"
  by (simp add: host_session_def Let_def ready_ok_take split: sum.split)

lemma client_session_ready:
  assumes "ready_ok r"
  shows "ready_ok (fst (snd (client_session zd js sid port rep e held r)))"
proof -
  have "session_ready (re_pending r) (snd (reader_loop re
      (\<lambda>os. client_message zd rep (os_now os)) ms (empty_client (re_pending r))))" for re ms
    by (rule reader_loop_inv [where P = "session_ready (re_pending r)"])
      (erule (1) session_ready_client, simp add: session_ready_def)
  then show ?thesis
    by (simp add: client_session_def split_beta Let_def assms merge_ready_ok split: sum.split)
qed

lemma client_session_udp_ready:
  assumes "ready_ok r"
  shows "ready_ok (fst (snd (client_session_udp zd js sid rep e r)))"
proof -
  have "rm_ready_sent (empty_udp b) = []" "rm_ready_pending (empty_udp b) = b" for b
    by (simp_all add: empty_udp_def mux.defs)
  then have "session_ready (re_pending r) (snd (reader_loop re
      (\<lambda>os. udp_message zd rep (os_now os)) ms (empty_udp (re_pending r))))" for re ms
    by (intro reader_loop_inv [where P = "session_ready (re_pending r)"])
      (erule (1) session_ready_udp, simp add: session_ready_def)
  then show ?thesis
    by (simp add: client_session_udp_def split_beta Let_def assms merge_ready_ok split: sum.split)
qed

lemma host_loop_ready: "ready_ok r \<Longrightarrow> ready_ok (snd (host_loop zd js sid port rep as r))"
proof (induction as arbitrary: r)
  case (Cons a as)
  have "ready_ok (fst (snd (host_session zd js sid port rep (at_env a) r)))"
    by (rule host_session_ready [OF Cons.prems])
  then show ?case
    using Cons by (auto simp: split_beta ready_ok_take split: sum.split)
qed simp

lemma client_loop_ready: "ready_ok r \<Longrightarrow> ready_ok (snd (client_loop zd js sid port rep as held r))"
proof (induction as arbitrary: r held)
  case (Cons a as)
  have "ready_ok (fst (snd (client_session zd js sid port rep (at_env a) hd r)))" for hd
    by (rule client_session_ready [OF Cons.prems])
  then show ?case
    using Cons by (auto simp: split_beta Let_def ready_ok_take split: sum.split)
qed simp

lemma client_loop_udp_ready: "ready_ok r \<Longrightarrow> ready_ok (snd (client_loop_udp zd js sid rep as r))"
proof (induction as arbitrary: r)
  case (Cons a as)
  have "ready_ok (fst (snd (client_session_udp zd js sid rep (at_env a) r)))"
    by (rule client_session_udp_ready [OF Cons.prems])
  then show ?case
    using Cons by (auto simp: split_beta Let_def ready_ok_take split: sum.split)
qed simp

section \<open>Properties\<close>

text \<open>
  every runtime reports readiness at most once, however many sessions it runs and
  whatever they meet.
\<close>

theorem ready_reported_once:
  "length (re_sent (snd (host_loop zd js sid port rep as fresh_ready))) \<le> 1
   \<and> length (re_sent (snd (client_loop zd js sid port rep as False fresh_ready))) \<le> 1
   \<and> length (re_sent (snd (client_loop_udp zd js sid rep as fresh_ready))) \<le> 1"
  by (intro conjI ready_ok_length host_loop_ready client_loop_ready client_loop_udp_ready
      ready_ok_fresh)

text \<open>The rounds a host loop gets through, and the one that ends it.\<close>

lemma host_loop_steps:
  "\<not> at_cancelled_before a \<Longrightarrow> \<not> at_cancelled_after a \<Longrightarrow> \<not> host_hangs js sid a \<Longrightarrow>
     \<exists>r1. \<forall>as. host_loop zd js sid port rep (a # as) r = host_loop zd js sid port rep as r1"
  by (auto simp: split_beta split: sum.split)

lemma host_loop_skips:
  "list_all (\<lambda>b. \<not> at_cancelled_before b \<and> \<not> at_cancelled_after b \<and> \<not> host_hangs js sid b) before \<Longrightarrow>
     \<exists>r1. \<forall>as. host_loop zd js sid port rep (before @ as) r = host_loop zd js sid port rep as r1"
proof (induction before arbitrary: r)
  case (Cons b before)
  then obtain r1 where "\<And>as. host_loop zd js sid port rep (b # as) r = host_loop zd js sid port rep as r1"
    using host_loop_steps [of b js sid] by fastforce
  then show ?case using Cons by (simp del: host_loop.simps)
qed auto

text \<open>
  C26: the host runtime never ends with an error: whatever the relay server answers, it goes on
  reconnecting. As long as its sessions return and the token is not cancelled, it starts the
  next one. It returns as soon as it sees the token cancelled, before a session or after one
  that has returned, and then nothing follows; but a session that hangs in its data phase is
  the end of it: the loop does not return, whatever happens afterwards, the cancellation of
  its token included, and starts no other session.
\<close>

theorem host_loop_outcome:
  assumes "list_all (\<lambda>b. \<not> at_cancelled_before b \<and> \<not> at_cancelled_after b \<and> \<not> host_hangs js sid b) before"
  shows "fst (host_loop zd js sid port rep before r) = None
    \<and> (at_cancelled_before a \<or> \<not> host_hangs js sid a \<and> at_cancelled_after a \<longrightarrow>
         fst (host_loop zd js sid port rep (before @ a # later) r) = Some (Inr ()))
    \<and> (\<not> at_cancelled_before a \<and> host_hangs js sid a \<longrightarrow>
         fst (host_loop zd js sid port rep (before @ a # later) r) = None
         \<and> host_loop zd js sid port rep (before @ a # later) r = host_loop zd js sid port rep (before @ [a]) r)
    \<and> (\<forall>rounds e. fst (host_loop zd js sid port rep rounds r) \<noteq> Some (Inl e))"
proof -
  obtain r1 where skip: "\<And>as. host_loop zd js sid port rep (before @ as) r = host_loop zd js sid port rep as r1"
    using host_loop_skips [OF assms] by blast
  have "fst (host_loop zd js sid port rep rounds q) \<noteq> Some (Inl e)" for rounds q e
    by (induction rounds arbitrary: q) (auto simp: split_beta split: sum.split)
  moreover have "fst (host_loop zd js sid port rep before r) = None" using skip [of "[]"] by simp
  ultimately show ?thesis
    unfolding skip by (simp add: split_beta)
qed

text \<open>
  C25: the client runtime fails only with the error of a session that says "not found". The
  sessions before it had left the loop running, whatever their errors, and no session is
  started after it: further attempts would not change the result.
\<close>

theorem client_loop_gives_up:
  assumes "client_loop zd js sid port rep as held r = (Some (Inl e), r')"
  shows "contains (to_ascii_lowercase (alt_format e)) ''not found''
    \<and> (\<exists>before a after held1 r1. as = before @ a # after
        \<and> fst (client_loop zd js sid port rep before held r) = None
        \<and> \<not> at_cancelled_before a \<and> \<not> at_cancelled_after a
        \<and> fst (client_session zd js sid port rep (at_env a) held1 r1) = Inl e
        \<and> (\<forall>later. client_loop zd js sid port rep (before @ a # later) held r = (Some (Inl e), r')))"
  using assms
proof (induction as arbitrary: held r)
  case (Cons a as)
  let ?held = "held \<and> \<not> at_accept_ends a"
  obtain res r1 left where s: "client_session zd js sid port rep (at_env a) ?held r = (res, r1, left)"
    by (cases "client_session zd js sid port rep (at_env a) ?held r")
  have nc: "\<not> at_cancelled_before a" "\<not> at_cancelled_after a" "\<not> client_hangs js sid ?held a"
    using Cons.prems s by (auto simp: Let_def split: if_splits)
  consider (stop) "res = Inl e" "contains (to_ascii_lowercase (alt_format e)) ''not found''"
      "r' = take_and_send (Inl [alt_format e]) r1"
    | (go) held2 r2 where "\<And>bs. client_loop zd js sid port rep (a # bs) held r = client_loop zd js sid port rep bs held2 r2"
    using Cons.prems nc s by (cases res) (auto simp: Let_def split: if_splits)
  then show ?case
  proof cases
    case stop
    then have l: "client_loop zd js sid port rep ([] @ a # later) held r = (Some (Inl e), r')" for later
      using nc s by (simp add: Let_def)
    have f: "fst (client_session zd js sid port rep (at_env a) ?held r) = Inl e" using s stop by simp
    show ?thesis
      using stop(2) nc
      by (intro conjI exI [of _ "[]"] exI [of _ a] exI [of _ as] exI [of _ ?held] exI [of _ r] allI)
        (simp, simp, simp, simp, simp, rule f, rule l)
  next
    case go
    have "client_loop zd js sid port rep as held2 r2 = (Some (Inl e), r')" using Cons.prems go by simp
    from Cons.IH [OF this] obtain before b after held1 q where
      i: "contains (to_ascii_lowercase (alt_format e)) ''not found''" "as = before @ b # after"
        "fst (client_loop zd js sid port rep before held2 r2) = None"
        "\<not> at_cancelled_before b" "\<not> at_cancelled_after b"
        "fst (client_session zd js sid port rep (at_env b) held1 q) = Inl e"
        "\<And>later. client_loop zd js sid port rep (before @ b # later) held2 r2 = (Some (Inl e), r')"
      by blast
    then show ?thesis
      using go by (intro conjI exI [of _ "a # before"] exI [of _ b] exI [of _ after] exI [of _ held1] exI [of _ q] allI)
        (simp_all del: client_loop.simps)
  qed
qed simp

text \<open>A relay that answers nothing, to instantiate the properties.\<close>

definition silent_env :: env where
  "silent_env = \<lparr>se_connect = Elapsed, se_send = Inr (), se_ack = Timely None,
     se_hello = Inr (), se_bind = Inr (), se_items = []\<rparr>"

definition idle_json :: hs_json where
  "idle_json = \<lparr>to_json = (\<lambda>m. Inr ''{}''), from_json = (\<lambda>t. Inr (HsError t)), debug_str = id\<rparr>"

text \<open>A relay that refuses every session with a message.\<close>

definition refusing_env :: "string \<Rightarrow> env" where
  "refusing_env t = \<lparr>se_connect = Timely (Inr ()), se_send = Inr (),
     se_ack = Timely (Some (Inr (WsText t))), se_hello = Inr (), se_bind = Inr (), se_items = []\<rparr>"

definition plain_attempt :: "env \<Rightarrow> attempt" where
  "plain_attempt e = \<lparr>at_cancelled_before = False, at_cancelled_after = False,
     at_accept_ends = False, at_hangs = False, at_env = e\<rparr>"

lemma plain_attempt_simps [simp]:
  "\<not> at_cancelled_before (plain_attempt e)" "\<not> at_cancelled_after (plain_attempt e)"
  "\<not> at_accept_ends (plain_attempt e)" "\<not> at_hangs (plain_attempt e)" "at_env (plain_attempt e) = e"
  by (simp_all add: plain_attempt_def)

lemma refusing_handshakes:
  "host_handshake idle_json sid (refusing_env t) = Inl [''WSS relay error: '' @ t]"
  "client_handshake idle_json sid (refusing_env t) = Inl [''WSS relay error: '' @ t]"
  "udp_handshake idle_json sid (refusing_env t) = Inl [''relay error: '' @ t]"
  by (simp_all add: host_handshake_def client_handshake_def udp_handshake_def connect_and_ack_def
      timely_def refusing_env_def idle_json_def)

theorem client_loop_gives_up_witness:
  "contains (to_ascii_lowercase (alt_format [''WSS relay error: Room Not Found''])) ''not found''"
proof -
  have "contains (to_ascii_lowercase ''WSS relay error: Room Not Found'') ''not found''"
    by code_simp
  then have "client_loop Inr idle_json [] 1 True [plain_attempt (refusing_env ''Room Not Found'')]
      False fresh_ready = (Some (Inl [''WSS relay error: Room Not Found'']),
        take_and_send (Inl [alt_format [''WSS relay error: Room Not Found'']]) fresh_ready)"
    by (simp add: client_session_def refusing_handshakes client_hangs_def)
  from client_loop_gives_up [OF this] show ?thesis by blast
qed

text \<open>
  when the first session cannot be established, every \<open>start\<close> function reports that
  session's error; but the UDP runtime then stops, while the host and the TCP client
  runtimes the caller has no handle on go on reconnecting until their token is cancelled.
\<close>

theorem failed_start_leaves_loop_running:
  assumes "host_handshake js sid (at_env ah) = Inl eh" and "client_handshake js sid (at_env ac) = Inl ec"
    and "udp_handshake js sid (at_env au) = Inl eu"
    and "\<not> contains (to_ascii_lowercase (alt_format ec)) ''not found''"
    and "\<And>a. a \<in> {ah, ac, au} \<Longrightarrow> \<not> at_cancelled_before a \<and> \<not> at_cancelled_after a"
  shows "start_host_runtime zd js sid port rep [ah] True = Inl [alt_format eh]
    \<and> fst (host_loop zd js sid port rep [ah] fresh_ready) = None
    \<and> start_client_runtime zd js sid (Inr port) rep [ac] True = Inl [alt_format ec]
    \<and> fst (client_loop zd js sid port rep [ac] False fresh_ready) = None
    \<and> start_client_runtime_udp zd js sid (Inr port) rep [au] True = Inl [alt_format eu]
    \<and> fst (client_loop_udp zd js sid rep [au] fresh_ready) = Some (Inr ())"
proof -
  have "\<not> at_cancelled_before ah" "\<not> at_cancelled_after ah" "\<not> at_cancelled_before ac"
    "\<not> at_cancelled_after ac" "\<not> at_cancelled_before au" "\<not> at_cancelled_after au"
    using assms(5) by blast+
  note nc = this
  have "host_loop zd js sid port rep [ah] fresh_ready =
      (None, take_and_send (Inl [alt_format eh]) fresh_ready)"
    using nc assms(1) by (simp add: host_session_def host_hangs_def)
  moreover have "client_loop zd js sid port rep [ac] False fresh_ready =
      (None, take_and_send (Inl [alt_format ec]) fresh_ready)"
    using nc assms(2,4) by (simp add: client_session_def client_hangs_def)
  moreover have "client_loop_udp zd js sid rep [au] fresh_ready =
      (Some (Inr ()), take_and_send (Inl [alt_format eu]) fresh_ready)"
    using nc assms(3) by (simp add: client_session_udp_def fresh_ready_def udp_hangs_def)
  ultimately show ?thesis
    by (simp only: start_host_runtime_def start_client_runtime_def start_client_runtime_udp_def)
      (simp add: await_ready_def take_and_send_def fresh_ready_def)
qed

theorem failed_start_leaves_loop_running_witness:
  "fst (client_loop Inr idle_json [] 1 True [plain_attempt (refusing_env ''busy'')] False fresh_ready)
     = None"
proof -
  have "\<not> contains (to_ascii_lowercase ''WSS relay error: busy'') ''not found''" by code_simp
  then show ?thesis
    using failed_start_leaves_loop_running [of idle_json "[]" "plain_attempt (refusing_env ''busy'')"
        "[''WSS relay error: busy'']" "plain_attempt (refusing_env ''busy'')"
        "[''WSS relay error: busy'']" "plain_attempt (refusing_env ''busy'')"
        "[''relay error: busy'']" Inr 1 True]
    by (simp add: refusing_handshakes)
qed

text \<open>What a session does while an accept task left behind holds its port, and the loop around it.\<close>

lemma client_session_held:
  "client_session zd js sid port rep e True r =
     (case client_handshake js sid e of
        Inl err \<Rightarrow> (Inl err, r, [])
      | Inr _ \<Rightarrow> (Inl [bind_context port, ''Address already in use''], r, [WriteTask, PingTask]))"
  by (simp add: client_session_def split: sum.split)

lemma client_loop_held_step:
  assumes "fst (client_loop zd js sid port rep [b] True r) = None" and "\<not> at_accept_ends b"
  shows "\<exists>q. \<forall>as. client_loop zd js sid port rep (b # as) True r = client_loop zd js sid port rep as True q"
  using assms
  by (cases "client_handshake js sid (at_env b)")
    (auto simp: client_session_held client_hangs_def Let_def split: if_splits)

lemma client_loop_held_prefix:
  "fst (client_loop zd js sid port rep before True r) = None \<Longrightarrow> \<forall>b \<in> set before. \<not> at_accept_ends b \<Longrightarrow>
     \<exists>q. \<forall>as. client_loop zd js sid port rep (before @ as) True r = client_loop zd js sid port rep as True q"
proof (induction before arbitrary: r)
  case (Cons b before)
  have "fst (client_loop zd js sid port rep [b] True r) = None"
    using Cons.prems
    by (cases "client_handshake js sid (at_env b)")
      (auto simp: client_session_held client_hangs_def Let_def split: if_splits)
  with Cons.prems(2) obtain q where q: "\<And>as. client_loop zd js sid port rep (b # as) True r = client_loop zd js sid port rep as True q"
    using client_loop_held_step by (metis list.set_intros(1))
  then show ?case using Cons.IH [of q] Cons.prems by (simp del: client_loop.simps)
qed auto

text \<open>
  C27: a client session that ends with a read or decoding error leaves its accept task, which
  holds the local port. Until a local connection ends that task, each session the loop starts
  afterwards runs with the port held: it fails, with the error of its handshake or, when that
  succeeds, because the port is in use, it reads nothing the relay sends, and leaves its
  writer and keepalive tasks behind as well.
\<close>

theorem read_error_blocks_reconnect:
  assumes "client_session zd js sid port rep (at_env a) False r = (Inl err, r', left)"
    and "client_handshake js sid (at_env a) = Inr ()" and "se_bind (at_env a) = Inr ()"
    and "\<not> contains (to_ascii_lowercase (alt_format err)) ''not found''"
    and "\<not> at_cancelled_before a" and "\<not> at_cancelled_after a" and "\<not> at_hangs a"
    and "\<forall>b \<in> set (before @ [b]). \<not> at_accept_ends b"
    and "fst (client_loop zd js sid port rep (a # before) False r) = None"
  shows "left = [WriteTask, PingTask, AcceptTask]
    \<and> (\<exists>q. (\<forall>later. client_loop zd js sid port rep (a # before @ b # later) False r =
               client_loop zd js sid port rep (b # later) True q)
         \<and> client_session zd js sid port rep (at_env b) True q =
             (case client_handshake js sid (at_env b) of
                Inl e \<Rightarrow> (Inl e, q, [])
              | Inr _ \<Rightarrow> (Inl [bind_context port, ''Address already in use''], q, [WriteTask, PingTask])))"
proof -
  have left: "left = [WriteTask, PingTask, AcceptTask]"
    using assms(1-3) by (auto simp: client_session_def left_behind_def split: prod.splits)
  have start: "client_loop zd js sid port rep (a # as) False r =
      client_loop zd js sid port rep as True (take_and_send (Inl [alt_format err]) r')" for as
    using assms(1,4-7) by (simp add: left client_hangs_def)
  have "fst (client_loop zd js sid port rep before True (take_and_send (Inl [alt_format err]) r')) = None"
    using assms(9) by (simp only: start)
  then obtain q where q: "\<And>as. client_loop zd js sid port rep (before @ as) True (take_and_send (Inl [alt_format err]) r') =
      client_loop zd js sid port rep as True q"
    using client_loop_held_prefix assms(8) by (metis Un_iff set_append)
  show ?thesis
    using left client_session_held unfolding start q by blast
qed

definition broken_env :: env where
  "broken_env = \<lparr>se_connect = Timely (Inr ()), se_send = Inr (),
     se_ack = Timely (Some (Inr (WsText []))), se_hello = Inr (), se_bind = Inr (),
     se_items = [(sample_os, Received (Inl [''reset'']))]\<rparr>"

definition linked_json :: hs_json where
  "linked_json = idle_json\<lparr>from_json := (\<lambda>t. Inr (Linked t))\<rparr>"

lemma broken_session:
  "client_handshake linked_json [] broken_env = Inr ()"
  "client_session Inr linked_json [] 1 True broken_env False fresh_ready =
     (Inl [''WSS relay client read error'', ''reset''], fresh_ready, [WriteTask, PingTask, AcceptTask])"
proof -
  show h: "client_handshake linked_json [] broken_env = Inr ()"
    by (simp add: client_handshake_def connect_and_ack_def timely_def broken_env_def linked_json_def
        idle_json_def)
  show "client_session Inr linked_json [] 1 True broken_env False fresh_ready =
     (Inl [''WSS relay client read error'', ''reset''], fresh_ready, [WriteTask, PingTask, AcceptTask])"
    unfolding client_session_def h
    by (simp add: broken_env_def left_behind_def merge_ready_def fresh_ready_def)
qed

theorem read_error_blocks_reconnect_witness:
  "\<exists>q. client_session Inr linked_json [] 1 True broken_env True q =
     (Inl [bind_context 1, ''Address already in use''], q, [WriteTask, PingTask])"
proof -
  let ?e = "[''WSS relay client read error'', ''reset'']" and ?a = "plain_attempt broken_env"
  have "\<not> contains (to_ascii_lowercase ''WSS relay client read error: reset'') ''not found''"
    by code_simp
  then have nf: "\<not> contains (to_ascii_lowercase (alt_format ?e)) ''not found''" by simp
  have a: "client_session Inr linked_json [] 1 True (at_env ?a) False fresh_ready =
      (Inl ?e, fresh_ready, [WriteTask, PingTask, AcceptTask])"
    "client_handshake linked_json [] (at_env ?a) = Inr ()" "se_bind (at_env ?a) = Inr ()"
    using broken_session by (simp_all add: broken_env_def)
  have "fst (client_loop Inr linked_json [] 1 True [?a] False fresh_ready) = None"
    using nf by (simp add: broken_session client_hangs_def)
  from read_error_blocks_reconnect [OF a nf _ _ _ _ this, of ?a] show ?thesis
    by (simp add: broken_session) blast
qed

theorem host_loop_outcome_witness:
  "fst (host_loop Inr idle_json [] 1 True [plain_attempt silent_env, (plain_attempt silent_env)\<lparr>at_cancelled_after := True\<rparr>]
     fresh_ready) = Some (Inr ())"
  using host_loop_outcome [of idle_json "[]" "[plain_attempt silent_env]" Inr 1 True fresh_ready
      "(plain_attempt silent_env)\<lparr>at_cancelled_after := True\<rparr>" "[]"]
  by (simp add: host_hangs_def)

end
