(* ===== verification/Wss_Backpressure.thy ===== *)
theory Wss_Backpressure
  imports Wss_Mux
begin

text \<open>
  One TCP stream of a relay session at the granularity of its \<open>await\<close> points: the reader
  loop's \<open>FRAME_DATA\<close> and \<open>FRAME_CLOSE\<close> arms, \<open>pump_channel_to_writer\<close>, the end of
  \<open>pump_reader_to_ws\<close>, the mutex of the stream table and the bounded channel between them
  (\<open>wss_relay.rs\<close>).

  In \<open>if let Some(tx) = streams.lock().await.get(&id).cloned() { tx.send(..).await }\<close> the guard
  of the mutex is a temporary of the scrutinee: it is held until the end of the body, across
  the \<open>send\<close>. And \<open>pump_channel_to_writer\<close> owns the receiver \<open>rx\<close> until it returns, that is
  until after it has locked the table.
\<close>

section \<open>State and steps\<close>

definition TCP_WRITE_QUEUE :: nat where
  "TCP_WRITE_QUEUE = 64"

datatype reader_pc =
    RSelect \<comment> \<open>in the \<open>select!\<close> between cancellation and the next message\<close>
  | RData bytes \<comment> \<open>a DATA frame, at \<open>streams.lock().await\<close>\<close>
  | RSending bytes \<comment> \<open>at \<open>tx.send(payload).await\<close>, with the guard\<close>
  | RClose \<comment> \<open>a CLOSE or ERROR frame, at \<open>streams.lock().await\<close>\<close>
  | RLeft

datatype writer_pc =
    WSelect \<comment> \<open>in the \<open>select!\<close> between cancellation and \<open>rx.recv()\<close>\<close>
  | WWriting bytes \<comment> \<open>at \<open>writer.write_all(&payload).await\<close>\<close>
  | WEnding \<comment> \<open>after the loop, at \<open>streams.lock().await\<close>\<close>
  | WReturned

record link =
  lk_locked :: bool \<comment> \<open>the guard that outlives a single step, which only the reader loop keeps\<close>
  lk_entry :: bool \<comment> \<open>the stream is in the table, with the channel's sender\<close>
  lk_queue :: "bytes list"
  lk_reader :: reader_pc
  lk_writer :: writer_pc
  lk_pump :: bool \<comment> \<open>\<open>pump_reader_to_ws\<close> runs\<close>
  lk_taken :: "bytes list" \<comment> \<open>received by the writer and handed to the socket in this order\<close>
  lk_cancelled :: bool

definition new_link :: link where
  "new_link = \<lparr>lk_locked = False, lk_entry = True, lk_queue = [], lk_reader = RSelect,
     lk_writer = WSelect, lk_pump = True, lk_taken = [], lk_cancelled = False\<rparr>"

definition lock_table :: "bytes \<Rightarrow> link \<Rightarrow> link" where
  "lock_table p s =
     (if lk_entry s then s\<lparr>lk_locked := True, lk_reader := RSending p\<rparr>
      else s\<lparr>lk_reader := RSelect\<rparr>)"

definition payload_sent :: "bytes \<Rightarrow> link \<Rightarrow> link" where
  "payload_sent p s = s\<lparr>lk_queue := lk_queue s @ [p], lk_locked := False, lk_reader := RSelect\<rparr>"

definition writer_returns :: "link \<Rightarrow> link" where
  "writer_returns s = s\<lparr>lk_entry := False, lk_writer := WReturned\<rparr>"

inductive lk_step :: "link \<Rightarrow> link \<Rightarrow> bool" where
  lk_data: "lk_reader s = RSelect \<Longrightarrow> lk_step s (s\<lparr>lk_reader := RData p\<rparr>)"
| lk_close: "lk_reader s = RSelect \<Longrightarrow> lk_step s (s\<lparr>lk_reader := RClose\<rparr>)"
| lk_leave: "lk_reader s = RSelect \<Longrightarrow> lk_step s (s\<lparr>lk_reader := RLeft\<rparr>)"
| lk_lock: "lk_reader s = RData p \<Longrightarrow> \<not> lk_locked s \<Longrightarrow> lk_step s (lock_table p s)"
| lk_send: "lk_reader s = RSending p \<Longrightarrow> lk_writer s \<noteq> WReturned \<Longrightarrow>
     length (lk_queue s) < TCP_WRITE_QUEUE \<Longrightarrow> lk_step s (payload_sent p s)"
| lk_send_err: "lk_reader s = RSending p \<Longrightarrow> lk_writer s = WReturned \<Longrightarrow>
     lk_step s (s\<lparr>lk_locked := False, lk_reader := RSelect\<rparr>)"
| lk_closed: "lk_reader s = RClose \<Longrightarrow> \<not> lk_locked s \<Longrightarrow>
     lk_step s (s\<lparr>lk_entry := False, lk_reader := RSelect\<rparr>)"
| lk_recv: "lk_writer s = WSelect \<Longrightarrow> lk_queue s = p # ps \<Longrightarrow>
     lk_step s (s\<lparr>lk_queue := ps, lk_taken := lk_taken s @ [p], lk_writer := WWriting p\<rparr>)"
| lk_write: "lk_writer s = WWriting p \<Longrightarrow>
     lk_step s (s\<lparr>lk_writer := WSelect\<rparr>)"
| lk_write_err: "lk_writer s = WWriting p \<Longrightarrow> lk_step s (s\<lparr>lk_writer := WEnding\<rparr>)"
| lk_writer_cancel: "lk_writer s = WSelect \<Longrightarrow> lk_cancelled s \<Longrightarrow>
     lk_step s (s\<lparr>lk_writer := WEnding\<rparr>)"
| lk_no_sender: "lk_writer s = WSelect \<Longrightarrow> lk_queue s = [] \<Longrightarrow> \<not> lk_entry s \<Longrightarrow>
     (\<And>p. lk_reader s \<noteq> RSending p) \<Longrightarrow> lk_step s (s\<lparr>lk_writer := WEnding\<rparr>)"
| lk_writer_end: "lk_writer s = WEnding \<Longrightarrow> \<not> lk_locked s \<Longrightarrow> lk_step s (writer_returns s)"
| lk_pump_end: "lk_pump s \<Longrightarrow> \<not> lk_locked s \<Longrightarrow>
     lk_step s (s\<lparr>lk_entry := False, lk_pump := False\<rparr>)"
| lk_cancel: "lk_step s (s\<lparr>lk_cancelled := True\<rparr>)"

inductive_cases lk_stepE: "lk_step s s'"

inductive lk_reachable :: "link \<Rightarrow> bool" where
  lr_init: "lk_reachable new_link"
| lr_step: "lk_reachable s \<Longrightarrow> lk_step s s' \<Longrightarrow> lk_reachable s'"

lemmas lk_ops = lock_table_def payload_sent_def writer_returns_def

section \<open>The invariant\<close>

definition lk_inv :: "link \<Rightarrow> bool" where
  "lk_inv s \<longleftrightarrow> (lk_locked s \<longleftrightarrow> (\<exists>p. lk_reader s = RSending p)) \<and> (lk_locked s \<longrightarrow> lk_entry s)
     \<and> length (lk_queue s) \<le> TCP_WRITE_QUEUE \<and> (lk_writer s = WReturned \<longrightarrow> \<not> lk_entry s)"

lemma lk_inv_step: "lk_step s s' \<Longrightarrow> lk_inv s \<Longrightarrow> lk_inv s'"
  by (erule lk_stepE) (auto simp: lk_inv_def lk_ops)

lemma lk_reachable_inv: "lk_reachable s \<Longrightarrow> lk_inv s"
proof (induction rule: lk_reachable.induct)
  case lr_init
  then show ?case by (simp add: lk_inv_def new_link_def)
qed (rule lk_inv_step)

lemma lk_reachable_steps: "lk_step\<^sup>*\<^sup>* s s' \<Longrightarrow> lk_reachable s \<Longrightarrow> lk_reachable s'"
  by (induction rule: rtranclp_induct) (auto intro: lr_step)

section \<open>The deadlock\<close>

definition deadlocked :: "link \<Rightarrow> bool" where
  "deadlocked s \<longleftrightarrow> (\<exists>p. lk_reader s = RSending p) \<and> lk_writer s = WEnding \<and> lk_locked s
     \<and> TCP_WRITE_QUEUE \<le> length (lk_queue s)"

lemma deadlocked_step: "lk_step s s' \<Longrightarrow> deadlocked s \<Longrightarrow> s' = s\<lparr>lk_cancelled := True\<rparr>"
  by (erule lk_stepE) (auto simp: deadlocked_def)

lemma deadlocked_steps:
  "lk_step\<^sup>*\<^sup>* s s' \<Longrightarrow> deadlocked s \<Longrightarrow> s' = s \<or> s' = s\<lparr>lk_cancelled := True\<rparr>"
proof (induction rule: rtranclp_induct)
  case (step y z)
  moreover from this have "deadlocked y" by (auto simp: deadlocked_def)
  ultimately show ?case using deadlocked_step [of y z] by auto
qed simp

text \<open>Filling the channel while the writer is not scheduled, or waits in \<open>write_all\<close>.\<close>

lemma fill_queue:
  assumes "lk_entry s" "\<not> lk_locked s" "lk_reader s = RSelect" "lk_writer s \<noteq> WReturned"
    and "length (lk_queue s) + length ps \<le> TCP_WRITE_QUEUE"
  shows "lk_step\<^sup>*\<^sup>* s (s\<lparr>lk_queue := lk_queue s @ ps\<rparr>)"
  using assms(5)
proof (induction ps rule: rev_induct)
  case (snoc p ps)
  let ?s = "s\<lparr>lk_queue := lk_queue s @ ps\<rparr>"
  have "lk_step\<^sup>*\<^sup>* s ?s" using snoc by simp
  moreover have "lk_step ?s (?s\<lparr>lk_reader := RData p\<rparr>)"
    by (rule lk_data) (simp add: assms)
  moreover have "lk_step (?s\<lparr>lk_reader := RData p\<rparr>) (?s\<lparr>lk_locked := True, lk_reader := RSending p\<rparr>)"
    using lk_lock [of "?s\<lparr>lk_reader := RData p\<rparr>" p] assms by (simp add: lock_table_def)
  moreover have "lk_step (?s\<lparr>lk_locked := True, lk_reader := RSending p\<rparr>)
      (s\<lparr>lk_queue := lk_queue s @ ps @ [p]\<rparr>)"
    using lk_send [of "?s\<lparr>lk_locked := True, lk_reader := RSending p\<rparr>" p] assms snoc.prems
    by (cases s) (simp add: payload_sent_def)
  ultimately show ?case by (simp add: rtranclp.rtrancl_into_rtrancl)
qed simp

lemma block_reader:
  assumes "lk_entry s" "\<not> lk_locked s" "lk_reader s = RSelect"
  shows "lk_step\<^sup>*\<^sup>* s (s\<lparr>lk_locked := True, lk_reader := RSending p\<rparr>)"
proof -
  have "lk_step s (s\<lparr>lk_reader := RData p\<rparr>)" by (rule lk_data) (rule assms)
  moreover have "lk_step (s\<lparr>lk_reader := RData p\<rparr>) (s\<lparr>lk_locked := True, lk_reader := RSending p\<rparr>)"
    using lk_lock [of "s\<lparr>lk_reader := RData p\<rparr>" p] assms by (simp add: lock_table_def)
  ultimately show ?thesis by simp
qed

text \<open>
  C12: a session can hang beyond rescue. When the channel of a stream is full (64 payloads the
  game has not taken yet) and one more DATA frame arrives, the reader loop waits for a place
  in the channel and keeps the stream table locked; if the session is cancelled then, the
  writer pump leaves its loop and waits for the table while it still owns the receiver. From
  there no step of any task changes anything: the session never ends, its tasks are never
  freed and no other stream of it is served.
\<close>

theorem cancelled_session_hangs:
  assumes "length ps = TCP_WRITE_QUEUE"
  shows "\<exists>s. lk_step\<^sup>*\<^sup>* new_link s \<and> lk_cancelled s \<and> lk_queue s = ps
     \<and> lk_reader s = RSending p \<and> lk_writer s = WEnding \<and> (\<forall>s'. lk_step\<^sup>*\<^sup>* s s' \<longrightarrow> s' = s)"
proof -
  let ?full = "new_link\<lparr>lk_queue := ps\<rparr>"
  let ?blocked = "?full\<lparr>lk_locked := True, lk_reader := RSending p\<rparr>"
  let ?stuck = "?blocked\<lparr>lk_cancelled := True, lk_writer := WEnding\<rparr>"
  have "lk_step\<^sup>*\<^sup>* new_link ?full"
    using fill_queue [of new_link ps] by (simp add: new_link_def assms)
  also have "lk_step\<^sup>*\<^sup>* ?full ?blocked"
    by (rule block_reader) (simp_all add: new_link_def)
  also have "lk_step ?blocked (?blocked\<lparr>lk_cancelled := True\<rparr>)" by (rule lk_cancel)
  also have "lk_step (?blocked\<lparr>lk_cancelled := True\<rparr>) ?stuck"
    using lk_writer_cancel [of "?blocked\<lparr>lk_cancelled := True\<rparr>"] by (simp add: new_link_def)
  finally have "lk_step\<^sup>*\<^sup>* new_link ?stuck" .
  moreover have "deadlocked ?stuck" by (simp add: deadlocked_def assms)
  then have "s' = ?stuck" if "lk_step\<^sup>*\<^sup>* ?stuck s'" for s'
    using deadlocked_steps [OF that] by auto
  ultimately show ?thesis by (intro exI [of _ ?stuck]) simp
qed

theorem cancelled_session_hangs_witness:
  "\<exists>s. lk_step\<^sup>*\<^sup>* new_link s \<and> lk_cancelled s \<and> lk_reader s = RSending [1]
     \<and> (\<forall>s'. lk_step\<^sup>*\<^sup>* s s' \<longrightarrow> s' = s)"
  using cancelled_session_hangs [of "replicate TCP_WRITE_QUEUE [0]" "[1]"] by auto

text \<open>
  That is the only way the reader loop gets stuck: in every reachable state where it waits for a
  place in the channel, either the deadlock is there, or a write of the payload in flight and
  at most two steps of the writer let the frame through.
\<close>

theorem sending_gets_through:
  assumes "lk_reachable s" and "lk_reader s = RSending p" and "\<not> deadlocked s"
  shows "\<exists>s'. lk_step\<^sup>*\<^sup>* s s' \<and> lk_reader s' = RSelect \<and> \<not> lk_locked s'"
proof -
  have inv: "lk_inv s" using assms(1) by (rule lk_reachable_inv)
  have send: "\<exists>s'. lk_step t s' \<and> lk_reader s' = RSelect \<and> \<not> lk_locked s'"
    if "lk_reader t = RSending p" "lk_writer t \<noteq> WReturned" "length (lk_queue t) < TCP_WRITE_QUEUE" for t
    using lk_send [OF that] by (auto simp: payload_sent_def)
  have recv: "\<exists>s'. lk_step\<^sup>*\<^sup>* t s' \<and> lk_reader s' = RSelect \<and> \<not> lk_locked s'"
    if t: "lk_inv t" "lk_reader t = RSending p" "lk_writer t = WSelect" for t
  proof (cases "lk_queue t")
    case Nil
    then show ?thesis using send [of t] t by (auto simp: TCP_WRITE_QUEUE_def)
  next
    case (Cons q qs)
    have "length qs < TCP_WRITE_QUEUE" using t(1) Cons by (simp add: lk_inv_def)
    then show ?thesis
      using lk_recv [OF t(3) Cons] send [of "t\<lparr>lk_queue := qs, lk_taken := lk_taken t @ [q], lk_writer := WWriting q\<rparr>"] t(2)
      by (auto intro: converse_rtranclp_into_rtranclp)
  qed
  show ?thesis
  proof (cases "lk_writer s")
    case WSelect
    then show ?thesis using recv [OF inv assms(2)] by blast
  next
    case (WWriting q)
    let ?t = "s\<lparr>lk_writer := WSelect\<rparr>"
    have "lk_step s ?t" using WWriting by (rule lk_write)
    moreover have "lk_inv ?t" using lk_inv_step [OF calculation inv] .
    ultimately show ?thesis
      using recv [of ?t] assms(2) by (auto intro: converse_rtranclp_into_rtranclp)
  next
    case WEnding
    then have "length (lk_queue s) < TCP_WRITE_QUEUE"
      using assms(2,3) inv by (auto simp: deadlocked_def lk_inv_def)
    then show ?thesis using send [of s] assms(2) WEnding by auto
  next
    case WReturned
    then show ?thesis using assms(2) inv by (auto simp: lk_inv_def)
  qed
qed

section \<open>Refinement of the stream table\<close>

text \<open>
  The table and the queue as \<open>Wss_Mux\<close> has them: unbounded channels and operations without
  intermediate states. A payload counts as written from the moment the writer has it.
\<close>

definition lk_abs :: "u64 \<Rightarrow> link \<Rightarrow> mux" where
  "lk_abs sid s = empty_mux\<lparr>
     mx_streams := (if lk_entry s then [sid \<mapsto> 0] else Map.empty),
     mx_chans := [\<lparr>ch_udp = False, ch_queue = lk_queue s,
        ch_written = lk_taken s, ch_alive = (lk_writer s \<noteq> WReturned)\<rparr>]\<rparr>"

text \<open>
  C11: the bounded channel and the lock refine the stream table the session model uses. Each
  step of the detailed tasks is, on the table, either nothing or one operation of it: a
  delivery to the stream, the writer taking the next payload, the removal of the entry, or
  the writer's removal of the entry with the end of the receiver. The payloads the writer
  has taken and those still queued are the delivered ones in order, and the queue never
  exceeds the 64 places of the channel.
\<close>

theorem stream_table_refined:
  assumes "lk_reachable s" and "lk_step s s'"
  shows "length (lk_queue s) \<le> TCP_WRITE_QUEUE
    \<and> (lk_abs sid s' = lk_abs sid s
       \<or> (\<exists>p. lk_reader s = RSending p \<and> lk_abs sid s' = send_to_stream sid p (lk_abs sid s))
       \<or> lk_abs sid s' = writer_next 0 (lk_abs sid s)
       \<or> lk_abs sid s' = close_stream sid (lk_abs sid s)
       \<or> lk_abs sid s' = drop_receiver 0 (close_stream sid (lk_abs sid s)))"
proof -
  have inv: "lk_inv s" using assms(1) by (rule lk_reachable_inv)
  note abs_defs = lk_abs_def lk_ops send_to_stream_def writer_next_def close_stream_def
    drop_receiver_def Let_def
  show ?thesis
    using assms(2) inv by (cases rule: lk_step.cases) (auto simp: abs_defs lk_inv_def)
qed

theorem stream_table_refined_witness:
  "let s = new_link\<lparr>lk_locked := True, lk_reader := RSending [1]\<rparr>; s' = payload_sent [1] s
   in lk_reachable s \<and> lk_step s s' \<and> length (lk_queue s) \<le> TCP_WRITE_QUEUE
     \<and> lk_abs 5 s' \<noteq> lk_abs 5 s"
proof -
  let ?s = "new_link\<lparr>lk_locked := True, lk_reader := RSending [1]\<rparr>"
  have "lk_step\<^sup>*\<^sup>* new_link ?s" by (rule block_reader) (simp_all add: new_link_def)
  then have r: "lk_reachable ?s" using lr_init by (rule lk_reachable_steps)
  have st: "lk_step ?s (payload_sent [1] ?s)"
    by (rule lk_send) (simp_all add: new_link_def TCP_WRITE_QUEUE_def)
  have "length (lk_queue ?s) \<le> TCP_WRITE_QUEUE" using stream_table_refined [OF r st, of 5] by blast
  moreover have "lk_abs 5 (payload_sent [1] ?s) \<noteq> lk_abs 5 ?s"
    by (simp add: lk_abs_def payload_sent_def new_link_def empty_mux_def)
  ultimately show ?thesis using r st by simp
qed

theorem sending_gets_through_witness:
  "\<exists>s'. lk_step\<^sup>*\<^sup>* (new_link\<lparr>lk_locked := True, lk_reader := RSending [1]\<rparr>) s' \<and> lk_reader s' = RSelect"
proof -
  let ?s = "new_link\<lparr>lk_locked := True, lk_reader := RSending [1]\<rparr>"
  have "lk_step\<^sup>*\<^sup>* new_link ?s" by (rule block_reader) (simp_all add: new_link_def)
  then have r: "lk_reachable ?s" using lr_init by (rule lk_reachable_steps)
  show ?thesis
    using sending_gets_through [OF r, of "[1]"] by (auto simp: deadlocked_def new_link_def)
qed

end
