(* ===== verification/Models.thy ===== *)
theory Models
  imports Net_Addr
begin

text \<open>
  The data model of \<open>models.rs\<close>: the enumerations, \<open>PeerInfo\<close>, \<open>NetworkStatus\<close>, the
  probe results and the test server's description; the other reports are in \<open>Reports\<close>. Texts built by \<open>format!\<close> are kept as
  their template and arguments, with \<open>Alt\<close> for \<open>format!("{error:#}")\<close> of an error chain;
  no decision of the modelled code reads them back. Templates the source writes in Russian
  are given in an English rendering.
\<close>

datatype msg = Lit string | Fmt string "msg list" | Alt "msg list"

type_synonym error_chain = "msg list" \<comment> \<open>\<open>anyhow::Error\<close>, outermost context first\<close>

datatype session_mode = ModeIdle | ModeHost | ModeClient

datatype connection_state =
  Idle | Starting | WaitingForPeer | Punching | Connecting | Hosting | Connected | Error

datatype transport_kind = TkUnknown | TkDirect | TkRelay | TkReverseTunnel | TkMeshFallback

datatype local_target_state = TargetUnknown | TargetReachable | TargetUnreachable

record peer_info =
  pi_peer_id :: string
  pi_addr :: string
  pi_connected :: bool
  pi_ping_ms :: "u64 option"
  pi_transport :: "string option"

record network_status =
  ns_mode :: session_mode
  ns_state :: connection_state
  ns_room_code :: "string option"
  ns_udp_bind_addr :: "string option"
  ns_local_udp_addr :: "string option"
  ns_public_udp_addr :: "string option"
  ns_public_join_address :: "string option"
  ns_local_game_port :: "u16 option"
  ns_local_client_port :: "u16 option"
  ns_minecraft_version :: "string option"
  ns_e4mc_domain :: "string option"
  ns_e4mc_verified :: bool
  ns_transport_kind :: transport_kind
  ns_local_target_state :: local_target_state
  ns_transport_path :: "string option"
  ns_geyser_enabled :: bool
  ns_bedrock_port :: "u16 option"
  ns_password_protected :: bool
  ns_peer_count :: nat
  ns_max_players :: "u32 option"
  ns_peers :: "peer_info list"
  ns_note :: "msg option"
  ns_last_error :: "msg option"
  ns_signaling_server :: string
  ns_logs :: "msg list"

definition default_status :: network_status where
  "default_status =
     \<lparr> ns_mode = ModeIdle, ns_state = Idle, ns_room_code = None, ns_udp_bind_addr = None,
       ns_local_udp_addr = None, ns_public_udp_addr = None, ns_public_join_address = None,
       ns_local_game_port = None, ns_local_client_port = None, ns_minecraft_version = None,
       ns_e4mc_domain = None, ns_e4mc_verified = False, ns_transport_kind = TkUnknown,
       ns_local_target_state = TargetUnknown, ns_transport_path = None,
       ns_geyser_enabled = False, ns_bedrock_port = None, ns_password_protected = False,
       ns_peer_count = 0, ns_max_players = None, ns_peers = [], ns_note = None,
       ns_last_error = None, ns_signaling_server = [], ns_logs = [] \<rparr>"

record external_server_probe =
  ep_room_name :: string
  ep_host_name :: string
  ep_version :: "string option"
  ep_online_players :: u32
  ep_max_players :: u32
  ep_ping_ms :: "u64 option"

record test_server_info =
  ti_bind_addr :: string
  ti_protocol :: string

text \<open>The number of connected peers, which \<open>peer_count\<close> is meant to hold.\<close>

definition connected_count :: "peer_info list \<Rightarrow> nat" where
  "connected_count ps = length (filter pi_connected ps)"

definition peer_ids :: "peer_info list \<Rightarrow> string list" where
  "peer_ids ps = map pi_peer_id ps"

abbreviation any_connected :: "peer_info list \<Rightarrow> bool" where
  "any_connected ps \<equiv> list_ex pi_connected ps"

lemma connected_count_pos: "0 < connected_count ps \<longleftrightarrow> any_connected ps"
  by (induction ps) (auto simp: connected_count_def)

end
