(* ===== verification/Status.thy ===== *)
theory Status
  imports Models
begin

text \<open>
  The shared \<open>NetworkStatus\<close> and everything in \<open>manager.rs\<close> and \<open>test_server.rs\<close> that
  writes it: the primitive updates (\<open>overwrite_status\<close>, \<open>mutate_status\<close>, \<open>push_log\<close>,
  \<open>upsert_peer\<close>, \<open>update_peer_ping\<close>, \<open>mark_peer_disconnected\<close>, \<open>set_nonfatal\<close>,
  \<open>mark_fatal\<close>), the updates written inline in the flows, and \<open>log_status\<close> of the test
  server. The facts shown: the peer counter always counts the connected peers, peer ids
  stay unique, the state of a host follows its peers, and the bounds of the log.
\<close>

definition ABLY_SIGNAL_LABEL :: string where
  "ABLY_SIGNAL_LABEL = ''mcp2p-lobby''"

section \<open>Primitive updates\<close>

definition mutate_status :: "(network_status \<Rightarrow> network_status) \<Rightarrow> network_status \<Rightarrow> network_status" where
  "mutate_status update s =
     (let t = update s in t\<lparr>ns_peer_count := length (filter pi_connected (ns_peers t))\<rparr>)"

definition push_log :: "msg \<Rightarrow> network_status \<Rightarrow> network_status" where
  "push_log entry =
     mutate_status (\<lambda>s. let logs = entry # ns_logs s
                        in s\<lparr>ns_logs := (if 64 < length logs then take 64 logs else logs)\<rparr>)"

definition upsert_peer ::
  "string \<Rightarrow> sock_addr \<Rightarrow> bool \<Rightarrow> u64 option \<Rightarrow> string option \<Rightarrow> network_status \<Rightarrow> network_status" where
  "upsert_peer peer_id addr connected ping_ms transport =
     mutate_status (\<lambda>s.
       let peers =
             (if list_ex (\<lambda>p. pi_peer_id p = peer_id) (ns_peers s) then
                update_first (\<lambda>p. pi_peer_id p = peer_id)
                  (\<lambda>p. p\<lparr>pi_addr := show_addr addr, pi_connected := connected,
                         pi_ping_ms := ping_ms,
                         pi_transport := (case transport of Some t \<Rightarrow> Some t
                                          | None \<Rightarrow> pi_transport p)\<rparr>)
                  (ns_peers s)
              else
                ns_peers s @ [\<lparr>pi_peer_id = peer_id, pi_addr = show_addr addr,
                               pi_connected = connected, pi_ping_ms = ping_ms,
                               pi_transport = transport\<rparr>]);
           s = s\<lparr>ns_peers := peers\<rparr>
       in if ns_mode s = ModeHost then
            s\<lparr>ns_state := (if any_connected (ns_peers s) then Connected else Hosting)\<rparr>
          else s)"

definition update_peer_ping :: "string \<Rightarrow> u64 \<Rightarrow> network_status \<Rightarrow> network_status" where
  "update_peer_ping peer_id ping_ms =
     mutate_status (\<lambda>s. s\<lparr>ns_peers :=
       update_first (\<lambda>p. pi_peer_id p = peer_id) (\<lambda>p. p\<lparr>pi_ping_ms := Some ping_ms\<rparr>)
         (ns_peers s)\<rparr>)"

definition mark_peer_disconnected :: "string \<Rightarrow> network_status \<Rightarrow> network_status" where
  "mark_peer_disconnected peer_id =
     mutate_status (\<lambda>s.
       let s = s\<lparr>ns_peers := update_first (\<lambda>p. pi_peer_id p = peer_id)
                   (\<lambda>p. p\<lparr>pi_connected := False\<rparr>) (ns_peers s)\<rparr>
       in if ns_mode s = ModeHost then
            s\<lparr>ns_state := Hosting,
              ns_note := Some (Lit ''player disconnected, the host stays active'')\<rparr>
          else s)"

definition set_nonfatal :: "msg \<Rightarrow> network_status \<Rightarrow> network_status" where
  "set_nonfatal message s =
     push_log message (mutate_status (\<lambda>s. s\<lparr>ns_last_error := Some message\<rparr>) s)"

definition fatal_status :: "session_mode \<Rightarrow> string option \<Rightarrow> error_chain \<Rightarrow> network_status" where
  "fatal_status mode room_code error =
     default_status\<lparr>ns_mode := mode, ns_state := Error, ns_room_code := room_code,
       ns_signaling_server := ABLY_SIGNAL_LABEL, ns_last_error := Some (Alt error),
       ns_note := Some (Lit ''the session ended with an error''), ns_logs := [Alt error]\<rparr>"

definition initial_status :: network_status where
  "initial_status =
     default_status\<lparr>ns_signaling_server := ABLY_SIGNAL_LABEL,
       ns_logs := [Lit ''Minecraft P2P Connector started.'']\<rparr>"

definition cleared_status :: network_status where
  "cleared_status =
     default_status\<lparr>ns_signaling_server := ABLY_SIGNAL_LABEL, ns_logs := [Lit ''Session cleared.'']\<rparr>"

section \<open>The statuses the flows write\<close>

definition host_starting_status :: "string \<Rightarrow> u16 \<Rightarrow> bool \<Rightarrow> network_status" where
  "host_starting_status room_name local_port has_password =
     default_status\<lparr>ns_mode := ModeHost, ns_state := Starting, ns_room_code := Some room_name,
       ns_local_game_port := Some local_port, ns_password_protected := has_password,
       ns_signaling_server := ABLY_SIGNAL_LABEL,
       ns_note := Some (Lit ''Starting host endpoint and detecting local Minecraft version.''),
       ns_logs := [Fmt ''Host starting: {room_name}'' [Lit room_name]]\<rparr>"

definition host_active_status ::
  "string \<Rightarrow> sock_addr \<Rightarrow> string option \<Rightarrow> string option \<Rightarrow> u16 \<Rightarrow> string option \<Rightarrow> bool \<Rightarrow> network_status"
where
  "host_active_status room_name udp_bind_addr local_addr public_addr local_port version has_password =
     default_status\<lparr>ns_mode := ModeHost, ns_state := Hosting, ns_room_code := Some room_name,
       ns_udp_bind_addr := Some (show_addr udp_bind_addr), ns_local_udp_addr := local_addr,
       ns_public_udp_addr := public_addr, ns_local_game_port := Some local_port,
       ns_minecraft_version := version, ns_password_protected := has_password,
       ns_signaling_server := ABLY_SIGNAL_LABEL,
       ns_note := Some (Fmt ''Host active. Room: {room_name}. Local port: {local_port}. Version: {}.''
         [Lit room_name, Lit (show_word local_port),
          Lit (case version of Some v \<Rightarrow> v | None \<Rightarrow> ''Unknown'')]),
       ns_logs := [Fmt ''Public UDP address: {}''
                     [Lit (case public_addr of Some a \<Rightarrow> a | None \<Rightarrow> ''Unknown'')],
                   Fmt ''Local bind: {udp_bind_addr}'' [Lit (show_addr udp_bind_addr)],
                   Fmt ''Host forwards to {}'' [Lit (minecraft_local_addr local_port)]]\<rparr>"

definition waiting_peer :: "string \<Rightarrow> sock_addr \<Rightarrow> peer_info" where
  "waiting_peer peer_id peer_addr =
     \<lparr>pi_peer_id = peer_id, pi_addr = show_addr peer_addr, pi_connected = False,
      pi_ping_ms = None, pi_transport = Some ''direct-quic''\<rparr>"

definition client_waiting_status ::
  "string \<Rightarrow> sock_addr \<Rightarrow> sock_addr \<Rightarrow> string option \<Rightarrow> sock_addr option \<Rightarrow> string \<Rightarrow> network_status" where
  "client_waiting_status peer_id peer_addr udp_bind_addr local_addr public_addr note =
     default_status\<lparr>ns_mode := ModeClient, ns_state := WaitingForPeer,
       ns_udp_bind_addr := Some (show_addr udp_bind_addr), ns_local_udp_addr := local_addr,
       ns_public_udp_addr := map_option show_addr public_addr,
       ns_signaling_server := ABLY_SIGNAL_LABEL, ns_note := Some (Lit note),
       ns_peers := [waiting_peer peer_id peer_addr],
       ns_logs := [Fmt ''Client bind: {udp_bind_addr}'' [Lit (show_addr udp_bind_addr)],
                   Fmt ''Client public UDP: {}''
                     [Lit (case public_addr of Some a \<Rightarrow> show_addr a | None \<Rightarrow> ''Unknown'')],
                   Fmt ''Client target: {peer_addr}'' [Lit (show_addr peer_addr)]]\<rparr>"

section \<open>The updates the flows make inline\<close>

definition set_punching :: "string \<Rightarrow> network_status \<Rightarrow> network_status" where
  "set_punching display_peer =
     mutate_status (\<lambda>s. s\<lparr>ns_state := Punching,
       ns_note := Some (Fmt ''a player is connecting, punching NAT for {display_peer}''
                          [Lit display_peer])\<rparr>)"

definition peer_timed_out :: "string \<Rightarrow> network_status \<Rightarrow> network_status" where
  "peer_timed_out display_peer =
     mutate_status (\<lambda>s.
       let waiting = (\<lambda>p. pi_peer_id p = display_peer \<and> \<not> pi_connected p)
       in if list_ex waiting (ns_peers s) then
            s\<lparr>ns_peers := remove_first waiting (ns_peers s),
              ns_logs := ns_logs s @ [Fmt ''Peer {} timed out connecting'' [Lit display_peer]]\<rparr>
          else s)"

definition set_client_starting :: "network_status \<Rightarrow> network_status" where
  "set_client_starting =
     mutate_status (\<lambda>s. s\<lparr>ns_mode := ModeClient, ns_state := Starting,
       ns_signaling_server := ABLY_SIGNAL_LABEL,
       ns_note := Some (Lit ''host confirmed the handshake, raising direct QUIC and fallback'')\<rparr>)"

definition set_handshake_confirmed :: "string \<Rightarrow> network_status \<Rightarrow> network_status" where
  "set_handshake_confirmed peer_id =
     mutate_status (\<lambda>s. s\<lparr>ns_mode := ModeClient, ns_state := Connecting,
       ns_note := Some (Fmt ''handshake confirmed by host {peer_id}, trying direct QUIC and fallback''
                          [Lit peer_id])\<rparr>)"

definition set_connect_attempt :: "nat \<Rightarrow> network_status \<Rightarrow> network_status" where
  "set_connect_attempt attempt =
     mutate_status (\<lambda>s. s\<lparr>ns_state := Connecting,
       ns_note := Some (Fmt ''QUIC handshake, attempt {attempt}/10, waiting for the NAT punch''
                          [Lit (show_nat attempt)])\<rparr>)"

definition connected_peer :: "string \<Rightarrow> sock_addr \<Rightarrow> u64 option \<Rightarrow> string \<Rightarrow> peer_info" where
  "connected_peer peer_id peer_addr ping transport =
     \<lparr>pi_peer_id = peer_id, pi_addr = show_addr peer_addr, pi_connected = True,
      pi_ping_ms = ping, pi_transport = Some transport\<rparr>"

definition set_connected ::
  "string \<Rightarrow> u16 \<Rightarrow> string \<Rightarrow> sock_addr \<Rightarrow> u64 option \<Rightarrow> network_status \<Rightarrow> network_status" where
  "set_connected transport local_port peer_id peer_addr ping =
     mutate_status (\<lambda>s. s\<lparr>ns_state := Connected, ns_transport_path := Some transport,
       ns_note := Some (Fmt ''Connection established. Connect in Minecraft to localhost:{local_port}.''
                          [Lit (show_word local_port)]),
       ns_peers := [connected_peer peer_id peer_addr ping transport]\<rparr>)"

definition set_relay_connecting :: "bool \<Rightarrow> network_status \<Rightarrow> network_status" where
  "set_relay_connecting use_udp =
     mutate_status (\<lambda>s. s\<lparr>ns_state := Connecting, ns_transport_path := Some ''wss-relay'',
       ns_note := Some (Fmt ''using the fallback WSS tunnel ({})''
                          [Lit (if use_udp then ''UDP/Bedrock'' else ''TCP/Java'')])\<rparr>)"

definition set_probe_result :: "u32 \<Rightarrow> string option \<Rightarrow> network_status \<Rightarrow> network_status" where
  "set_probe_result max_players version =
     mutate_status (\<lambda>s. let s = s\<lparr>ns_max_players := Some max_players\<rparr>
       in (case version of Some v \<Rightarrow> s\<lparr>ns_minecraft_version := Some v\<rparr> | None \<Rightarrow> s))"

definition set_e4mc_assigned :: "string \<Rightarrow> network_status \<Rightarrow> network_status" where
  "set_e4mc_assigned domain =
     mutate_status (\<lambda>s. s\<lparr>ns_e4mc_domain := Some domain, ns_e4mc_verified := False,
       ns_transport_path := (case ns_transport_path s of None \<Rightarrow> Some ''e4mc-public'' | Some t \<Rightarrow> Some t),
       ns_note := Some (Fmt ''Host is active. Direct transport remains primary, e4mc assigned {domain} and is being verified.''
                          [Lit domain])\<rparr>)"

definition set_e4mc_verified :: "string \<Rightarrow> network_status \<Rightarrow> network_status" where
  "set_e4mc_verified domain =
     mutate_status (\<lambda>s. s\<lparr>ns_e4mc_domain := Some domain, ns_e4mc_verified := True,
       ns_public_join_address := Some domain,
       ns_transport_path := (case ns_transport_path s of None \<Rightarrow> Some ''e4mc-public'' | Some t \<Rightarrow> Some t),
       ns_note := Some (Fmt ''Host is active. Direct transport remains primary, verified e4mc fallback is ready at {domain}.''
                          [Lit domain])\<rparr>)"

definition set_e4mc_failed :: "string \<Rightarrow> network_status \<Rightarrow> network_status" where
  "set_e4mc_failed domain =
     mutate_status (\<lambda>s. s\<lparr>ns_e4mc_domain := Some domain, ns_e4mc_verified := False,
       ns_public_join_address := None,
       ns_note := Some (Fmt ''Host is active, but e4mc domain {domain} failed verification. Direct transport remains available.''
                          [Lit domain])\<rparr>)"

text \<open>\<open>test_server.rs\<close>: \<open>log_status\<close> writes the same status, at the other end of the log.\<close>

definition log_status :: "msg \<Rightarrow> network_status \<Rightarrow> network_status" where
  "log_status message s =
     (let logs = ns_logs s @ [message]
      in s\<lparr>ns_logs := (if 240 < length logs then drop (length logs - 240) logs else logs)\<rparr>)"

section \<open>All writers of the status\<close>

text \<open>
  One constructor per place of the program that writes the status. The lock of the status
  makes each of them atomic, so a run of the program is, for the status, a sequence of
  them in some order.
\<close>

datatype status_op =
    OpOverwrite network_status
  | OpPushLog msg
  | OpUpsertPeer string sock_addr bool "u64 option" "string option"
  | OpPing string u64
  | OpPeerDisconnected string
  | OpNonfatal msg
  | OpPunching string
  | OpPeerTimedOut string
  | OpClientStarting
  | OpHandshakeConfirmed string
  | OpConnectAttempt nat
  | OpConnected string u16 string sock_addr "u64 option"
  | OpRelayConnecting bool
  | OpProbe u32 "string option"
  | OpE4mcAssigned string
  | OpE4mcVerified string
  | OpE4mcFailed string
  | OpTestServerLog msg

fun status_step :: "status_op \<Rightarrow> network_status \<Rightarrow> network_status" where
  "status_step (OpOverwrite t) s = t"
| "status_step (OpPushLog m) s = push_log m s"
| "status_step (OpUpsertPeer i a c g t) s = upsert_peer i a c g t s"
| "status_step (OpPing i g) s = update_peer_ping i g s"
| "status_step (OpPeerDisconnected i) s = mark_peer_disconnected i s"
| "status_step (OpNonfatal m) s = set_nonfatal m s"
| "status_step (OpPunching i) s = set_punching i s"
| "status_step (OpPeerTimedOut i) s = peer_timed_out i s"
| "status_step OpClientStarting s = set_client_starting s"
| "status_step (OpHandshakeConfirmed i) s = set_handshake_confirmed i s"
| "status_step (OpConnectAttempt n) s = set_connect_attempt n s"
| "status_step (OpConnected t p i a g) s = set_connected t p i a g s"
| "status_step (OpRelayConnecting u) s = set_relay_connecting u s"
| "status_step (OpProbe m v) s = set_probe_result m v s"
| "status_step (OpE4mcAssigned d) s = set_e4mc_assigned d s"
| "status_step (OpE4mcVerified d) s = set_e4mc_verified d s"
| "status_step (OpE4mcFailed d) s = set_e4mc_failed d s"
| "status_step (OpTestServerLog m) s = log_status m s"

text \<open>The statuses that \<open>overwrite_status\<close> is called with.\<close>

inductive written_status :: "network_status \<Rightarrow> bool" where
  "written_status cleared_status"
| "written_status (fatal_status mode room e)"
| "written_status (host_starting_status room port pw)"
| "written_status (host_active_status room ub loc pub port ver pw)"
| "written_status (client_waiting_status i a ub loc pub note)"

fun status_op_ok :: "status_op \<Rightarrow> bool" where
  "status_op_ok (OpOverwrite t) = written_status t"
| "status_op_ok op = True"

inductive status_reachable :: "network_status \<Rightarrow> bool" where
  status_init: "status_reachable initial_status"
| status_next: "status_reachable s \<Longrightarrow> status_op_ok op \<Longrightarrow> status_reachable (status_step op s)"

section \<open>Invariants\<close>

definition status_inv :: "network_status \<Rightarrow> bool" where
  "status_inv s \<longleftrightarrow>
     ns_peer_count s = connected_count (ns_peers s) \<and> distinct (peer_ids (ns_peers s))"

lemmas status_defs =
  mutate_status_def push_log_def upsert_peer_def update_peer_ping_def mark_peer_disconnected_def
  set_nonfatal_def set_punching_def peer_timed_out_def set_client_starting_def
  set_handshake_confirmed_def set_connect_attempt_def set_connected_def set_relay_connecting_def
  set_probe_result_def set_e4mc_assigned_def set_e4mc_verified_def set_e4mc_failed_def
  log_status_def

lemmas written_defs =
  initial_status_def cleared_status_def fatal_status_def host_starting_status_def
  host_active_status_def client_waiting_status_def default_status_def

lemma mutate_status_count:
  "ns_peer_count (mutate_status f s) = connected_count (ns_peers (mutate_status f s))"
  by (simp add: mutate_status_def connected_count_def Let_def)

lemma peers_mutate [simp]: "ns_peers (mutate_status f s) = ns_peers (f s)"
  by (simp add: mutate_status_def Let_def)

lemma peer_ids_update_first:
  "(\<And>p. pi_peer_id (f p) = pi_peer_id p) \<Longrightarrow> peer_ids (update_first q f ps) = peer_ids ps"
  by (simp add: peer_ids_def map_update_first_same)

lemma distinct_peer_timed_out:
  "distinct (peer_ids (ns_peers s)) \<Longrightarrow> distinct (peer_ids (ns_peers (peer_timed_out i s)))"
  by (simp add: peer_ids_def peer_timed_out_def Let_def distinct_map_remove_first)

lemma distinct_upsert:
  "distinct (peer_ids (ns_peers s)) \<Longrightarrow> distinct (peer_ids (ns_peers (upsert_peer i a c g t s)))"
  by (auto simp: upsert_peer_def Let_def peer_ids_update_first list_ex_iff)
    (auto simp: peer_ids_def)

lemma upsert_peer_count:
  "ns_peer_count (upsert_peer i a c g tr s) = connected_count (ns_peers (upsert_peer i a c g tr s))"
  by (simp only: upsert_peer_def mutate_status_count)

lemma upsert_peer_state:
  "ns_mode s = ModeHost \<Longrightarrow> ns_state (upsert_peer i a c g tr s) =
     (if any_connected (ns_peers (upsert_peer i a c g tr s)) then Connected else Hosting)"
  by (simp add: upsert_peer_def mutate_status_def Let_def)

lemma distinct_single: "distinct (peer_ids [p])"
  by (simp add: peer_ids_def)

lemma written_status_inv: "written_status t \<Longrightarrow> status_inv t"
  by (induction rule: written_status.induct)
    (simp_all add: status_inv_def written_defs connected_count_def peer_ids_def waiting_peer_def)

lemma status_step_distinct:
  "status_op_ok op \<Longrightarrow> distinct (peer_ids (ns_peers s)) \<Longrightarrow>
     distinct (peer_ids (ns_peers (status_step op s)))"
  by (cases op)
    (auto simp: distinct_upsert distinct_single distinct_peer_timed_out push_log_def set_nonfatal_def
      update_peer_ping_def mark_peer_disconnected_def peer_ids_update_first set_punching_def
      set_client_starting_def set_handshake_confirmed_def set_connect_attempt_def
      set_connected_def set_relay_connecting_def set_probe_result_def set_e4mc_assigned_def
      set_e4mc_verified_def set_e4mc_failed_def log_status_def Let_def
      dest!: written_status_inv simp: status_inv_def split: option.splits)

lemma status_step_count:
  "status_op_ok op \<Longrightarrow> status_inv s \<Longrightarrow>
     ns_peer_count (status_step op s) = connected_count (ns_peers (status_step op s))"
proof (cases op)
  case (OpOverwrite t)
  then show "status_op_ok op \<Longrightarrow> ?thesis" by (auto dest: written_status_inv simp: status_inv_def)
next
  case (OpTestServerLog m)
  then show "status_inv s \<Longrightarrow> ?thesis" by (simp add: log_status_def status_inv_def Let_def)
qed (simp_all only: status_step.simps push_log_def upsert_peer_def update_peer_ping_def
    mark_peer_disconnected_def set_nonfatal_def set_punching_def peer_timed_out_def
    set_client_starting_def set_handshake_confirmed_def set_connect_attempt_def set_connected_def
    set_relay_connecting_def set_probe_result_def set_e4mc_assigned_def set_e4mc_verified_def
    set_e4mc_failed_def mutate_status_count)

lemma status_step_inv: "status_op_ok op \<Longrightarrow> status_inv s \<Longrightarrow> status_inv (status_step op s)"
  using status_step_count status_step_distinct by (simp add: status_inv_def)

lemma initial_status_inv: "status_inv initial_status"
  by (simp add: status_inv_def written_defs connected_count_def peer_ids_def)

section \<open>The log\<close>

text \<open>
  The contract of a bounded log, read from its newest entry: pushing puts the entry first
  and keeps at most \<open>cap\<close> entries. \<open>push_log\<close> and the test server's \<open>log_status\<close> both
  keep it, but they disagree on which end of the vector is the newest.
\<close>

locale newest_log =
  fixes push :: "'m \<Rightarrow> 's \<Rightarrow> 's"
    and newest :: "'s \<Rightarrow> 'm list"
    and cap :: nat
  assumes newest_push: "newest (push m s) = take cap (m # newest s)"
begin

lemma push_bounded: "length (newest (push m s)) \<le> cap"
  by (simp add: newest_push)

lemma run_newest: "0 < length ms \<Longrightarrow> newest (fold push ms s) = take cap (rev ms @ newest s)"
proof (induction ms arbitrary: s)
  case (Cons m ms)
  show ?case
  proof (cases ms)
    case Nil
    then show ?thesis by (simp add: newest_push)
  next
    case (Cons n ns)
    then have "newest (fold push ms (push m s)) = take cap (rev ms @ take cap (m # newest s))"
      using Cons.IH [of "push m s"] by (simp add: newest_push)
    then show ?thesis by (simp add: take_append min_def)
  qed
qed simp

lemma run_keeps_recent:
  assumes "i < length ms" and "length ms - i \<le> cap"
  shows "ms ! i \<in> set (newest (fold push ms s))"
proof -
  let ?j = "length ms - 1 - i"
  have j: "?j < cap" "?j < length (rev ms)" using assms by auto
  have "rev ms ! ?j = ms ! i" using assms(1) by (simp add: rev_nth)
  then have "ms ! i = take cap (rev ms @ newest s) ! ?j"
    using j by (simp add: nth_append)
  moreover have "take cap (rev ms @ newest s) ! ?j \<in> set (take cap (rev ms @ newest s))"
    using j by (intro nth_mem) simp
  moreover have "0 < length ms" using assms(1) by linarith
  ultimately show ?thesis by (simp add: run_newest)
qed

end

lemma logs_push_log: "ns_logs (push_log m s) = take 64 (m # ns_logs s)"
  by (simp add: push_log_def mutate_status_def Let_def)

lemma logs_log_status: "rev (ns_logs (log_status m s)) = take 240 (m # rev (ns_logs s))"
proof -
  have "take 240 (m # rev (ns_logs s)) = take 240 (rev (ns_logs s @ [m]))" by simp
  also have "\<dots> = rev (drop (length (ns_logs s @ [m]) - 240) (ns_logs s @ [m]))"
    by (simp only: take_rev)
  finally show ?thesis by (simp add: log_status_def Let_def)
qed

interpretation manager_log: newest_log push_log ns_logs 64
  by unfold_locales (rule logs_push_log)

interpretation test_log: newest_log log_status "\<lambda>s. rev (ns_logs s)" 240
  by unfold_locales (rule logs_log_status)

section \<open>Properties\<close>

lemma status_reachable_inv: "status_reachable s \<Longrightarrow> status_inv s"
  by (induction rule: status_reachable.induct) (auto intro: initial_status_inv status_step_inv)

text \<open>
  C31: whatever sequence of status updates the program makes, \<open>peer_count\<close> is the number of
  connected peers and no peer is listed twice.
\<close>

theorem reachable_peer_count:
  assumes "status_reachable s"
  shows "ns_peer_count s = length (filter pi_connected (ns_peers s))
    \<and> distinct (map pi_peer_id (ns_peers s))"
  using status_reachable_inv [OF assms]
  by (simp add: status_inv_def connected_count_def peer_ids_def)

theorem reachable_peer_count_witness:
  "ns_peer_count (upsert_peer ''p'' (SockV4 1 2 3 4 5) True None None initial_status) = 1"
proof -
  have "status_reachable (status_step (OpUpsertPeer ''p'' (SockV4 1 2 3 4 5) True None None) initial_status)"
    by (rule status_reachable.intros(2) [OF status_reachable.intros(1)]) simp
  from reachable_peer_count [OF this] show ?thesis
    by (simp add: upsert_peer_def written_defs Let_def)
qed

text \<open>
  \<open>upsert_peer\<close> leaves exactly one entry for the peer, with the given address, liveness
  and ping, the given transport or else the old one; every other entry is untouched; a host
  is then \<open>Connected\<close> exactly when it has a connected peer.
\<close>

theorem upsert_peer_spec:
  assumes t_def: "t = upsert_peer i a c g tr s"
    and dist_s: "distinct (map pi_peer_id (ns_peers s))"
  shows "(\<exists>!p. p \<in> set (ns_peers t) \<and> pi_peer_id p = i)
    \<and> (\<forall>p \<in> set (ns_peers t). pi_peer_id p = i \<longrightarrow>
          pi_addr p = show_addr a \<and> pi_connected p = c \<and> pi_ping_ms p = g \<and>
          (tr \<noteq> None \<longrightarrow> pi_transport p = tr))
    \<and> filter (\<lambda>p. pi_peer_id p \<noteq> i) (ns_peers t) = filter (\<lambda>p. pi_peer_id p \<noteq> i) (ns_peers s)
    \<and> (ns_mode s = ModeHost \<longrightarrow>
          ns_state t = (if 0 < ns_peer_count t then Connected else Hosting))
    \<and> (ns_mode s \<noteq> ModeHost \<longrightarrow> ns_state t = ns_state s)"
proof -
  let ?q = "\<lambda>p. pi_peer_id p = i"
  let ?f = "\<lambda>p. p\<lparr>pi_addr := show_addr a, pi_connected := c, pi_ping_ms := g,
                   pi_transport := (case tr of Some x \<Rightarrow> Some x | None \<Rightarrow> pi_transport p)\<rparr>"
  let ?n = "\<lparr>pi_peer_id = i, pi_addr = show_addr a, pi_connected = c, pi_ping_ms = g, pi_transport = tr\<rparr>"
  have peers: "ns_peers t = (if list_ex ?q (ns_peers s) then update_first ?q ?f (ns_peers s)
                             else ns_peers s @ [?n])"
    by (simp add: t_def upsert_peer_def Let_def)
  have dist: "distinct (map pi_peer_id (ns_peers t))"
    using distinct_upsert dist_s by (simp add: t_def peer_ids_def)
  note upd = update_first_distinct [OF dist_s, of i ?f]
  have "map pi_peer_id (ns_peers t) =
      (if list_ex ?q (ns_peers s) then map pi_peer_id (ns_peers s)
       else map pi_peer_id (ns_peers s) @ [i])"
    by (simp add: peers map_update_first_same)
  then have "i \<in> set (map pi_peer_id (ns_peers t))"
    by (auto simp: list_ex_iff)
  then have ex: "\<exists>p \<in> set (ns_peers t). ?q p" by auto
  then have one: "\<exists>!p. p \<in> set (ns_peers t) \<and> ?q p"
    using dist by (auto simp: distinct_map dest: inj_onD)
  moreover have "\<forall>p \<in> set (ns_peers t). ?q p \<longrightarrow> pi_addr p = show_addr a \<and> pi_connected p = c
      \<and> pi_ping_ms p = g \<and> (tr \<noteq> None \<longrightarrow> pi_transport p = tr)"
    using peers upd by (auto simp: list_ex_iff split: if_splits)
  moreover have "filter (\<lambda>p. \<not> ?q p) (ns_peers t) = filter (\<lambda>p. \<not> ?q p) (ns_peers s)"
    using peers by (simp add: filter_update_first)
  moreover have "ns_mode s = ModeHost \<longrightarrow> ns_state t = (if 0 < ns_peer_count t then Connected else Hosting)"
    using upsert_peer_state [of s i a c g tr]
    by (simp only: t_def upsert_peer_count connected_count_pos if_True simp_thms) simp
  moreover have "ns_mode s \<noteq> ModeHost \<longrightarrow> ns_state t = ns_state s"
    by (simp add: t_def upsert_peer_def mutate_status_def Let_def)
  ultimately show ?thesis by simp
qed

theorem upsert_peer_spec_witness:
  "\<exists>!p. p \<in> set (ns_peers (upsert_peer ''p'' (SockV4 1 2 3 4 5) True None None initial_status))
        \<and> pi_peer_id p = ''p''"
proof -
  have "distinct (map pi_peer_id (ns_peers initial_status))" by (simp add: written_defs)
  from upsert_peer_spec [OF refl this, of "''p''" "SockV4 1 2 3 4 5" True None None]
  show ?thesis by blast
qed

text \<open>
  after any sequence of log calls the manager's log is the 64 most recent entries, the
  newest first, in front of what is left of the old log.
\<close>

theorem push_log_run:
  "ns_logs (fold push_log (ms @ [m]) s) = take 64 (m # rev ms @ ns_logs s)"
  using manager_log.run_newest [of "ms @ [m]" s] by simp

text \<open>
  the test server appends to the end of the same log whose end \<open>push_log\<close> cuts off: once
  the log is full, an entry of \<open>log_status\<close> is gone after the manager's next entry, as if it
  had never been written; the same holds for the entry of a peer that timed out.
\<close>

theorem tail_entries_lost:
  assumes "63 \<le> length (ns_logs s)" and "length (ns_logs s) < 240"
  shows "ns_logs (push_log m (log_status t s)) = ns_logs (push_log m s)
    \<and> ns_logs (push_log m (peer_timed_out i s)) = ns_logs (push_log m s)"
proof -
  have "ns_logs (log_status t s) = ns_logs s @ [t]"
    using assms(2) by (simp add: log_status_def Let_def)
  moreover have "\<exists>e. ns_logs (peer_timed_out i s) = ns_logs s @ e"
    by (simp add: peer_timed_out_def mutate_status_def Let_def)
  ultimately show ?thesis
    using assms(1) by (auto simp: logs_push_log take_Cons)
qed

theorem tail_entries_lost_witness:
  "let s = fold push_log (replicate 64 (Lit ''a'')) initial_status
   in ns_logs (push_log (Lit ''b'') (log_status (Lit ''test'') s)) = ns_logs (push_log (Lit ''b'') s)"
proof -
  let ?s = "fold push_log (replicate 64 (Lit ''a'')) initial_status"
  have "length (ns_logs ?s) = 64"
    by (subst manager_log.run_newest) simp_all
  with tail_entries_lost [of ?s] show ?thesis by simp
qed

text \<open>
  when one of several connected peers leaves, a host shows \<open>Hosting\<close> although its peer
  counter is still positive, the situation in which \<open>upsert_peer\<close> shows \<open>Connected\<close>.
\<close>

theorem disconnect_hides_other_peers:
  assumes "ns_mode s = ModeHost" and "p \<in> set (ns_peers s)" and "pi_connected p"
    and "pi_peer_id p \<noteq> i"
  shows "ns_state (mark_peer_disconnected i s) = Hosting
    \<and> 0 < ns_peer_count (mark_peer_disconnected i s)"
proof -
  let ?t = "mark_peer_disconnected i s"
  have "p \<in> set (ns_peers ?t)"
    using assms by (auto simp: mark_peer_disconnected_def Let_def intro: update_first_keeps)
  then have "0 < connected_count (ns_peers ?t)"
    using assms(3) by (auto simp: connected_count_pos list_ex_iff)
  moreover have "ns_peer_count ?t = connected_count (ns_peers ?t)"
    by (simp only: mark_peer_disconnected_def mutate_status_count)
  ultimately show ?thesis
    using assms(1) by (simp add: mark_peer_disconnected_def mutate_status_def Let_def)
qed

theorem disconnect_hides_other_peers_witness:
  "let p = \<lparr>pi_peer_id = ''a'', pi_addr = [], pi_connected = True, pi_ping_ms = None, pi_transport = None\<rparr>;
       s = default_status\<lparr>ns_mode := ModeHost, ns_peers := [p, p\<lparr>pi_peer_id := ''b''\<rparr>]\<rparr>
   in ns_state (mark_peer_disconnected ''b'' s) = Hosting
      \<and> 0 < ns_peer_count (mark_peer_disconnected ''b'' s)"
  unfolding Let_def
  by (rule disconnect_hides_other_peers [where p =
        "\<lparr>pi_peer_id = ''a'', pi_addr = [], pi_connected = True, pi_ping_ms = None, pi_transport = None\<rparr>"])
    (simp_all add: default_status_def)

end
