(* ===== verification/Manager.thy ===== *)
theory Manager
  imports Status "HOL-Library.AList"
begin

text \<open>
  \<open>NetworkManager\<close> of \<open>manager.rs\<close>: the session and its control structures, the tasks and
  cancellation tokens, and the operations that create, replace and tear down sessions.

  The maps a host session shares with the tasks it spawns (\<open>Arc<Mutex<HashMap>>\<close>) live in a
  store, \<open>mg_hosts\<close>, and are named by their index, so that a task can still write to the
  maps of a session that is gone. A task is an entry of \<open>mg_tasks\<close>: \<open>abort\<close> removes it, and
  cancelling its token makes it stop at its next \<open>select!\<close>. What the network and the
  operating system answer is an environment.
\<close>

section \<open>State\<close>

type_synonym token = nat
type_synonym conn = nat

record relay_entry =
  rl_session_id :: string
  rl_cancel :: token
  rl_task :: nat

record host_maps =
  hm_expected :: "(sock_addr \<times> string) list"
  hm_live :: "(string \<times> conn) list"
  hm_relays :: "(string \<times> relay_entry) list"

record host_control =
  hc_room_name :: string
  hc_peer_id :: string
  hc_local_game_port :: u16
  hc_maps :: nat
  hc_e4mc :: "(token \<times> nat) option"
  hc_upnp :: bool
  hc_force_direct :: bool

record prepared_client =
  pc_peer_addr :: sock_addr
  pc_peer_id :: string
  pc_room_name :: string
  pc_host_name :: string
  pc_mc_version :: string
  pc_slots :: string

datatype session_control =
    CHost host_control
  | CPrepared prepared_client
  | CClient sock_addr

record session_runtime =
  sr_cancel :: token
  sr_tasks :: "nat list"
  sr_control :: session_control

datatype task_kind =
    AcceptLoop nat
  | LobbyLoop
  | LobbyEvents
  | ClientFlow prepared_client "string option" bool
  | HostConn conn string nat
  | E4mcLoop
  | RelayLoop string
  | DelayedRelay nat string string u16
  | PunchTask nat string
  | UpnpTask
  | LeavePresence string

record task =
  tk_id :: nat
  tk_kind :: task_kind
  tk_token :: "token option"

record manager =
  mg_session :: "session_runtime option"
  mg_status :: network_status
  mg_hosts :: "host_maps list"
  mg_tasks :: "task list"
  mg_cancelled :: "token list"
  mg_closed :: "(conn \<times> nat \<times> string) list" \<comment> \<open>connections closed, with code and reason\<close>
  mg_next_token :: token
  mg_next_task :: nat

definition new_manager :: manager where
  "new_manager = \<lparr>mg_session = None, mg_status = initial_status, mg_hosts = [], mg_tasks = [],
     mg_cancelled = [], mg_closed = [], mg_next_token = 0, mg_next_task = 0\<rparr>"

section \<open>Tokens, tasks, maps\<close>

definition on_status :: "(network_status \<Rightarrow> network_status) \<Rightarrow> manager \<Rightarrow> manager" where
  "on_status f m = m\<lparr>mg_status := f (mg_status m)\<rparr>"

definition cancel :: "token \<Rightarrow> manager \<Rightarrow> manager" where
  "cancel t m = m\<lparr>mg_cancelled := t # mg_cancelled m\<rparr>"

definition abort :: "nat \<Rightarrow> manager \<Rightarrow> manager" where
  "abort i m = m\<lparr>mg_tasks := filter (\<lambda>t. tk_id t \<noteq> i) (mg_tasks m)\<rparr>"

definition new_token :: "manager \<Rightarrow> token \<times> manager" where
  "new_token m = (mg_next_token m, m\<lparr>mg_next_token := Suc (mg_next_token m)\<rparr>)"

definition spawn :: "task_kind \<Rightarrow> token option \<Rightarrow> manager \<Rightarrow> nat \<times> manager" where
  "spawn k tok m =
     (mg_next_task m, m\<lparr>mg_tasks := mg_tasks m @ [\<lparr>tk_id = mg_next_task m, tk_kind = k, tk_token = tok\<rparr>],
                        mg_next_task := Suc (mg_next_task m)\<rparr>)"

definition close_conn :: "conn \<Rightarrow> nat \<Rightarrow> string \<Rightarrow> manager \<Rightarrow> manager" where
  "close_conn c code reason m = m\<lparr>mg_closed := mg_closed m @ [(c, code, reason)]\<rparr>"

definition on_host :: "nat \<Rightarrow> (host_maps \<Rightarrow> host_maps) \<Rightarrow> manager \<Rightarrow> manager" where
  "on_host i f m = m\<lparr>mg_hosts := (mg_hosts m)[i := f (mg_hosts m ! i)]\<rparr>"

text \<open>
  The tasks that have not been told to stop: they have neither ended nor been aborted, and
  their token, where they have one, is not cancelled. A task whose token is cancelled counts
  as told to stop from then on, although in the code it runs until it next awaits the token;
  it stays in \<open>mg_tasks\<close> until its own end.
\<close>

definition live_tasks :: "manager \<Rightarrow> task list" where
  "live_tasks m = filter (\<lambda>t. case tk_token t of Some c \<Rightarrow> c \<notin> set (mg_cancelled m) | None \<Rightarrow> True)
     (mg_tasks m)"

section \<open>Tearing a session down\<close>

definition stop_relay :: "relay_entry \<Rightarrow> manager \<Rightarrow> manager" where
  "stop_relay r m = abort (rl_task r) (cancel (rl_cancel r) m)"

definition reset_control :: "session_control \<Rightarrow> manager \<Rightarrow> manager" where
  "reset_control control m =
     (case control of
        CHost host \<Rightarrow>
          let maps = mg_hosts m ! hc_maps host;
              m = fold (\<lambda>(_, c). close_conn c 0 ''session-reset'') (hm_live maps)
                    (on_host (hc_maps host) (\<lambda>h. h\<lparr>hm_live := []\<rparr>) m);
              m = (case hc_e4mc host of Some (t, i) \<Rightarrow> abort i (cancel t m) | None \<Rightarrow> m);
              m = fold (\<lambda>(_, r). stop_relay r) (hm_relays maps)
                    (on_host (hc_maps host) (\<lambda>h. h\<lparr>hm_relays := []\<rparr>) m)
          in snd (spawn (LeavePresence (hc_peer_id host)) None m)
      | CPrepared client \<Rightarrow>
          on_status (push_log (Fmt ''the prepared client session with {} was cleared''
            [Lit (show_addr (pc_peer_addr client))])) m
      | CClient peer_addr \<Rightarrow>
          on_status (push_log (Fmt ''the client session with {} was cleared''
            [Lit (show_addr peer_addr)])) m)"

definition reset_session :: "manager \<Rightarrow> manager" where
  "reset_session m =
     (let m = (case mg_session m of
                 None \<Rightarrow> m
               | Some rt \<Rightarrow>
                   let m = m\<lparr>mg_session := None\<rparr>;
                       m = cancel (sr_cancel rt) m;
                       m = reset_control (sr_control rt) m
                   in fold abort (sr_tasks rt) m)
      in on_status (\<lambda>_. cleared_status) m)"

definition stop_hosting :: "manager \<Rightarrow> manager" where
  "stop_hosting m = on_status (push_log (Lit ''Session stopped.'')) (reset_session m)"

section \<open>Hosting\<close>

record host_env =
  he_uuid :: string
  he_bind :: "error_chain + sock_addr" \<comment> \<open>\<open>bind_shared_udp_socket\<close>\<close>
  he_version :: "error_chain + string" \<comment> \<open>\<open>detect_local_version\<close>\<close>
  he_public :: "error_chain + sock_addr" \<comment> \<open>STUN, within eight seconds\<close>
  he_local_ips :: "string list" \<comment> \<open>IPv4 interface addresses, neither loopback nor link-local\<close>
  he_config :: "error_chain + unit" \<comment> \<open>\<open>build_server_config\<close>\<close>
  he_endpoint :: "error_chain + unit" \<comment> \<open>\<open>Endpoint::new\<close>\<close>

definition local_addrs :: "string \<Rightarrow> string list \<Rightarrow> sock_addr \<Rightarrow> string option" where
  "local_addrs sep ips udp_bind_addr =
     (if ips = [] then None
      else Some (join sep (map (\<lambda>ip. ip @ '':'' @ show_word (sa_port udp_bind_addr)) ips)))"

definition hosting_result :: "string option \<Rightarrow> string option \<Rightarrow> sock_addr \<Rightarrow> string" where
  "hosting_result public_addr local_addr udp_bind_addr =
     (let any = ''0.0.0.0:'' @ show_word (sa_port udp_bind_addr)
      in case (public_addr, local_addr) of
           (Some pub_ip, Some loc_ip) \<Rightarrow> pub_ip @ '','' @ loc_ip
         | (Some pub_ip, None) \<Rightarrow> pub_ip @ '','' @ any
         | (None, Some loc_ip) \<Rightarrow> any @ '','' @ loc_ip
         | (None, None) \<Rightarrow> any)"

definition spawn_e4mc :: "bool \<Rightarrow> manager \<Rightarrow> (token \<times> nat) option \<times> manager" where
  "spawn_e4mc enable m =
     (if enable then
        let (t, m) = new_token m; (i, m) = spawn E4mcLoop (Some t) m in (Some (t, i), m)
      else (None, m))"

definition new_host_maps :: "manager \<Rightarrow> nat \<times> manager" where
  "new_host_maps m =
     (length (mg_hosts m),
      m\<lparr>mg_hosts := mg_hosts m @ [\<lparr>hm_expected = [], hm_live = [], hm_relays = []\<rparr>]\<rparr>)"

definition log_version_error :: "u16 \<Rightarrow> error_chain \<Rightarrow> network_status \<Rightarrow> network_status" where
  "log_version_error local_port e =
     push_log (Fmt ''Failed to detect Minecraft version on 127.0.0.1:{local_port}: {error:#}''
       [Lit (show_word local_port), Alt e])"

text \<open>The accept and lobby loops, the event subscription, the session and the UPnP task.\<close>

definition install_host ::
  "string \<Rightarrow> u16 \<Rightarrow> string \<Rightarrow> nat \<Rightarrow> (token \<times> nat) option \<Rightarrow> bool \<Rightarrow> manager \<Rightarrow> manager" where
  "install_host room_name local_port peer_id maps e4mc force_direct m =
     (let (t, m) = new_token m;
          (accept_task, m) = spawn (AcceptLoop maps) (Some t) m;
          (lobby_task, m) = spawn LobbyLoop (Some t) m;
          (_, m) = spawn LobbyEvents (Some t) m;
          m = m\<lparr>mg_session := Some \<lparr>sr_cancel = t, sr_tasks = [accept_task, lobby_task],
                sr_control = CHost \<lparr>hc_room_name = room_name, hc_peer_id = peer_id,
                  hc_local_game_port = local_port, hc_maps = maps, hc_e4mc = e4mc,
                  hc_upnp = False, hc_force_direct = force_direct\<rparr>\<rparr>\<rparr>
      in snd (spawn UpnpTask None m))"

definition start_hosting_inner ::
  "host_env \<Rightarrow> string \<Rightarrow> string option \<Rightarrow> u16 \<Rightarrow> bool \<Rightarrow> string option \<Rightarrow> bool \<Rightarrow> manager \<Rightarrow>
     (error_chain + string) \<times> manager" where
  "start_hosting_inner e room_name password local_port enable_e4mc minecraft_version force_direct m =
     (let peer_id = he_uuid e;
          (maps, m) = new_host_maps m;
          has_password = (password \<noteq> None);
          (e4mc, m) = spawn_e4mc enable_e4mc m;
          m = on_status (\<lambda>_. host_starting_status room_name local_port has_password) m
      in case he_bind e of
           Inl err \<Rightarrow> (Inl err, m)
         | Inr udp_bind_addr \<Rightarrow>
             let m = on_status (push_log (Lit ''Starting QUIC endpoint, detecting public address'')) m;
                 version_res = (if minecraft_version = Some ''Bedrock Edition''
                                then Inr ''Bedrock Edition'' else he_version e);
                 (final_version, m) =
                   (case version_res of
                      Inr v \<Rightarrow> (Some v, m)
                    | Inl err \<Rightarrow> (minecraft_version, on_status (log_version_error local_port err) m));
                 local_addr = local_addrs '','' (he_local_ips e) udp_bind_addr;
                 (public_addr, m) =
                   (case he_public e of
                      Inr a \<Rightarrow> (Some (show_addr a),
                        on_status (push_log (Fmt ''Public UDP address: {addr}'' [Lit (show_addr a)])) m)
                    | Inl err \<Rightarrow> (None, on_status (push_log (Fmt ''STUN failed: {e:#}'' [Alt err])) m))
             in case he_config e of
                  Inl err \<Rightarrow> (Inl err, m)
                | Inr _ \<Rightarrow>
                    (case he_endpoint e of
                       Inl err \<Rightarrow> (Inl (Lit ''failed to create host QUIC endpoint'' # err), m)
                     | Inr _ \<Rightarrow>
                         let m = on_status (\<lambda>_. host_active_status room_name udp_bind_addr local_addr
                                   public_addr local_port final_version has_password) m;
                             m = install_host room_name local_port peer_id maps e4mc force_direct m
                         in (Inr (hosting_result public_addr local_addr udp_bind_addr), m)))"

definition start_hosting ::
  "host_env \<Rightarrow> string \<Rightarrow> string option \<Rightarrow> u16 \<Rightarrow> bool \<Rightarrow> string option \<Rightarrow> bool \<Rightarrow> manager \<Rightarrow>
     (error_chain + string) \<times> manager" where
  "start_hosting e room_name password local_port enable_e4mc minecraft_version force_direct m =
     (let room_name = trim room_name
      in if room_name = [] then (Inl [Lit ''room name must not be empty''], m)
         else if local_port = 0 then (Inl [Lit ''local game port must be > 0''], m)
         else
           let m = reset_session m
           in case start_hosting_inner e room_name password local_port enable_e4mc minecraft_version
                     force_direct m of
                (Inr peer_addr, m) \<Rightarrow> (Inr peer_addr, m)
              | (Inl error, m) \<Rightarrow> (Inl error, on_status (\<lambda>_. fatal_status ModeHost None error) m))"

end
