(* ===== verification/Manager_Ops.thy ===== *)
theory Manager_Ops
  imports Manager
begin

text \<open>
  The operations of \<open>manager.rs\<close> on a session: punching and relaying for a peer, the accept
  loop, the end of a peer's connection, kicking, the client's connect operations and flow.
\<close>

section \<open>Host: a peer announces itself\<close>

definition punch_from_host ::
  "sock_addr \<Rightarrow> string option \<Rightarrow> string option \<Rightarrow> manager \<Rightarrow> bool \<times> manager" where
  "punch_from_host peer_addr announced_peer_id relay_session_id m =
     (case mg_session m of
        None \<Rightarrow> (False, m)
      | Some runtime \<Rightarrow>
          (case sr_control runtime of
             CHost host \<Rightarrow>
               let display_peer = (case announced_peer_id of Some i \<Rightarrow> i | None \<Rightarrow> show_addr peer_addr);
                   m = (case announced_peer_id of
                          Some i \<Rightarrow> on_host (hc_maps host)
                            (\<lambda>h. h\<lparr>hm_expected := AList.update peer_addr i (hm_expected h)\<rparr>) m
                        | None \<Rightarrow> m);
                   m = on_status (set_punching display_peer) m;
                   m = on_status (upsert_peer display_peer peer_addr False None (Some ''direct-quic'')) m;
                   m = on_status (push_log (Fmt ''Host punch -> {display_peer} ({peer_addr})''
                         [Lit display_peer, Lit (show_addr peer_addr)])) m;
                   m = (case relay_session_id of
                          Some session_id \<Rightarrow>
                            if \<not> hc_force_direct host
                            then snd (spawn (DelayedRelay (hc_maps host) display_peer session_id
                                   (hc_local_game_port host)) None m)
                            else on_status (push_log
                                   (Fmt ''Relay skipped for {display_peer} due to Force Direct Mode''
                                     [Lit display_peer])) m
                        | None \<Rightarrow> m)
               in (True, snd (spawn (PunchTask (hc_maps host) display_peer) None m))
           | _ \<Rightarrow> (False, m)))"

text \<open>The end of the punch task, twenty seconds after the last packet.\<close>

definition punch_task_end :: "nat \<Rightarrow> nat \<Rightarrow> string \<Rightarrow> manager \<Rightarrow> manager" where
  "punch_task_end i maps display_peer m =
     (let m = on_status (peer_timed_out display_peer) m;
          m = on_host maps (\<lambda>h. h\<lparr>hm_expected := filter (\<lambda>(_, id). id \<noteq> display_peer) (hm_expected h)\<rparr>) m
      in abort i m)"

text \<open>
  \<open>start_or_replace_host_relay\<close>: the relay runtime is a task with a token of its own; \<open>ready\<close>
  is what waiting for it returned.
\<close>

definition start_or_replace_host_relay ::
  "nat \<Rightarrow> string \<Rightarrow> string \<Rightarrow> u16 \<Rightarrow> error_chain + unit \<Rightarrow> manager \<Rightarrow> manager" where
  "start_or_replace_host_relay maps peer_id session_id local_game_port ready m =
     (let (t, m) = new_token m; (i, m) = spawn (RelayLoop session_id) (Some t) m
      in case ready of
           Inr _ \<Rightarrow>
             let replaced = map_of (hm_relays (mg_hosts m ! maps)) peer_id;
                 m = on_host maps (\<lambda>h. h\<lparr>hm_relays := AList.update peer_id
                       \<lparr>rl_session_id = session_id, rl_cancel = t, rl_task = i\<rparr> (hm_relays h)\<rparr>) m;
                 m = (case replaced of Some previous \<Rightarrow> stop_relay previous m | None \<Rightarrow> m)
             in on_status (push_log
                  (Fmt ''Host armed WSS (443) relay fallback for {peer_id} via session {session_id}.''
                    [Lit peer_id, Lit session_id])) m
         | Inl error \<Rightarrow>
             on_status (set_nonfatal
               (Fmt ''failed to bootstrap host WSS relay session {session_id}: {error:#}''
                 [Lit session_id, Alt error])) m)"

definition delayed_relay_fires :: "task \<Rightarrow> error_chain + unit \<Rightarrow> manager \<Rightarrow> manager" where
  "delayed_relay_fires t ready m =
     (case tk_kind t of
        DelayedRelay maps display_peer session_id port \<Rightarrow>
          abort (tk_id t) (start_or_replace_host_relay maps display_peer session_id port ready m)
      | _ \<Rightarrow> m)"

definition cancel_host_relay_for_peer :: "nat \<Rightarrow> string \<Rightarrow> manager \<Rightarrow> manager" where
  "cancel_host_relay_for_peer maps peer_id m =
     (case map_of (hm_relays (mg_hosts m ! maps)) peer_id of
        None \<Rightarrow> m
      | Some r \<Rightarrow>
          let m = on_host maps (\<lambda>h. h\<lparr>hm_relays := AList.delete peer_id (hm_relays h)\<rparr>) m;
              m = stop_relay r m
          in on_status (push_log
               (Fmt ''Direct QUIC won for {peer_id}; WSS relay session {} cancelled.''
                 [Lit peer_id, Lit (rl_session_id r)])) m)"

section \<open>Host: connections\<close>

text \<open>One connection of the accept loop, from \<open>remote\<close> with round-trip time \<open>rtt\<close>.\<close>

definition host_accept :: "token \<Rightarrow> nat \<Rightarrow> conn \<Rightarrow> sock_addr \<Rightarrow> u64 \<Rightarrow> manager \<Rightarrow> manager" where
  "host_accept tok maps connection remote rtt m =
     (let peer_id = (case map_of (hm_expected (mg_hosts m ! maps)) remote of
                       Some i \<Rightarrow> i | None \<Rightarrow> show_addr remote);
          m = on_host maps (\<lambda>h. h\<lparr>hm_expected := AList.delete remote (hm_expected h)\<rparr>) m;
          m = on_host maps (\<lambda>h. h\<lparr>hm_live := AList.update peer_id connection (hm_live h)\<rparr>) m;
          m = cancel_host_relay_for_peer maps peer_id m;
          m = on_status (upsert_peer peer_id remote True (Some rtt) (Some ''direct-quic'')) m;
          m = on_status (push_log (Fmt ''Host accepted peer {peer_id} ({remote})''
                [Lit peer_id, Lit (show_addr remote)])) m
      in snd (spawn (HostConn connection peer_id maps) (Some tok) m))"

definition host_accept_failed :: "token \<Rightarrow> error_chain \<Rightarrow> manager \<Rightarrow> manager" where
  "host_accept_failed tok error m =
     (if tok \<in> set (mg_cancelled m) then m
      else on_status (set_nonfatal (Fmt ''host accept failed: {error:#}'' [Alt error])) m)"

text \<open>
  \<open>handle_host_connection\<close> leaves its loop: cancelled, closed by the peer, or with an error.
\<close>

datatype conn_end = ConnCancelled | ConnApplicationClosed | ConnFailed error_chain

definition host_connection_end :: "task \<Rightarrow> conn_end \<Rightarrow> manager \<Rightarrow> manager" where
  "host_connection_end t reason m =
     (case tk_kind t of
        HostConn connection peer_id maps \<Rightarrow>
          let m = (case reason of
                     ConnFailed error \<Rightarrow>
                       (case tk_token t of
                          Some tok \<Rightarrow>
                            if tok \<in> set (mg_cancelled m) then m
                            else on_status (set_nonfatal (Fmt ''peer stream failed: {error:#}''
                                   [Alt error])) m
                        | None \<Rightarrow> m)
                   | _ \<Rightarrow> m);
              m = on_host maps (\<lambda>h. h\<lparr>hm_live := AList.delete peer_id (hm_live h)\<rparr>) m;
              m = on_status (mark_peer_disconnected peer_id) m
          in abort (tk_id t) m
      | _ \<Rightarrow> m)"

definition kick_peer :: "string \<Rightarrow> manager \<Rightarrow> (error_chain + unit) \<times> manager" where
  "kick_peer peer_id m =
     (case mg_session m of
        None \<Rightarrow> (Inl [Lit ''there is no active session''], m)
      | Some runtime \<Rightarrow>
          (case sr_control runtime of
             CHost host \<Rightarrow>
               (case map_of (hm_live (mg_hosts m ! hc_maps host)) peer_id of
                  None \<Rightarrow> (Inl [Fmt ''player {peer_id} is not among the active connections''
                            [Lit peer_id]], m)
                | Some connection \<Rightarrow>
                    let m = on_host (hc_maps host)
                              (\<lambda>h. h\<lparr>hm_live := AList.delete peer_id (hm_live h)\<rparr>) m;
                        m = close_conn connection 1 ''kicked-by-host'' m;
                        m = on_status (mark_peer_disconnected peer_id) m
                    in (Inr (), on_status (push_log (Fmt ''player {peer_id} was disconnected by the host''
                          [Lit peer_id])) m))
           | _ \<Rightarrow> (Inl [Lit ''a player can be kicked in host mode only''], m)))"

text \<open>The UPnP task stores its mapping in whatever host session there is when it ends.\<close>

definition upnp_task_end :: "nat \<Rightarrow> bool \<Rightarrow> manager \<Rightarrow> manager" where
  "upnp_task_end i mapped m =
     (let m = (if mapped then
                 (case mg_session m of
                    Some rt \<Rightarrow>
                      (case sr_control rt of
                         CHost host \<Rightarrow> m\<lparr>mg_session := Some (rt\<lparr>sr_control := CHost (host\<lparr>hc_upnp := True\<rparr>)\<rparr>)\<rparr>
                       | _ \<Rightarrow> m)
                  | None \<Rightarrow> m)
               else m)
      in abort i m)"

section \<open>Client\<close>

record client_env =
  ce_bind :: "error_chain + sock_addr"
  ce_public :: "error_chain + sock_addr"
  ce_local_ip :: "ip_addr option" \<comment> \<open>the address a UDP socket to a public host would use\<close>
  ce_local_ips :: "string list"
  ce_endpoint :: "error_chain + unit"
  ce_config :: "error_chain + unit"

fun socket_addr_new :: "ip_addr \<Rightarrow> u16 \<Rightarrow> sock_addr" where
  "socket_addr_new (IpV4 a b c d) p = SockV4 a b c d p"
| "socket_addr_new (IpV6 w) p = SockV6 w p 0"

definition prepare_client_control ::
  "client_env \<Rightarrow> sock_addr \<Rightarrow> string \<Rightarrow> string \<Rightarrow> string \<Rightarrow> string \<Rightarrow> string \<Rightarrow> manager \<Rightarrow>
     (error_chain + (prepared_client \<times> sock_addr \<times> sock_addr option)) \<times> manager" where
  "prepare_client_control e peer_addr peer_id room_name host_name mc_version slots m =
     (case ce_bind e of
        Inl err \<Rightarrow> (Inl err, m)
      | Inr udp_bind_addr \<Rightarrow>
          let (public_addr, m) =
                (case ce_public e of
                   Inr a \<Rightarrow> (Some a, m)
                 | Inl err \<Rightarrow>
                     (case ce_local_ip e of
                        Some ip \<Rightarrow>
                          let addr = socket_addr_new ip (sa_port udp_bind_addr)
                          in (Some addr, on_status (push_log
                                (Fmt ''STUN discovery failed, using Local IP fallback: {addr} (Error: {e:#})''
                                  [Lit (show_addr addr), Alt err])) m)
                      | None \<Rightarrow>
                          (None, on_status (push_log
                             (Fmt ''STUN discovery failed, proceeding in Relay mode: {e:#}'' [Alt err])) m)))
          in case ce_endpoint e of
               Inl err \<Rightarrow> (Inl (Lit ''failed to create client QUIC endpoint'' # err), m)
             | Inr _ \<Rightarrow>
                 (case ce_config e of
                    Inl err \<Rightarrow> (Inl err, m)
                  | Inr _ \<Rightarrow>
                      (Inr (\<lparr>pc_peer_addr = peer_addr, pc_peer_id = peer_id, pc_room_name = room_name,
                             pc_host_name = host_name, pc_mc_version = mc_version, pc_slots = slots\<rparr>,
                            udp_bind_addr, public_addr), m)))"

definition start_client_connect ::
  "client_env \<Rightarrow> sock_addr \<Rightarrow> string \<Rightarrow> string option \<Rightarrow> bool \<Rightarrow> manager \<Rightarrow>
     (error_chain + unit) \<times> manager" where
  "start_client_connect e peer_addr peer_id relay_session_id use_udp m =
     (case prepare_client_control e peer_addr peer_id (''P2P '' @ peer_id) peer_id ''Unknown'' ''1/30'' m of
        (Inl err, m) \<Rightarrow> (Inl err, m)
      | (Inr (prepared, udp_bind_addr, public_addr), m) \<Rightarrow>
          let (t, m) = new_token m;
              local_addr = local_addrs '', '' (ce_local_ips e) udp_bind_addr;
              m = on_status (\<lambda>_. client_waiting_status peer_id peer_addr udp_bind_addr local_addr
                    public_addr ''Client ready. Sending handshake and waiting for host.'') m;
              (task, m) = spawn (ClientFlow prepared relay_session_id use_udp) (Some t) m
          in (Inr (), m\<lparr>mg_session := Some \<lparr>sr_cancel = t, sr_tasks = [task],
                sr_control = CClient peer_addr\<rparr>\<rparr>))"

definition parse_peer_addr :: "string \<Rightarrow> error_chain + sock_addr" where
  "parse_peer_addr peer_addr =
     (let peer_addr = trim peer_addr
      in if peer_addr = [] then Inl [Lit ''peer address must not be empty'']
         else case parse_addr peer_addr of
             Some a \<Rightarrow> Inr a
           | None \<Rightarrow> Inl [Fmt ''invalid socket address: {peer_addr}'' [Lit peer_addr],
                        Lit ''invalid socket address syntax''])"

definition connect_to_peer ::
  "client_env \<Rightarrow> string \<Rightarrow> string option \<Rightarrow> string option \<Rightarrow> manager \<Rightarrow> (error_chain + unit) \<times> manager" where
  "connect_to_peer e peer_addr peer_id relay_session_id m =
     (case parse_peer_addr peer_addr of
        Inl err \<Rightarrow> (Inl err, m)
      | Inr peer_addr \<Rightarrow>
          (case punch_from_host peer_addr peer_id relay_session_id m of
             (True, m) \<Rightarrow> (Inr (), m)
           | (False, m) \<Rightarrow>
               start_client_connect e peer_addr
                 (case peer_id of Some i \<Rightarrow> i | None \<Rightarrow> show_addr peer_addr) relay_session_id False
                 (reset_session m)))"

definition prepare_client_connect ::
  "client_env \<Rightarrow> string \<Rightarrow> string option \<Rightarrow> string option \<Rightarrow> string option \<Rightarrow> string option \<Rightarrow>
     string option \<Rightarrow> manager \<Rightarrow> (error_chain + unit) \<times> manager" where
  "prepare_client_connect e peer_addr peer_id room_name host_name mc_version slots m =
     (case parse_peer_addr peer_addr of
        Inl err \<Rightarrow> (Inl err, m)
      | Inr peer_addr \<Rightarrow>
          let peer_id = (case peer_id of Some i \<Rightarrow> i | None \<Rightarrow> show_addr peer_addr);
              unwrap_or = (\<lambda>d x. case x of Some v \<Rightarrow> v | None \<Rightarrow> d)
          in case prepare_client_control e peer_addr peer_id (unwrap_or (''P2P '' @ peer_id) room_name)
                    (unwrap_or peer_id host_name) (unwrap_or ''Unknown'' mc_version)
                    (unwrap_or ''1/30'' slots) (reset_session m) of
               (Inl err, m) \<Rightarrow> (Inl err, m)
             | (Inr (prepared, udp_bind_addr, public_addr), m) \<Rightarrow>
                 let (t, m) = new_token m;
                     m = on_status (\<lambda>_. client_waiting_status peer_id peer_addr udp_bind_addr None public_addr
                           ''Client UDP endpoint prepared. Waiting for relay ack from host.'') m
                 in (Inr (), m\<lparr>mg_session := Some \<lparr>sr_cancel = t, sr_tasks = [],
                       sr_control = CPrepared prepared\<rparr>\<rparr>))"

definition commit_prepared_client_connect ::
  "string option \<Rightarrow> bool \<Rightarrow> manager \<Rightarrow> (error_chain + unit) \<times> manager" where
  "commit_prepared_client_connect relay_session_id use_udp m =
     (case mg_session m of
        None \<Rightarrow> (Inl [Lit ''there is no prepared client session''], m)
      | Some rt \<Rightarrow>
          let m = fold abort (sr_tasks rt) (m\<lparr>mg_session := None\<rparr>)
          in case sr_control rt of
               CPrepared prepared \<Rightarrow>
                 let (task, m) = spawn (ClientFlow prepared relay_session_id use_udp) (Some (sr_cancel rt)) m;
                     m = m\<lparr>mg_session := Some \<lparr>sr_cancel = sr_cancel rt, sr_tasks = [task],
                           sr_control = CClient (pc_peer_addr prepared)\<rparr>\<rparr>
                 in (Inr (), on_status (set_handshake_confirmed (pc_peer_id prepared)) m)
             | control \<Rightarrow>
                 (Inl [Lit ''the client endpoint is not prepared''],
                  m\<lparr>mg_session := Some \<lparr>sr_cancel = sr_cancel rt, sr_tasks = [], sr_control = control\<rparr>\<rparr>))"

end
