(* ===== verification/Manager_Flow.thy ===== *)
theory Manager_Flow
  imports Manager_Ops
begin

text \<open>
  The flows of \<open>manager.rs\<close> that run inside a task and show on the status: the client's
  connection attempts with the relay as fallback, the proxy, ping and close tasks of an
  established connection, what the wrapper makes of a failure, and the writes of the host's
  e4mc fallback. They are functions of the status and of what the network answers.
\<close>

definition CLIENT_CONNECT_RETRY_ATTEMPTS :: nat where
  "CLIENT_CONNECT_RETRY_ATTEMPTS = 10"

section \<open>Direct connection\<close>

datatype quic_attempt =
    QuicEstablished conn u64
  | QuicStartFailed error_chain
  | QuicFailed error_chain
  | QuicTimedOut

record attempt_env =
  ae_cancelled :: bool \<comment> \<open>the token, before the attempt\<close>
  ae_result :: quic_attempt

fun connect_attempts ::
  "nat \<Rightarrow> attempt_env list \<Rightarrow> error_chain option \<Rightarrow> network_status \<Rightarrow>
     (error_chain + (conn \<times> u64)) \<times> network_status" where
  "connect_attempts n [] last_error s =
     (Inl (case last_error of Some e \<Rightarrow> e | None \<Rightarrow> [Lit ''could not establish a QUIC session'']), s)"
| "connect_attempts n (a # as) last_error s =
     (if ae_cancelled a then (Inl [Lit ''connection cancelled''], s)
      else
        let s = set_connect_attempt n s
        in case ae_result a of
             QuicEstablished c rtt \<Rightarrow> (Inr (c, rtt), s)
           | QuicStartFailed e \<Rightarrow>
               connect_attempts (Suc n) as (Some [Fmt ''could not start QUIC connect: {e}'' [Alt (take 1 e)]]) s
           | QuicFailed e \<Rightarrow> connect_attempts (Suc n) as (Some e) s
           | QuicTimedOut \<Rightarrow> connect_attempts (Suc n) as (Some [Lit ''QUIC handshake timed out'']) s)"

definition connect_with_retries ::
  "attempt_env list \<Rightarrow> network_status \<Rightarrow> (error_chain + (conn \<times> u64)) \<times> network_status" where
  "connect_with_retries attempts s =
     connect_attempts 1 (take CLIENT_CONNECT_RETRY_ATTEMPTS attempts) None s"

section \<open>The tasks of a direct connection\<close>

text \<open>
  \<open>spawn_client_proxy_loop\<close>: the loop and the connections it has spawned, which outlive it. \<open>PxEnded\<close> is the end of one
  of them, \<open>PxListenFailed\<close> an error of the listener with the state of the token then.
\<close>

datatype proxy_event =
    PxAccepted
  | PxEnded "error_chain + unit"
  | PxListenFailed error_chain bool
  | PxCancelled

record client_proxy =
  px_running :: bool
  px_open :: nat
  px_status :: network_status

definition client_proxy_step :: "proxy_event \<Rightarrow> 'a client_proxy_scheme \<Rightarrow> 'a client_proxy_scheme" where
  "client_proxy_step e s =
     (case e of
        PxAccepted \<Rightarrow> if px_running s then s\<lparr>px_open := px_open s + 1\<rparr> else s
      | PxEnded r \<Rightarrow>
          if px_open s = 0 then s
          else s\<lparr>px_open := px_open s - 1,
                 px_status := (case r of
                    Inl error \<Rightarrow> set_nonfatal (Fmt ''the local TCP->QUIC proxy ended with an error: {error:#}''
                                   [Alt error]) (px_status s)
                  | Inr _ \<Rightarrow> px_status s)\<rparr>
      | PxListenFailed error cancelled \<Rightarrow>
          if px_running s then
            s\<lparr>px_running := False,
              px_status := (if cancelled then px_status s
                 else set_nonfatal (Fmt ''local proxy listener failed: {error:#}'' [Alt error]) (px_status s))\<rparr>
          else s
      | PxCancelled \<Rightarrow> s\<lparr>px_running := False\<rparr>)"

text \<open>\<open>spawn_client_close_loop\<close>.\<close>

definition client_connection_closed :: "string \<Rightarrow> string \<Rightarrow> bool \<Rightarrow> network_status \<Rightarrow> network_status" where
  "client_connection_closed peer_id error cancelled s =
     (if cancelled then s
      else
        let s = mark_peer_disconnected peer_id s
        in fatal_status ModeClient None [Fmt ''QUIC connection closed: {error}'' [Lit error]])"

text \<open>
  What happens on an established direct connection, in order: the events of the proxy loop and
  its connections, the ticks of the ping loop - the round-trip time, the counters of the
  connection, and whether it has a close reason by then - and its end.
\<close>

record link_stats =
  ls_lost :: u64
  ls_sent :: u64
  ls_rx :: u64
  ls_tx :: u64

datatype link_event =
    LkProxy proxy_event
  | LkTick u64 link_stats bool
  | LkClosed string

text \<open>The three tasks the flow joins: the proxy loop, the ping loop and the close loop.\<close>

record link = client_proxy +
  lk_pinging :: bool
  lk_watching :: bool

definition link_up :: "network_status \<Rightarrow> link" where
  "link_up s = \<lparr>px_running = True, px_open = 0, px_status = s, lk_pinging = True, lk_watching = True\<rparr>"

definition link_over :: "link \<Rightarrow> bool" where
  "link_over l \<longleftrightarrow> \<not> px_running l \<and> \<not> lk_pinging l \<and> \<not> lk_watching l"

definition link_step :: "string \<Rightarrow> link_event \<Rightarrow> link \<Rightarrow> link" where
  "link_step peer_id e l =
     (case e of
        LkProxy p \<Rightarrow> client_proxy_step p l
      | LkTick rtt stats closed \<Rightarrow>
          if lk_pinging l then
            l\<lparr>px_status := update_peer_ping peer_id rtt (px_status l), lk_pinging := \<not> closed\<rparr>
          else l
      | LkClosed error \<Rightarrow>
          if lk_watching l then
            l\<lparr>px_status := client_connection_closed peer_id error False (px_status l), lk_watching := False\<rparr>
          else l)"

text \<open>
  The flow waits for the three tasks or for the cancellation, \<open>LkProxy PxCancelled\<close>; the result
  is false while it still waits after these events.
\<close>

fun link_run :: "string \<Rightarrow> link_event list \<Rightarrow> link \<Rightarrow> bool \<times> network_status" where
  "link_run peer_id [] l = (link_over l, px_status l)"
| "link_run peer_id (e # es) l =
     (if link_over l \<or> e = LkProxy PxCancelled then (True, px_status l)
      else link_run peer_id es (link_step peer_id e l))"

section \<open>Flow\<close>

text \<open>
  What the network answers to the flow, up to some moment: what happens on the direct
  connection, and for the relay the round-trip times reported before and after its client is
  up, the result of starting it and, once it has ended, that of its runtime.
\<close>

record flow_env =
  fe_cancelled_in_grace :: bool
  fe_attempts :: "attempt_env list"
  fe_local_listener :: "error_chain + u16"
  fe_link :: "link_event list"
  fe_relay_early_pings :: "u64 list"
  fe_relay_start :: "error_chain + u16"
  fe_relay_pings :: "u64 list"
  fe_relay_wait :: "(error_chain + unit) option"

text \<open>
  The flows return \<open>None\<close> while they go on after these answers. The LAN broadcaster both start
  (\<open>Lan_Broadcast\<close>) writes nothing to the status and its result is dropped.
\<close>

definition run_relay_client_tunnel ::
  "flow_env \<Rightarrow> sock_addr \<Rightarrow> string \<Rightarrow> string \<Rightarrow> bool \<Rightarrow> network_status \<Rightarrow>
     (error_chain + unit) option \<times> network_status" where
  "run_relay_client_tunnel e peer_addr peer_id session_id use_udp s =
     (let s = set_relay_connecting use_udp s;
          s = fold (update_peer_ping peer_id) (fe_relay_early_pings e) s
      in case fe_relay_start e of
           Inl err \<Rightarrow>
             (Some (Inl (Fmt ''failed to start WSS relay client session {session_id}'' [Lit session_id] # err)), s)
         | Inr local_port \<Rightarrow>
             let s = set_connected ''wss-relay'' local_port peer_id peer_addr None s;
                 s = push_log (Fmt ''Relay fallback ready for {peer_addr} via session {session_id}.''
                       [Lit (show_addr peer_addr), Lit session_id]) s;
                 s = fold (update_peer_ping peer_id) (fe_relay_pings e) s
             in (fe_relay_wait e, s))"

definition run_client_connect_flow ::
  "flow_env \<Rightarrow> sock_addr \<Rightarrow> string \<Rightarrow> string option \<Rightarrow> bool \<Rightarrow> network_status \<Rightarrow>
     (error_chain + unit) option \<times> network_status" where
  "run_client_connect_flow e peer_addr peer_id relay_session_id use_udp s =
     (let s = set_client_starting s
      in if fe_cancelled_in_grace e then (Some (Inl [Lit ''connection cancelled'']), s)
         else case connect_with_retries (fe_attempts e) s of
             (Inl direct_error, s) \<Rightarrow>
               let s = push_log (Fmt ''Direct QUIC path failed for {peer_addr}: {direct_error:#}''
                         [Lit (show_addr peer_addr), Alt direct_error]) s
               in (case relay_session_id of
                     Some session_id \<Rightarrow>
                       let s = push_log (Fmt ''Switching to relay fallback for session {session_id}.''
                                 [Lit session_id]) s
                       in (case run_relay_client_tunnel e peer_addr peer_id session_id use_udp s of
                             (Some (Inl relay_error), s) \<Rightarrow>
                               (Some (Inl [Fmt ''direct tunnel failed: {direct_error:#} relay fallback failed: {relay_error:#}''
                                  [Alt direct_error, Alt relay_error]]), s)
                           | (r, s) \<Rightarrow> (r, s))
                   | None \<Rightarrow> (Some (Inl direct_error), s))
           | (Inr (c, rtt), s) \<Rightarrow>
               (case fe_local_listener e of
                  Inl err \<Rightarrow> (Some (Inl (Lit ''could not find a free port for the local proxy'' # err)), s)
                | Inr local_port \<Rightarrow>
                    let s = set_connected ''direct-quic'' local_port peer_id peer_addr (Some rtt) s;
                        s = push_log (Fmt ''local proxy on 127.0.0.1:{local_port} is up''
                              [Lit (show_word local_port)]) s
                    in (case link_run peer_id (fe_link e) (link_up s) of
                          (joined, s) \<Rightarrow> (if joined then Some (Inr ()) else None, s))))"

text \<open>\<open>spawn_client_connect_task\<close>: the failure of the flow, unless the session was cancelled.\<close>

definition client_connect_task ::
  "flow_env \<Rightarrow> sock_addr \<Rightarrow> string \<Rightarrow> string option \<Rightarrow> bool \<Rightarrow> bool \<Rightarrow> network_status \<Rightarrow> network_status" where
  "client_connect_task e peer_addr peer_id relay_session_id use_udp cancelled s =
     (case run_client_connect_flow e peer_addr peer_id relay_session_id use_udp s of
        (Some (Inl error), s) \<Rightarrow> if cancelled then s else fatal_status ModeClient None error
      | (_, s) \<Rightarrow> s)"

text \<open>\<open>handle_client_proxy_connection\<close>: three attempts to open a stream.\<close>

datatype open_attempt = OpenOk nat | OpenError error_chain | OpenTimeout

fun open_bi_attempts :: "open_attempt list \<Rightarrow> error_chain option \<Rightarrow> error_chain + nat" where
  "open_bi_attempts [] last_error =
     Inl (case last_error of Some e \<Rightarrow> e | None \<Rightarrow> [Lit ''could not open a QUIC stream to the host''])"
| "open_bi_attempts (OpenOk s # as) last_error = Inr s"
| "open_bi_attempts (OpenError e # as) last_error = open_bi_attempts as (Some e)"
| "open_bi_attempts (OpenTimeout # as) last_error = open_bi_attempts as (Some [Lit ''open_bi timed out''])"

definition open_client_stream :: "open_attempt list \<Rightarrow> error_chain + nat" where
  "open_client_stream attempts = open_bi_attempts (take 3 attempts) None"

text \<open>The outcome of one attempt, and the loop as one of those that keep the last error.\<close>

definition open_result :: "open_attempt \<Rightarrow> error_chain + nat" where
  "open_result a = (case a of OpenOk s \<Rightarrow> Inr s | OpenError e \<Rightarrow> Inl e | OpenTimeout \<Rightarrow> Inl [Lit ''open_bi timed out''])"

definition no_stream :: "error_chain option \<Rightarrow> error_chain" where
  "no_stream last_error =
     (case last_error of Some e \<Rightarrow> e | None \<Rightarrow> [Lit ''could not open a QUIC stream to the host''])"

interpretation open_bi: retry open_result "\<lambda>l as. open_bi_attempts as l" no_stream
proof
  show "open_bi_attempts [] l = Inl (no_stream l)" for l by (simp add: no_stream_def)
  show "open_bi_attempts (a # as) l = (case open_result a of Inr y \<Rightarrow> Inr y | Inl e \<Rightarrow> open_bi_attempts as (Some e))"
    for l a as by (cases a) (simp_all add: open_result_def)
qed

text \<open>
  A stream is that of the first attempt that succeeds, if it is among the first three; the
  error is otherwise that of the last attempt made.
\<close>

theorem client_stream_outcome:
  "(open_client_stream attempts = Inr s \<longleftrightarrow>
      (\<exists>before after. take 3 attempts = before @ OpenOk s # after \<and> (\<forall>a \<in> set before. isl (open_result a))))
   \<and> (open_client_stream attempts = Inl e \<longleftrightarrow> (\<forall>a \<in> set (take 3 attempts). isl (open_result a))
        \<and> e = no_stream (if attempts = [] then None else Some (projl (open_result (last (take 3 attempts))))))"
proof -
  have "open_result a = Inr s \<longleftrightarrow> a = OpenOk s" for a
    by (cases a) (simp_all add: open_result_def)
  then show ?thesis
    unfolding open_client_stream_def open_bi.run_success open_bi.run_failure by auto
qed

section \<open>The e4mc fallback of a host\<close>

record e4mc_probe =
  pr_version :: "string option"
  pr_online :: u32
  pr_max :: u32

text \<open>
  The loop of \<open>spawn_e4mc_host_runtime\<close>, as the writes to the status it makes, in order. Each
  takes the lock of the status for itself, so those of other tasks may come between any two
  of them. One verification attempt: whether the token is cancelled before it, and its result.
\<close>

fun verify_attempts ::
  "nat \<Rightarrow> (bool \<times> (error_chain + e4mc_probe)) list \<Rightarrow> string \<Rightarrow> u16 \<Rightarrow> error_chain option \<Rightarrow>
     (error_chain + e4mc_probe) \<times> status_op list" where
  "verify_attempts n [] domain port last_error =
     (Inl (case last_error of Some e \<Rightarrow> e
           | None \<Rightarrow> [Lit ''e4mc verification failed without a concrete error'']), [])"
| "verify_attempts n ((cancelled, r) # as) domain port last_error =
     (if cancelled then (Inl [Lit ''e4mc verification cancelled''], [])
      else
        let log = OpPushLog (Fmt ''Verifying e4mc public domain {domain} (attempt {attempt}/6) via public Minecraft port 25565 -> local {local_game_port}.''
                  [Lit domain, Lit (show_nat n), Lit (show_word port)])
        in case r of
             Inr probe \<Rightarrow> (Inr probe, [log])
           | Inl error \<Rightarrow> map_prod id ((#) log) (verify_attempts (Suc n) as domain port (Some error)))"

definition verify_e4mc_public_domain ::
  "(bool \<times> (error_chain + e4mc_probe)) list \<Rightarrow> string \<Rightarrow> u16 \<Rightarrow> (error_chain + e4mc_probe) \<times> status_op list" where
  "verify_e4mc_public_domain attempts domain port = verify_attempts 1 (take 6 attempts) domain port None"

text \<open>
  One round, for whatever \<open>e4mc::start_host_runtime\<close> returned; in this build it is always an error
  (\<open>Manager_Tasks.e4mc_start_host_runtime\<close>). The event a verification sends is left out.
\<close>

record e4mc_round =
  er_start :: "error_chain + string"
  er_verification :: "(bool \<times> (error_chain + e4mc_probe)) list"
  er_wait :: "error_chain + unit"
  er_cancelled :: bool \<comment> \<open>the token, when the runtime or its start has ended\<close>

definition e4mc_round_writes :: "e4mc_round \<Rightarrow> u16 \<Rightarrow> status_op list" where
  "e4mc_round_writes r port =
     OpPushLog (Fmt ''Starting e4mc public fallback for local Minecraft 127.0.0.1:{local_game_port}.''
       [Lit (show_word port)]) #
     (case er_start r of
        Inl error \<Rightarrow>
          if er_cancelled r then []
          else [OpPushLog (Fmt ''e4mc fallback unavailable: {error:#}. Retrying in 10s...'' [Alt error])]
      | Inr domain \<Rightarrow>
          let (verification, logs) = verify_e4mc_public_domain (er_verification r) domain port
          in [OpE4mcAssigned domain, OpPushLog (Fmt ''e4mc public domain assigned: {domain}'' [Lit domain])]
             @ logs
             @ (case verification of
                  Inr probe \<Rightarrow>
                    [OpE4mcVerified domain,
                     OpPushLog (Fmt ''e4mc public domain verified: {domain} -> Minecraft {} ({}/{})''
                      [Lit domain, Lit (case pr_version probe of Some v \<Rightarrow> v | None \<Rightarrow> ''unknown''),
                       Lit (show_word (pr_online probe)), Lit (show_word (pr_max probe))])]
                | Inl error \<Rightarrow>
                    [OpE4mcFailed domain,
                     OpPushLog (Fmt ''e4mc verification failed for {domain}; public link disabled: {error:#}''
                      [Lit domain, Alt error])])
             @ (case er_wait r of
                  Inl error \<Rightarrow>
                    if er_cancelled r then []
                    else [OpPushLog (Fmt ''e4mc session terminated: {error:#}. Restarting in 5s...'' [Alt error])]
                | Inr _ \<Rightarrow> []))"

section \<open>Properties\<close>

text \<open>What an attempt that does not establish a connection leaves in \<open>last_error\<close>.\<close>

fun attempt_error :: "quic_attempt \<Rightarrow> error_chain option" where
  "attempt_error (QuicEstablished c rtt) = None"
| "attempt_error (QuicStartFailed e) = Some [Fmt ''could not start QUIC connect: {e}'' [Alt (take 1 e)]]"
| "attempt_error (QuicFailed e) = Some e"
| "attempt_error QuicTimedOut = Some [Lit ''QUIC handshake timed out'']"

definition failed_attempt :: "attempt_env \<Rightarrow> bool" where
  "failed_attempt a \<longleftrightarrow> \<not> ae_cancelled a \<and> attempt_error (ae_result a) \<noteq> None"

lemma connect_attempts_failed:
  "failed_attempt a \<Longrightarrow> connect_attempts n (a # as) l s =
     connect_attempts (Suc n) as (attempt_error (ae_result a)) (set_connect_attempt n s)"
  by (cases "ae_result a") (auto simp: failed_attempt_def Let_def)

lemma connect_attempts_all_failed:
  "list_all failed_attempt fails \<Longrightarrow> connect_attempts n (fails @ as) l s =
     connect_attempts (n + length fails) as
       (if fails = [] then l else attempt_error (ae_result (last fails)))
       (fold set_connect_attempt [n..<n + length fails] s)"
proof (induction fails arbitrary: n l s)
  case (Cons a fails)
  then show ?case
    by (simp add: connect_attempts_failed upt_conv_Cons del: connect_attempts.simps upt_Suc)
qed simp

lemma connect_note:
  "ns_note (set_connect_attempt n s) =
     Some (Fmt ''QUIC handshake, attempt {attempt}/10, waiting for the NAT punch'' [Lit (show_nat n)])"
  by (simp add: set_connect_attempt_def mutate_status_def Let_def)

lemma retries_take:
  "length fails < 10 \<Longrightarrow> take 10 (fails @ a # rest) = fails @ a # take (9 - length fails) rest"
  by (simp add: take_Cons')

lemma retries_to:
  assumes "list_all failed_attempt fails" "length fails < 10"
  shows "connect_with_retries (fails @ a # rest) s =
     connect_attempts (Suc (length fails)) (a # take (9 - length fails) rest)
       (if fails = [] then None else attempt_error (ae_result (last fails)))
       (fold set_connect_attempt [1..<Suc (length fails)] s)"
  using assms
  by (simp only: connect_with_retries_def CLIENT_CONNECT_RETRY_ATTEMPTS_def retries_take
      connect_attempts_all_failed add_Suc add_0 One_nat_def)

text \<open>
  C21: \<open>connect_with_retries\<close> makes at most ten attempts and returns the first connection
  that is established, whatever the kinds of the failures before it; the status then names
  the number of that attempt. A cancellation is noticed before the next attempt. When ten
  attempts fail, the error is that of the tenth, and attempts beyond are not made.
\<close>

theorem direct_connection_outcome:
  assumes "list_all failed_attempt fails" and "length fails < 10" and "failed_attempt f"
  shows "(\<forall>c rtt. \<not> ae_cancelled a \<longrightarrow> ae_result a = QuicEstablished c rtt \<longrightarrow>
        fst (connect_with_retries (fails @ a # rest) s) = Inr (c, rtt)
        \<and> ns_note (snd (connect_with_retries (fails @ a # rest) s)) =
            Some (Fmt ''QUIC handshake, attempt {attempt}/10, waiting for the NAT punch''
              [Lit (show_nat (Suc (length fails)))]))
    \<and> (ae_cancelled a \<longrightarrow>
        fst (connect_with_retries (fails @ a # rest) s) = Inl [Lit ''connection cancelled''])
    \<and> (length fails = 9 \<longrightarrow>
        Some (fst (connect_with_retries (fails @ f # rest) s)) =
          map_option Inl (attempt_error (ae_result f)))"
proof -
  note run = retries_to [OF assms(1,2)]
  have "Some (fst (connect_with_retries (fails @ f # rest) s)) =
      map_option Inl (attempt_error (ae_result f))" if "length fails = 9"
    using that assms(3) unfolding run connect_attempts_failed [OF assms(3)]
    by (auto simp: failed_attempt_def simp del: upt_Suc)
  then show ?thesis
    unfolding run by (simp add: connect_note del: upt_Suc)
qed

definition timed_out_attempt :: attempt_env where
  "timed_out_attempt = \<lparr>ae_cancelled = False, ae_result = QuicTimedOut\<rparr>"

lemma timed_out_failed: "failed_attempt timed_out_attempt"
  by (simp add: failed_attempt_def timed_out_attempt_def)

theorem direct_connection_outcome_witness:
  "fst (connect_with_retries (replicate 9 timed_out_attempt @
       [timed_out_attempt, \<lparr>ae_cancelled = False, ae_result = QuicEstablished 5 20\<rparr>]) initial_status)
     = Inl [Lit ''QUIC handshake timed out'']
   \<and> fst (connect_with_retries ([timed_out_attempt] @
       [\<lparr>ae_cancelled = False, ae_result = QuicEstablished 5 20\<rparr>]) initial_status) = Inr (5, 20)"
proof
  show "fst (connect_with_retries (replicate 9 timed_out_attempt @
       [timed_out_attempt, \<lparr>ae_cancelled = False, ae_result = QuicEstablished 5 20\<rparr>]) initial_status)
     = Inl [Lit ''QUIC handshake timed out'']"
    using direct_connection_outcome [of "replicate 9 timed_out_attempt" timed_out_attempt
        timed_out_attempt "[\<lparr>ae_cancelled = False, ae_result = QuicEstablished 5 20\<rparr>]" initial_status]
      timed_out_failed by (simp add: list_all_iff) (simp add: timed_out_attempt_def)
  show "fst (connect_with_retries ([timed_out_attempt] @
       [\<lparr>ae_cancelled = False, ae_result = QuicEstablished 5 20\<rparr>]) initial_status) = Inr (5, 20)"
    using direct_connection_outcome [of "[timed_out_attempt]" timed_out_attempt
        "\<lparr>ae_cancelled = False, ae_result = QuicEstablished 5 20\<rparr>" "[]" initial_status]
      timed_out_failed by simp
qed

subsection \<open>The client's flow\<close>

lemma push_log_fields [simp]:
  "ns_mode (push_log m s) = ns_mode s" "ns_state (push_log m s) = ns_state s"
  "ns_transport_path (push_log m s) = ns_transport_path s" "ns_peers (push_log m s) = ns_peers s"
  "ns_note (push_log m s) = ns_note s" "ns_last_error (push_log m s) = ns_last_error s"
  "ns_e4mc_domain (push_log m s) = ns_e4mc_domain s"
  "ns_e4mc_verified (push_log m s) = ns_e4mc_verified s"
  "ns_public_join_address (push_log m s) = ns_public_join_address s"
  "ns_peer_count (push_log m s) = connected_count (ns_peers s)"
  by (simp_all add: push_log_def mutate_status_def connected_count_def Let_def)

lemma set_connected_fields [simp]:
  "ns_state (set_connected t p i a g s) = Connected"
  "ns_transport_path (set_connected t p i a g s) = Some t"
  "ns_peers (set_connected t p i a g s) = [connected_peer i a g t]"
  "ns_mode (set_connected t p i a g s) = ns_mode s"
  by (simp_all add: set_connected_def mutate_status_def Let_def)

definition via :: "string \<Rightarrow> string \<Rightarrow> sock_addr \<Rightarrow> u64 option \<Rightarrow> network_status \<Rightarrow> bool" where
  "via transport peer_id peer_addr ping s \<longleftrightarrow>
     ns_state s = Connected \<and> ns_transport_path s = Some transport
     \<and> ns_peers s = [connected_peer peer_id peer_addr ping transport]"

lemma connect_attempts_cong:
  "fst (connect_attempts n as l s) = fst (connect_attempts n as l s')"
proof (induction as arbitrary: n l s s')
  case (Cons a as)
  then show ?case
    by (cases "ae_result a") (auto simp: Let_def intro: Cons.IH)
qed simp

text \<open>The direct attempt as the flow sees it; its result does not depend on the status.\<close>

definition direct_result :: "flow_env \<Rightarrow> error_chain + (conn \<times> u64)" where
  "direct_result e = fst (connect_with_retries (fe_attempts e) default_status)"

lemma direct_result_any:
  obtains s' where "connect_with_retries (fe_attempts e) s = (direct_result e, s')"
  unfolding direct_result_def connect_with_retries_def
  by (metis connect_attempts_cong prod.collapse)

text \<open>The connected phase: what the status shows while the connection is up, and after its end.\<close>

fun pings :: "link_event list \<Rightarrow> u64 list" where
  "pings (LkTick rtt stats closed # es) = rtt # (if closed then [] else pings es)"
| "pings (_ # es) = pings es"
| "pings [] = []"

definition down :: "network_status \<Rightarrow> bool" where
  "down s \<longleftrightarrow> ns_mode s = ModeClient \<and> ns_state s = Error \<and> ns_transport_path s = None \<and> ns_peers s = []"

lemma set_nonfatal_fields [simp]:
  "ns_mode (set_nonfatal m s) = ns_mode s" "ns_state (set_nonfatal m s) = ns_state s"
  "ns_transport_path (set_nonfatal m s) = ns_transport_path s" "ns_peers (set_nonfatal m s) = ns_peers s"
  by (simp_all add: set_nonfatal_def mutate_status_def Let_def)

lemma ping_fields [simp]:
  "ns_mode (update_peer_ping i g s) = ns_mode s" "ns_state (update_peer_ping i g s) = ns_state s"
  "ns_transport_path (update_peer_ping i g s) = ns_transport_path s"
  by (simp_all add: update_peer_ping_def mutate_status_def Let_def)

lemma ping_peers: "ns_peers (update_peer_ping i g s) =
    update_first (\<lambda>p. pi_peer_id p = i) (\<lambda>p. p\<lparr>pi_ping_ms := Some g\<rparr>) (ns_peers s)"
  by (simp add: update_peer_ping_def mutate_status_def Let_def)

lemma via_ping: "via t i a h s \<Longrightarrow> via t i a (Some g) (update_peer_ping i g s)"
  by (simp add: via_def ping_peers connected_peer_def)

lemma via_pings: "via t i a h s \<Longrightarrow> via t i a (if gs = [] then h else Some (last gs)) (fold (update_peer_ping i) gs s)"
proof (induction gs arbitrary: h s)
  case (Cons g gs)
  then show ?case using Cons.IH [OF via_ping [OF Cons.prems]] by (auto split: if_splits)
qed simp

lemma via_nonfatal: "via t i a h s \<Longrightarrow> via t i a h (set_nonfatal m s)"
  by (simp add: via_def)

lemma down_writes:
  "down s \<Longrightarrow> down (update_peer_ping i g s)" "down s \<Longrightarrow> down (set_nonfatal m s)"
  "down (client_connection_closed i err False s)"
  by (simp_all add: down_def ping_peers client_connection_closed_def fatal_status_def default_status_def Let_def)

lemma proxy_writes:
  "px_status (client_proxy_step p l) = px_status l \<or> (\<exists>m. px_status (client_proxy_step p l) = set_nonfatal m (px_status l))"
  by (auto simp: client_proxy_step_def split: proxy_event.split sum.split)

lemma proxy_keeps [simp]:
  "lk_pinging (client_proxy_step p l) = lk_pinging l" "lk_watching (client_proxy_step p l) = lk_watching l"
  by (auto simp: client_proxy_step_def split: proxy_event.split sum.split)

lemma down_run: "down (px_status l) \<Longrightarrow> down (snd (link_run i es l))"
proof (induction es arbitrary: l)
  case (Cons e es)
  have "down (px_status (link_step i e l))"
    using Cons.prems proxy_writes down_writes
    by (auto simp: link_step_def split: link_event.split) (metis proxy_writes down_writes(2))
  then show ?case using Cons by simp
qed simp

lemma link_run_open:
  assumes "lk_watching l" and "via t i a (Some g) (px_status l)"
    and "LkProxy PxCancelled \<notin> set es" and "\<forall>x. LkClosed x \<notin> set es"
  shows "\<not> fst (link_run i es l)
    \<and> via t i a (Some (last (g # (if lk_pinging l then pings es else [])))) (snd (link_run i es l))"
  using assms
proof (induction es arbitrary: l g)
  case (Cons e es)
  have r: "link_run i (e # es) l = link_run i es (link_step i e l)"
    using Cons.prems by (auto simp: link_over_def)
  have w: "lk_watching (link_step i e l)"
    using Cons.prems by (cases e) (auto simp: link_step_def)
  have c: "LkProxy PxCancelled \<notin> set es" "\<forall>x. LkClosed x \<notin> set es" using Cons.prems by auto
  consider (proxy) p where "e = LkProxy p" | (tick) rtt st cl where "e = LkTick rtt st cl" "lk_pinging l"
    | (silent) rtt st cl where "e = LkTick rtt st cl" "\<not> lk_pinging l"
    using Cons.prems by (cases e) auto
  then show ?case
  proof cases
    case proxy
    have "via t i a (Some g) (px_status (link_step i e l))"
      using Cons.prems(2) proxy_writes [of p l] via_nonfatal by (auto simp: proxy link_step_def)
    from Cons.IH [OF w this c] show ?thesis unfolding r
      by (cases "lk_pinging l"; cases "pings es") (simp_all add: proxy link_step_def)
  next
    case tick
    have "via t i a (Some rtt) (px_status (link_step i e l))"
      using Cons.prems(2) tick by (simp add: link_step_def via_ping)
    from Cons.IH [OF w this c] show ?thesis unfolding r using tick by (cases cl) (simp_all add: link_step_def)
  next
    case silent
    then have "link_step i e l = l" by (simp add: link_step_def)
    then show ?thesis unfolding r using Cons.IH [OF Cons.prems(1,2) c] silent by simp
  qed
qed (simp add: link_over_def)

lemma link_run_closed:
  assumes "lk_watching l" and "LkProxy PxCancelled \<notin> set es" and "LkClosed x \<in> set es"
  shows "down (snd (link_run i es l))"
  using assms
proof (induction es arbitrary: l)
  case (Cons e es)
  have r: "link_run i (e # es) l = link_run i es (link_step i e l)"
    using Cons.prems by (auto simp: link_over_def)
  show ?case
  proof (cases "\<exists>y. e = LkClosed y")
    case True
    then have "down (px_status (link_step i e l))"
      using Cons.prems(1) by (auto simp: link_step_def down_writes(3))
    then show ?thesis using down_run r by simp
  next
    case False
    then have "lk_watching (link_step i e l)" "LkClosed x \<in> set es" "LkProxy PxCancelled \<notin> set es"
      using Cons.prems by (auto simp: link_step_def split: link_event.split)
    then show ?thesis using Cons.IH r by simp
  qed
qed simp

lemma link_run_joins:
  assumes "LkProxy PxCancelled \<notin> set es"
  shows "fst (link_run i es l) \<longleftrightarrow> (lk_watching l \<longrightarrow> (\<exists>x. LkClosed x \<in> set es))
     \<and> (px_running l \<longrightarrow> (\<exists>err c. LkProxy (PxListenFailed err c) \<in> set es))
     \<and> (lk_pinging l \<longrightarrow> (\<exists>rtt st. LkTick rtt st True \<in> set es))"
  using assms
proof (induction es arbitrary: l)
  case (Cons e es)
  show ?case
  proof (cases "link_over l")
    case True
    then show ?thesis by (simp add: link_over_def)
  next
    case False
    then have r: "link_run i (e # es) l = link_run i es (link_step i e l)"
      using Cons.prems by auto
    have "LkProxy PxCancelled \<notin> set es" using Cons.prems by simp
    note IH = Cons.IH [OF this, of "link_step i e l"]
    show ?thesis
      unfolding r IH using Cons.prems
      by (cases e) (auto simp: link_step_def client_proxy_step_def split: proxy_event.split)
  qed
qed (auto simp: link_over_def)

text \<open>
  C22: what a client's status shows when its flow has seen the given answers and has not been
  cancelled. If one of the direct attempts connects and the local proxy gets a port, the flow
  goes on for as long as the connection is not closed, and the only peer is connected over
  \<open>direct-quic\<close> with the last round-trip time measured; from the moment the connection is
  closed the status is an error without transport and peers, and the flow returns, without an
  error, once the proxy's listener has failed and the ping loop has noticed the end as well.
  If no attempt connects and no relay session was agreed, the status is the direct error. If
  one was agreed and its relay starts, the peer is connected over \<open>wss-relay\<close> until the relay
  ends; if the relay does not start or ends in an error, the status names both errors.
\<close>

theorem client_flow_outcome:
  assumes "\<not> fe_cancelled_in_grace e" and "LkProxy PxCancelled \<notin> set (fe_link e)"
    and "res = fst (run_client_connect_flow e a i sid u s)" and "st = client_connect_task e a i sid u False s"
  shows "case direct_result e of
      Inr (c, rtt) \<Rightarrow>
        (case fe_local_listener e of
           Inr port \<Rightarrow>
             if \<exists>x. LkClosed x \<in> set (fe_link e) then
               ns_mode st = ModeClient \<and> ns_state st = Error \<and> ns_transport_path st = None \<and> ns_peers st = []
               \<and> res = (if (\<exists>err c. LkProxy (PxListenFailed err c) \<in> set (fe_link e))
                     \<and> (\<exists>rtt stats. LkTick rtt stats True \<in> set (fe_link e)) then Some (Inr ()) else None)
             else res = None \<and> via ''direct-quic'' i a (Some (last (rtt # pings (fe_link e)))) st
         | Inl err \<Rightarrow> st = fatal_status ModeClient None
             (Lit ''could not find a free port for the local proxy'' # err))
    | Inl direct \<Rightarrow>
        (case sid of
           None \<Rightarrow> st = fatal_status ModeClient None direct
         | Some session \<Rightarrow>
            (case fe_relay_start e of
               Inl err \<Rightarrow> st = fatal_status ModeClient None
                 [Fmt ''direct tunnel failed: {direct_error:#} relay fallback failed: {relay_error:#}''
                   [Alt direct, Alt (Fmt ''failed to start WSS relay client session {session_id}''
                      [Lit session] # err)]]
             | Inr port \<Rightarrow>
                (case fe_relay_wait e of
                   Some (Inl err) \<Rightarrow> st = fatal_status ModeClient None
                     [Fmt ''direct tunnel failed: {direct_error:#} relay fallback failed: {relay_error:#}''
                       [Alt direct, Alt err]]
                 | running \<Rightarrow> res = running
                     \<and> via ''wss-relay'' i a (if fe_relay_pings e = [] then None else Some (last (fe_relay_pings e))) st)))"
proof -
  obtain s' where run: "connect_with_retries (fe_attempts e) (set_client_starting s) = (direct_result e, s')"
    by (rule direct_result_any)
  note defs = assms(1,3,4) run client_connect_task_def run_client_connect_flow_def Let_def
  show ?thesis
  proof (cases "direct_result e")
    case (Inr cr)
    obtain c rtt where cr: "cr = (c, rtt)" by (cases cr)
    show ?thesis
    proof (cases "fe_local_listener e")
      case (Inl err)
      then show ?thesis using Inr by (simp add: defs cr)
    next
      case port: (Inr port)
      let ?l = "link_up (push_log (Fmt ''local proxy on 127.0.0.1:{local_port} is up'' [Lit (show_word port)])
          (set_connected ''direct-quic'' port i a (Some rtt) s'))"
      have up: "lk_watching ?l" "px_running ?l" "lk_pinging ?l"
        "via ''direct-quic'' i a (Some rtt) (px_status ?l)"
        by (simp_all add: link_up_def via_def)
      have res: "res = (if fst (link_run i (fe_link e) ?l) then Some (Inr ()) else None)"
        and st: "st = snd (link_run i (fe_link e) ?l)"
        using Inr port by (simp_all add: defs cr split: prod.split)
      show ?thesis
        using link_run_joins [OF assms(2), of i ?l] link_run_closed [OF up(1) assms(2)]
          link_run_open [OF up(1,4) assms(2)] up
        by (auto simp: Inr port cr res st down_def)
    qed
  next
    case (Inl direct)
    show ?thesis
    proof (cases sid)
      case None
      then show ?thesis using Inl by (simp add: defs)
    next
      case (Some session)
      have via: "via ''wss-relay'' i a (if gs = [] then None else Some (last gs))
          (fold (update_peer_ping i) gs (push_log m (set_connected ''wss-relay'' p i a None t)))" for gs m p t
        by (rule via_pings) (simp add: via_def)
      show ?thesis
        using Inl Some via
        by (cases "fe_relay_start e"; cases "fe_relay_wait e"; cases "the (fe_relay_wait e)")
          (simp_all add: defs run_relay_client_tunnel_def del: if_split)
    qed
  qed
qed

definition relayed_env :: flow_env where
  "relayed_env = \<lparr>fe_cancelled_in_grace = False, fe_attempts = replicate 10 timed_out_attempt,
     fe_local_listener = Inr 4000, fe_link = [], fe_relay_early_pings = [], fe_relay_start = Inr 4001,
     fe_relay_pings = [31, 29], fe_relay_wait = None\<rparr>"

definition no_stats :: link_stats where
  "no_stats = \<lparr>ls_lost = 0, ls_sent = 0, ls_rx = 0, ls_tx = 0\<rparr>"

definition direct_env :: flow_env where
  "direct_env = relayed_env\<lparr>fe_attempts := [\<lparr>ae_cancelled = False, ae_result = QuicEstablished 5 20\<rparr>],
     fe_link := [LkTick 22 no_stats False, LkClosed ''timed out'', LkTick 22 no_stats True]\<rparr>"

lemma relayed_direct: "direct_result relayed_env = Inl [Lit ''QUIC handshake timed out'']"
  by (simp add: direct_result_def relayed_env_def connect_with_retries_def
      CLIENT_CONNECT_RETRY_ATTEMPTS_def timed_out_attempt_def numeral_eq_Suc Let_def)

lemma direct_direct: "direct_result direct_env = Inr (5, 20)"
  by (simp add: direct_result_def direct_env_def connect_with_retries_def
      CLIENT_CONNECT_RETRY_ATTEMPTS_def Let_def)

theorem client_flow_outcome_witness:
  "via ''wss-relay'' ''bob'' (SockV4 10 0 0 2 9) (Some 29)
     (client_connect_task relayed_env (SockV4 10 0 0 2 9) ''bob'' (Some ''r'') False False initial_status)
   \<and> ns_state (client_connect_task direct_env (SockV4 10 0 0 2 9) ''bob'' None False False initial_status) = Error"
proof
  show "via ''wss-relay'' ''bob'' (SockV4 10 0 0 2 9) (Some 29)
     (client_connect_task relayed_env (SockV4 10 0 0 2 9) ''bob'' (Some ''r'') False False initial_status)"
    using client_flow_outcome [OF _ _ refl refl, where e = relayed_env and i = "''bob''" and a = "SockV4 10 0 0 2 9"
        and sid = "Some ''r''" and u = False and s = initial_status] relayed_direct
    by (simp add: relayed_env_def)
  show "ns_state (client_connect_task direct_env (SockV4 10 0 0 2 9) ''bob'' None False False initial_status) = Error"
    using client_flow_outcome [OF _ _ refl refl, where e = direct_env and i = "''bob''" and a = "SockV4 10 0 0 2 9"
        and sid = None and u = False and s = initial_status] direct_direct
    by (simp add: direct_env_def relayed_env_def split: if_splits)
qed

subsection \<open>The public address of a host\<close>

text \<open>The verification succeeds: one of the six attempts made before a cancellation does.\<close>

definition e4mc_reached :: "(bool \<times> (error_chain + e4mc_probe)) list \<Rightarrow> bool" where
  "e4mc_reached vs \<longleftrightarrow> list_ex (\<lambda>(_, r). \<not> isl r) (takeWhile (\<lambda>(c, _). \<not> c) (take 6 vs))"

lemma verify_attempts_reached:
  "isl (fst (verify_attempts n vs d p l)) \<longleftrightarrow>
     \<not> list_ex (\<lambda>(_, r). \<not> isl r) (takeWhile (\<lambda>(c, _). \<not> c) vs)"
proof (induction vs arbitrary: n l)
  case (Cons v vs)
  show ?case by (cases v; cases "snd v") (auto simp: Let_def Cons.IH)
qed simp

text \<open>The writes that are more than a line of the log.\<close>

fun is_log :: "status_op \<Rightarrow> bool" where
  "is_log (OpPushLog m) = True"
| "is_log _ = False"

lemma verify_only_logs: "filter (\<lambda>op. \<not> is_log op) (snd (verify_attempts n vs d p l)) = []"
proof (induction vs arbitrary: n l)
  case (Cons v vs)
  show ?case by (cases v; cases "snd v") (auto simp: Let_def Cons.IH)
qed simp

text \<open>
  besides its lines of the log, a round that was assigned a domain writes the status twice:
  the domain, and then its verification exactly when one of the (at most six) probes made
  before a cancellation reached the server, and its failure otherwise; a round whose start
  fails writes nothing else, so it does not withdraw what an earlier one has written.
\<close>

lemma e4mc_address_writes:
  "filter (\<lambda>op. \<not> is_log op) (e4mc_round_writes r port) =
     (case er_start r of
        Inl error \<Rightarrow> []
      | Inr domain \<Rightarrow> [OpE4mcAssigned domain,
          if e4mc_reached (er_verification r) then OpE4mcVerified domain else OpE4mcFailed domain])"
proof (cases "er_start r")
  case (Inr domain)
  obtain v ops where v: "verify_e4mc_public_domain (er_verification r) domain port = (v, ops)"
    by fastforce
  have reached: "e4mc_reached (er_verification r) \<longleftrightarrow> \<not> isl v"
    using verify_attempts_reached [of 1 "take 6 (er_verification r)" domain port None] v
    by (simp add: verify_e4mc_public_domain_def e4mc_reached_def)
  have ops: "filter (\<lambda>op. \<not> is_log op) ops = []"
    using verify_only_logs [of 1 "take 6 (er_verification r)" domain port None] v
    by (simp add: verify_e4mc_public_domain_def)
  show ?thesis
    using reached ops by (cases v; cases "er_wait r") (simp_all add: e4mc_round_writes_def Inr v)
qed (simp add: e4mc_round_writes_def)

end
