(* ===== verification/Manager_Reset.thy ===== *)
theory Manager_Reset
  imports Manager_Flow
begin

text \<open>
  Tearing sessions down: what \<open>reset_session\<close> leaves of the tasks, tokens, connections and
  maps of a session, and what it does not reach - the tasks that belong to no session.
\<close>

section \<open>The primitives on the record\<close>

lemmas mgr_prim_defs = on_status_def cancel_def abort_def new_token_def spawn_def close_conn_def
  on_host_def stop_relay_def

lemma fold_close:
  "fold (\<lambda>(_, c). close_conn c code reason) xs m =
     m\<lparr>mg_closed := mg_closed m @ map (\<lambda>(_, c). (c, code, reason)) xs\<rparr>"
  by (induction xs arbitrary: m) (auto simp: close_conn_def)

lemma fold_abort:
  "fold abort is m = m\<lparr>mg_tasks := filter (\<lambda>t. tk_id t \<notin> set is) (mg_tasks m)\<rparr>"
proof (induction "is" arbitrary: m)
  case (Cons i "is")
  have "fold abort (i # is) m = fold abort is (abort i m)"
    by simp
  then show ?case
    by (simp only: Cons.IH) (simp add: abort_def conj_commute)
qed simp

lemma fold_stop_relay:
  "fold (\<lambda>(_, r). stop_relay r) xs m =
     m\<lparr>mg_cancelled := rev (map (rl_cancel \<circ> snd) xs) @ mg_cancelled m,
       mg_tasks := filter (\<lambda>t. tk_id t \<notin> (rl_task \<circ> snd) ` set xs) (mg_tasks m)\<rparr>"
proof (induction xs arbitrary: m)
  case (Cons x xs)
  have "fold (\<lambda>(_, r). stop_relay r) (x # xs) m =
      fold (\<lambda>(_, r). stop_relay r) xs (stop_relay (snd x) m)"
    by (simp add: case_prod_beta)
  then show ?case
    by (simp only: Cons.IH) (simp add: mgr_prim_defs conj_commute)
qed simp

lemma nth_list_update_out: "\<not> i < length xs \<Longrightarrow> xs[j := v] ! i = xs ! i"
  by (cases "j = i") (auto simp: list_update_beyond)

lemma cancel_fields [simp]:
  "mg_session (cancel t m) = mg_session m" "mg_tasks (cancel t m) = mg_tasks m"
  "mg_cancelled (cancel t m) = t # mg_cancelled m" "mg_hosts (cancel t m) = mg_hosts m"
  "mg_closed (cancel t m) = mg_closed m" "mg_status (cancel t m) = mg_status m"
  "mg_next_token (cancel t m) = mg_next_token m" "mg_next_task (cancel t m) = mg_next_task m"
  by (simp_all add: cancel_def)

section \<open>A session that is reset\<close>

text \<open>The tokens and tasks a session holds on to.\<close>

fun owned_tokens :: "manager \<Rightarrow> session_control \<Rightarrow> token set" where
  "owned_tokens m (CHost host) =
     (case hc_e4mc host of Some (t, _) \<Rightarrow> {t} | None \<Rightarrow> {})
     \<union> rl_cancel ` snd ` set (hm_relays (mg_hosts m ! hc_maps host))"
| "owned_tokens m _ = {}"

fun owned_maps :: "manager \<Rightarrow> session_control \<Rightarrow> host_maps \<Rightarrow> bool" where
  "owned_maps m (CHost host) h \<longleftrightarrow> h = mg_hosts m ! hc_maps host"
| "owned_maps m _ h \<longleftrightarrow> False"

fun live_of :: "manager \<Rightarrow> session_control \<Rightarrow> (string \<times> conn) list" where
  "live_of m (CHost host) = hm_live (mg_hosts m ! hc_maps host)"
| "live_of m _ = []"

lemma reset_control_fields:
  "mg_session (reset_control c m) = mg_session m"
  "mg_closed (reset_control c m) = mg_closed m @ map (\<lambda>(_, c). (c, 0, ''session-reset'')) (live_of m c)"
  "set (mg_cancelled (reset_control c m)) = owned_tokens m c \<union> set (mg_cancelled m)"
  "mg_next_token (reset_control c m) = mg_next_token m"
  "length (mg_hosts (reset_control c m)) = length (mg_hosts m)"
  by (cases c; force simp: reset_control_def mgr_prim_defs fold_close fold_stop_relay Let_def
      split: option.split)+

definition presence_only :: "task \<Rightarrow> bool" where
  "presence_only t \<longleftrightarrow> tk_token t = None \<and> (\<exists>i. tk_kind t = LeavePresence i)"

lemma reset_control_tasks:
  "t \<in> set (mg_tasks (reset_control c m)) \<Longrightarrow> t \<in> set (mg_tasks m) \<or> presence_only t"
  by (cases c) (auto simp: reset_control_def mgr_prim_defs fold_close fold_stop_relay Let_def
      presence_only_def split: option.splits)

lemma reset_control_hosts:
  "mg_hosts (reset_control c m) ! i =
     (case c of CHost host \<Rightarrow>
        if i = hc_maps host \<and> i < length (mg_hosts m)
        then (mg_hosts m ! i)\<lparr>hm_live := [], hm_relays := []\<rparr> else mg_hosts m ! i
      | _ \<Rightarrow> mg_hosts m ! i)"
  by (cases c; cases "i < length (mg_hosts m)")
    (auto simp: reset_control_def mgr_prim_defs fold_close fold_stop_relay Let_def nth_list_update
      nth_list_update_out
      split: option.split)

lemma reset_none: "mg_session m = None \<Longrightarrow> reset_session m = on_status (\<lambda>_. cleared_status) m"
  by (simp add: reset_session_def)

lemma reset_some:
  "mg_session m = Some rt \<Longrightarrow> reset_session m = on_status (\<lambda>_. cleared_status)
     (fold abort (sr_tasks rt) (reset_control (sr_control rt) (cancel (sr_cancel rt) (m\<lparr>mg_session := None\<rparr>))))"
  by (simp add: reset_session_def)

lemma owned_tokens_upd [simp]:
  "owned_tokens (cancel t m) c = owned_tokens m c" "owned_tokens (m\<lparr>mg_session := x\<rparr>) c = owned_tokens m c"
  "live_of (cancel t m) c = live_of m c" "live_of (m\<lparr>mg_session := x\<rparr>) c = live_of m c"
  by (cases c; simp add: cancel_def)+

lemma reset_fields:
  assumes "mg_session m = Some rt"
  shows "mg_session (reset_session m) = None"
    "mg_status (reset_session m) = cleared_status"
    "mg_closed (reset_session m) =
       mg_closed m @ map (\<lambda>(_, c). (c, 0, ''session-reset'')) (live_of m (sr_control rt))"
    "set (mg_cancelled (reset_session m)) =
       insert (sr_cancel rt) (owned_tokens m (sr_control rt) \<union> set (mg_cancelled m))"
    "t \<in> set (mg_tasks (reset_session m)) \<Longrightarrow>
       tk_id t \<notin> set (sr_tasks rt) \<and> (t \<in> set (mg_tasks m) \<or> presence_only t)"
    "mg_hosts (reset_session m) ! i =
       (case sr_control rt of CHost host \<Rightarrow>
          if i = hc_maps host \<and> i < length (mg_hosts m)
          then (mg_hosts m ! i)\<lparr>hm_live := [], hm_relays := []\<rparr> else mg_hosts m ! i
        | _ \<Rightarrow> mg_hosts m ! i)"
  unfolding reset_some [OF assms]
  by (auto simp: on_status_def fold_abort reset_control_fields reset_control_hosts
      dest!: reset_control_tasks split: session_control.split)

lemma live_task_iff:
  "t \<in> set (live_tasks m) \<longleftrightarrow>
     t \<in> set (mg_tasks m) \<and> (\<forall>c. tk_token t = Some c \<longrightarrow> c \<notin> set (mg_cancelled m))"
  by (auto simp: live_tasks_def split: option.splits)

text \<open>
  C6: \<open>stop_hosting\<close> on any session leaves none. Every task that has not been told to stop by
  then - neither ended nor aborted, its token not cancelled - was such a task before or only
  leaves the lobby, and none of them holds the session's token, the token of
  its e4mc runtime or of one of its relays, or is one of its tasks; every live connection of
  the session has been closed with code 0, and its maps of connections and relays are empty.
  The status is the cleared one with the line about the stop.
\<close>

theorem stop_hosting_stops_session:
  assumes "mg_session m = Some rt"
  shows "mg_session (stop_hosting m) = None
    \<and> mg_status (stop_hosting m) = push_log (Lit ''Session stopped.'') cleared_status
    \<and> mg_closed (stop_hosting m) =
        mg_closed m @ map (\<lambda>(_, c). (c, 0, ''session-reset'')) (live_of m (sr_control rt))
    \<and> (\<forall>host. sr_control rt = CHost host \<longrightarrow> hc_maps host < length (mg_hosts m) \<longrightarrow>
         hm_live (mg_hosts (stop_hosting m) ! hc_maps host) = []
         \<and> hm_relays (mg_hosts (stop_hosting m) ! hc_maps host) = [])
    \<and> (\<forall>t \<in> set (live_tasks (stop_hosting m)).
         (t \<in> set (live_tasks m) \<or> presence_only t)
         \<and> tk_id t \<notin> set (sr_tasks rt) \<and> tk_token t \<noteq> Some (sr_cancel rt)
         \<and> tk_token t \<notin> Some ` owned_tokens m (sr_control rt))"
proof -
  note r = reset_fields [OF assms]
  have s: "mg_tasks (stop_hosting m) = mg_tasks (reset_session m)"
    "mg_cancelled (stop_hosting m) = mg_cancelled (reset_session m)"
    "mg_session (stop_hosting m) = None" "mg_closed (stop_hosting m) = mg_closed (reset_session m)"
    "mg_hosts (stop_hosting m) = mg_hosts (reset_session m)"
    "mg_status (stop_hosting m) = push_log (Lit ''Session stopped.'') cleared_status"
    using r(1,2) by (simp_all add: stop_hosting_def on_status_def)
  have "(t \<in> set (live_tasks m) \<or> presence_only t)
         \<and> tk_id t \<notin> set (sr_tasks rt) \<and> tk_token t \<noteq> Some (sr_cancel rt)
         \<and> tk_token t \<notin> Some ` owned_tokens m (sr_control rt)"
    if "t \<in> set (live_tasks (stop_hosting m))" for t
    using that r(5) [of t] by (auto simp: live_task_iff s r(4))
  then show ?thesis
    by (simp add: s r(3,6))
qed

definition sample_host_env :: host_env where
  "sample_host_env = \<lparr>he_uuid = ''h'', he_bind = Inr (SockV4 0 0 0 0 4242), he_version = Inr ''1.21'',
     he_public = Inr (SockV4 198 51 100 7 4242), he_local_ips = [''10.0.0.5''], he_config = Inr (),
     he_endpoint = Inr ()\<rparr>"

definition sample_host :: manager where
  "sample_host = host_accept 1 0 7 (SockV4 192 0 2 9 5000) 20
     (snd (start_hosting sample_host_env ''room'' None 25565 True None False new_manager))"

lemmas run_manager_defs = start_hosting_def start_hosting_inner_def reset_session_def spawn_e4mc_def
  new_host_maps_def install_host_def new_manager_def mgr_prim_defs sample_host_env_def Let_def

lemma trim_room: "trim ''room'' = ''room''"
  by code_simp

lemma sample_host_fields:
  "mg_session sample_host = Some \<lparr>sr_cancel = 1, sr_tasks = [1, 2],
     sr_control = CHost \<lparr>hc_room_name = ''room'', hc_peer_id = ''h'', hc_local_game_port = 25565,
       hc_maps = 0, hc_e4mc = Some (0, 0), hc_upnp = False, hc_force_direct = False\<rparr>\<rparr>"
  "mg_hosts sample_host = [\<lparr>hm_expected = [], hm_live = [(show_addr (SockV4 192 0 2 9 5000), 7)], hm_relays = []\<rparr>]"
  "map tk_kind (live_tasks sample_host) =
     [E4mcLoop, AcceptLoop 0, LobbyLoop, LobbyEvents, UpnpTask, HostConn 7 (show_addr (SockV4 192 0 2 9 5000)) 0]"
  "mg_closed sample_host = []"
  by (simp_all add: sample_host_def trim_room run_manager_defs host_accept_def
      cancel_host_relay_for_peer_def live_tasks_def)

theorem stop_hosting_stops_session_witness:
  "mg_closed (stop_hosting sample_host) = [(7, 0, ''session-reset'')]"
  using stop_hosting_stops_session [OF sample_host_fields(1)] by (simp add: sample_host_fields)

end
