(* ===== verification/Manager_Inv.thy ===== *)
theory Manager_Inv
  imports Manager_Reset
begin

text \<open>
  The manager as a state machine: its operations and the moves of its tasks as a step
  relation, and the invariant that ties the tasks of a session to the session there is.
\<close>

section \<open>The invariant\<close>

text \<open>
  The five kinds of tasks that are started with the token of the session itself: the accept
  loop, the lobby loop and its event subscription, the client's flow and the connection of a
  peer. The other kinds are not among them: the e4mc loop and a relay's runtime have tokens of
  their own, and the delayed relay, the punching, the UPnP and the leaving task have none. The
  tasks bridging single game connections, which the code spawns without a token or a handle,
  are no tasks of this model.
\<close>

fun session_kind :: "task_kind \<Rightarrow> bool" where
  "session_kind (AcceptLoop _) = True"
| "session_kind LobbyLoop = True"
| "session_kind LobbyEvents = True"
| "session_kind (ClientFlow _ _ _) = True"
| "session_kind (HostConn _ _ _) = True"
| "session_kind _ = False"

fun task_maps :: "task_kind \<Rightarrow> nat option" where
  "task_maps (AcceptLoop i) = Some i"
| "task_maps (HostConn _ _ i) = Some i"
| "task_maps (DelayedRelay i _ _ _) = Some i"
| "task_maps (PunchTask i _) = Some i"
| "task_maps _ = None"

definition relays :: "manager \<Rightarrow> relay_entry set" where
  "relays m = (\<Union>h \<in> set (mg_hosts m). snd ` set (hm_relays h))"

text \<open>\<open>cur\<close> is the token of the current session, if any.\<close>

definition tokens_ok :: "token option \<Rightarrow> manager \<Rightarrow> bool" where
  "tokens_ok cur m \<longleftrightarrow>
     (\<forall>c \<in> set (mg_cancelled m). c < mg_next_token m)
     \<and> (\<forall>r \<in> relays m. rl_cancel r < mg_next_token m \<and> rl_task r < mg_next_task m)
     \<and> (\<forall>c. cur = Some c \<longrightarrow> c < mg_next_token m \<and> c \<notin> set (mg_cancelled m) \<and> c \<notin> rl_cancel ` relays m)"

definition task_ok :: "token option \<Rightarrow> manager \<Rightarrow> task \<Rightarrow> bool" where
  "task_ok cur m t \<longleftrightarrow>
     tk_id t < mg_next_task m
     \<and> (\<forall>c. tk_token t = Some c \<longrightarrow> c < mg_next_token m)
     \<and> (\<forall>i. task_maps (tk_kind t) = Some i \<longrightarrow> i < length (mg_hosts m))
     \<and> (session_kind (tk_kind t) \<longrightarrow>
          (\<exists>c. tk_token t = Some c \<and> (c \<in> set (mg_cancelled m) \<or> cur = Some c)))"

definition inv_for :: "token option \<Rightarrow> manager \<Rightarrow> bool" where
  "inv_for cur m \<longleftrightarrow> tokens_ok cur m \<and> (\<forall>t \<in> set (mg_tasks m). task_ok cur m t)"

definition control_ok :: "manager \<Rightarrow> session_runtime \<Rightarrow> bool" where
  "control_ok m rt \<longleftrightarrow>
     (case sr_control rt of
        CHost host \<Rightarrow> hc_maps host < length (mg_hosts m)
          \<and> (case hc_e4mc host of Some (t, _) \<Rightarrow> t < mg_next_token m \<and> t \<noteq> sr_cancel rt | None \<Rightarrow> True)
      | _ \<Rightarrow> True)"

definition current :: "manager \<Rightarrow> token option" where
  "current m = map_option sr_cancel (mg_session m)"

definition mgr_inv :: "manager \<Rightarrow> bool" where
  "mgr_inv m \<longleftrightarrow> inv_for (current m) m \<and> (case mg_session m of Some rt \<Rightarrow> control_ok m rt | None \<Rightarrow> True)"

subsection \<open>The primitives\<close>

lemma prim_ids [simp]:
  "mg_next_task (on_status f m) = mg_next_task m" "mg_next_task (abort i m) = mg_next_task m"
  "mg_next_task (on_host i g m) = mg_next_task m" "mg_next_task (close_conn x code r m) = mg_next_task m"
  "mg_next_task (snd (spawn k tok m)) = Suc (mg_next_task m)"
  "mg_next_task (snd (new_host_maps m)) = mg_next_task m"
  "mg_next_task (snd (new_token m)) = mg_next_task m" "fst (spawn k tok m) = mg_next_task m"
  by (simp_all add: mgr_prim_defs new_host_maps_def)

lemma prim_fields [simp]:
  "mg_next_token (on_status f m) = mg_next_token m" "mg_next_token (abort i m) = mg_next_token m"
  "mg_next_token (snd (spawn k tok m)) = mg_next_token m" "mg_next_token (on_host i g m) = mg_next_token m"
  "mg_next_token (close_conn x code r m) = mg_next_token m"
  "mg_next_token (snd (new_host_maps m)) = mg_next_token m"
  "mg_hosts (on_status f m) = mg_hosts m" "mg_hosts (abort i m) = mg_hosts m"
  "mg_hosts (snd (spawn k tok m)) = mg_hosts m" "length (mg_hosts (on_host i g m)) = length (mg_hosts m)"
  "mg_hosts (close_conn x code r m) = mg_hosts m" "mg_hosts (snd (new_token m)) = mg_hosts m"
  "mg_session (on_status f m) = mg_session m" "mg_session (abort i m) = mg_session m"
  "mg_session (snd (spawn k tok m)) = mg_session m" "mg_session (on_host i g m) = mg_session m"
  "mg_session (close_conn x code r m) = mg_session m" "mg_session (snd (new_token m)) = mg_session m"
  "mg_session (snd (new_host_maps m)) = mg_session m"
  "mg_cancelled (on_status f m) = mg_cancelled m" "mg_cancelled (abort i m) = mg_cancelled m"
  "mg_cancelled (snd (spawn k tok m)) = mg_cancelled m" "mg_cancelled (on_host i g m) = mg_cancelled m"
  "mg_cancelled (snd (new_token m)) = mg_cancelled m" "mg_tasks (snd (new_token m)) = mg_tasks m"
  "mg_next_token (snd (new_token m)) = Suc (mg_next_token m)"
  "mg_cancelled (snd (new_host_maps m)) = mg_cancelled m" "mg_tasks (snd (new_host_maps m)) = mg_tasks m"
  "length (mg_hosts (snd (new_host_maps m))) = Suc (length (mg_hosts m))"
  "mg_tasks (on_status f m) = mg_tasks m" "mg_tasks (on_host i g m) = mg_tasks m"
  by (simp_all add: mgr_prim_defs new_host_maps_def)

lemma in_abort: "t \<in> set (mg_tasks (abort i m)) \<longleftrightarrow> t \<in> set (mg_tasks m) \<and> tk_id t \<noteq> i"
  by (simp add: abort_def)

lemma relays_prims [simp]:
  "relays (cancel t m) = relays m" "relays (snd (new_token m)) = relays m"
  "relays (snd (new_host_maps m)) = relays m" "relays (abort i m) = relays m"
  by (auto simp: relays_def new_host_maps_def new_token_def abort_def)

text \<open>Older tasks stay fine when tokens are made or cancelled and maps are added.\<close>

lemma task_ok_mono:
  assumes "task_ok c m t" and "mg_next_token m \<le> mg_next_token m'" and "mg_next_task m \<le> mg_next_task m'"
    and "set (mg_cancelled m) \<subseteq> set (mg_cancelled m')" and "length (mg_hosts m) \<le> length (mg_hosts m')"
    and "c = None \<or> c = c' \<or> (\<exists>x \<in> set (mg_cancelled m'). c = Some x)"
  shows "task_ok c' m' t"
  unfolding task_ok_def
proof (intro conjI allI impI)
  show "tk_id t < mg_next_task m'"
    using assms(1,3) by (auto simp: task_ok_def)
  show "x < mg_next_token m'" if "tk_token t = Some x" for x
    using assms(1,2) that by (auto simp: task_ok_def intro: less_le_trans)
  show "i < length (mg_hosts m')" if "task_maps (tk_kind t) = Some i" for i
    using assms(1,5) that by (auto simp: task_ok_def intro: less_le_trans)
  show "\<exists>x. tk_token t = Some x \<and> (x \<in> set (mg_cancelled m') \<or> c' = Some x)"
    if "session_kind (tk_kind t)"
    using assms(1,4,6) that unfolding task_ok_def by blast
qed

lemma inv_mono:
  assumes "inv_for c m" and "tokens_ok c m \<Longrightarrow> tokens_ok c' m'" and "set (mg_tasks m') \<subseteq> set (mg_tasks m)"
    and "mg_next_token m \<le> mg_next_token m'" and "mg_next_task m \<le> mg_next_task m'"
    and "set (mg_cancelled m) \<subseteq> set (mg_cancelled m')" and "length (mg_hosts m) \<le> length (mg_hosts m')"
    and "c = None \<or> c = c' \<or> (\<exists>x \<in> set (mg_cancelled m'). c = Some x)"
  shows "inv_for c' m'"
  using assms(1-3) task_ok_mono [OF _ assms(4-8)] unfolding inv_for_def by blast

lemma inv_on_status [simp]: "inv_for c (on_status f m) = inv_for c m"
  by (simp add: inv_for_def tokens_ok_def task_ok_def on_status_def relays_def)

lemma inv_session [simp]: "inv_for c (m\<lparr>mg_session := s\<rparr>) = inv_for c m"
  by (simp add: inv_for_def tokens_ok_def task_ok_def relays_def)

lemma inv_closed [simp]: "inv_for c (m\<lparr>mg_closed := x\<rparr>) = inv_for c m"
  by (simp add: inv_for_def tokens_ok_def task_ok_def relays_def)

lemma inv_close_conn [simp]: "inv_for c (close_conn k code r m) = inv_for c m"
  by (simp add: close_conn_def)

lemma inv_fold_close [simp]: "inv_for c (fold (\<lambda>(_, k). close_conn k code r) xs m) = inv_for c m"
  by (simp add: fold_close)

lemma inv_abort: "inv_for c m \<Longrightarrow> inv_for c (abort i m)"
  by (erule inv_mono) (auto simp: tokens_ok_def in_abort)

lemma inv_fold_abort: "inv_for c m \<Longrightarrow> inv_for c (fold abort is m)"
  by (induction "is" arbitrary: m) (simp_all add: inv_abort)

lemma inv_cancel:
  "inv_for c m \<Longrightarrow> c \<noteq> Some t \<Longrightarrow> t < mg_next_token m \<Longrightarrow> inv_for c (cancel t m)"
  by (erule inv_mono) (auto simp: tokens_ok_def)

text \<open>Cancelling the token of the session frees the manager for the next one.\<close>

lemma inv_drop: "inv_for (Some t) m \<Longrightarrow> inv_for None (cancel t m)"
  by (erule inv_mono) (auto simp: tokens_ok_def)

lemma inv_new_token: "inv_for c m \<Longrightarrow> inv_for c (snd (new_token m))"
  by (erule inv_mono) (auto simp: tokens_ok_def intro: less_SucI dest: bspec)

lemma inv_next_session:
  "inv_for None m \<Longrightarrow> inv_for (Some (mg_next_token m)) (snd (new_token m))"
  by (erule inv_mono) (auto simp: tokens_ok_def intro: less_SucI dest: bspec)

lemma inv_spawn:
  assumes "inv_for c m" and "\<And>x. tok = Some x \<Longrightarrow> x < mg_next_token m"
    and "session_kind k \<Longrightarrow> \<exists>x. tok = Some x \<and> (x \<in> set (mg_cancelled m) \<or> c = Some x)"
    and "\<And>i. task_maps k = Some i \<Longrightarrow> i < length (mg_hosts m)"
  shows "inv_for c (snd (spawn k tok m))"
  using assms by (simp add: inv_for_def spawn_def tokens_ok_def task_ok_def relays_def less_Suc_eq)

lemma relays_at: "i < length (mg_hosts m) \<Longrightarrow> (p, r) \<in> set (hm_relays (mg_hosts m ! i)) \<Longrightarrow> r \<in> relays m"
  using nth_mem [of i "mg_hosts m"] by (force simp: relays_def)

lemma relays_on_host:
  assumes "r \<in> relays (on_host i f m)"
  shows "r \<in> relays m \<or> i < length (mg_hosts m) \<and> r \<in> snd ` set (hm_relays (f (mg_hosts m ! i)))"
proof (cases "i < length (mg_hosts m)")
  case True
  obtain h where h: "h \<in> set ((mg_hosts m)[i := f (mg_hosts m ! i)])" "r \<in> snd ` set (hm_relays h)"
    using assms by (auto simp: relays_def on_host_def)
  from h(1) have "h = f (mg_hosts m ! i) \<or> h \<in> set (mg_hosts m)"
    using set_update_subset_insert [of "mg_hosts m" i "f (mg_hosts m ! i)"] by blast
  with h(2) True show ?thesis by (auto simp: relays_def)
next
  case False
  with assms show ?thesis by (simp add: relays_def on_host_def list_update_beyond)
qed

definition relay_ok :: "token option \<Rightarrow> manager \<Rightarrow> relay_entry \<Rightarrow> bool" where
  "relay_ok c m r \<longleftrightarrow>
     rl_cancel r < mg_next_token m \<and> rl_task r < mg_next_task m \<and> c \<noteq> Some (rl_cancel r)"

lemma inv_relay_ok: "inv_for c m \<Longrightarrow> r \<in> relays m \<Longrightarrow> relay_ok c m r"
  by (auto simp: inv_for_def tokens_ok_def relay_ok_def)

lemma inv_on_host:
  assumes "inv_for c m"
    and "\<And>p r. i < length (mg_hosts m) \<Longrightarrow> (p, r) \<in> set (hm_relays (f (mg_hosts m ! i))) \<Longrightarrow>
       (p, r) \<in> set (hm_relays (mg_hosts m ! i)) \<or> relay_ok c m r"
  shows "inv_for c (on_host i f m)"
proof -
  have r: "relay_ok c m r" if "r \<in> relays (on_host i f m)" for r
    using relays_on_host [OF that] assms(2) relays_at [of i m] inv_relay_ok [OF assms(1)] by fastforce
  show ?thesis
    by (rule inv_mono [OF assms(1)])
      (use r in \<open>auto simp: tokens_ok_def relay_ok_def on_host_def [of i f m]\<close>)
qed

lemma inv_new_maps: "inv_for c m \<Longrightarrow> inv_for c (snd (new_host_maps m))"
  by (erule inv_mono) (simp_all add: tokens_ok_def)

section \<open>The operations\<close>

lemma stop_relay_fields [simp]:
  "mg_next_task (stop_relay r m) = mg_next_task m" "mg_next_token (stop_relay r m) = mg_next_token m" "mg_hosts (stop_relay r m) = mg_hosts m"
  "mg_session (stop_relay r m) = mg_session m"
  by (simp_all add: stop_relay_def)

lemma inv_stop_relay:
  "inv_for c m \<Longrightarrow> relay_ok c m r \<Longrightarrow> inv_for c (stop_relay r m)"
  by (simp add: stop_relay_def relay_ok_def inv_abort inv_cancel)

lemma relay_ok_stop [simp]: "relay_ok c (stop_relay q m) r = relay_ok c m r"
  by (simp add: relay_ok_def stop_relay_def)

lemma inv_stop_relays:
  "inv_for c m \<Longrightarrow> \<forall>(_, r) \<in> set rs. relay_ok c m r \<Longrightarrow>
     inv_for c (fold (\<lambda>(_, r). stop_relay r) rs m)"
proof (induction rs arbitrary: m)
  case (Cons x rs)
  then show ?case
    by (cases x) (auto intro!: Cons.IH inv_stop_relay)
qed simp

lemma inv_relays_at:
  "inv_for c m \<Longrightarrow> i < length (mg_hosts m) \<Longrightarrow> (p, r) \<in> set (hm_relays (mg_hosts m ! i)) \<Longrightarrow> relay_ok c m r"
  using inv_relay_ok relays_at by blast

lemma fold_close_fields [simp]:
  "mg_next_task (fold (\<lambda>(_, k). close_conn k code r) xs m) = mg_next_task m"
  "mg_next_token (fold (\<lambda>(_, k). close_conn k code r) xs m) = mg_next_token m"
  "mg_hosts (fold (\<lambda>(_, k). close_conn k code r) xs m) = mg_hosts m"
  by (simp_all add: fold_close)

lemma inv_reset_control:
  assumes "inv_for None m"
    and "\<And>host. control = CHost host \<Longrightarrow> hc_maps host < length (mg_hosts m)
      \<and> (\<forall>t i. hc_e4mc host = Some (t, i) \<longrightarrow> t < mg_next_token m)"
  shows "inv_for None (reset_control control m)"
proof (cases control)
  case (CHost host)
  let ?maps = "mg_hosts m ! hc_maps host"
  define m1 where "m1 = fold (\<lambda>(_, c). close_conn c 0 ''session-reset'') (hm_live ?maps)
    (on_host (hc_maps host) (\<lambda>h. h\<lparr>hm_live := []\<rparr>) m)"
  define m2 where "m2 = (case hc_e4mc host of Some (t, i) \<Rightarrow> abort i (cancel t m1) | None \<Rightarrow> m1)"
  have 1: "inv_for None m1" "mg_next_token m1 = mg_next_token m" "mg_next_task m1 = mg_next_task m"
    unfolding m1_def using assms(1) by (auto intro!: inv_on_host)
  have 2: "inv_for None m2" "mg_next_token m2 = mg_next_token m" "mg_next_task m2 = mg_next_task m"
    unfolding m2_def using 1 assms(2) [OF CHost] by (auto split: option.split intro!: inv_abort inv_cancel)
  have "inv_for None (fold (\<lambda>(_, r). stop_relay r) (hm_relays ?maps)
      (on_host (hc_maps host) (\<lambda>h. h\<lparr>hm_relays := []\<rparr>) m2))"
    using 2 assms(2) [OF CHost] inv_relays_at [OF assms(1)]
    by (auto simp: relay_ok_def intro!: inv_stop_relays inv_on_host)
  moreover have "reset_control (CHost host) m = snd (spawn (LeavePresence (hc_peer_id host)) None
      (fold (\<lambda>(_, r). stop_relay r) (hm_relays ?maps) (on_host (hc_maps host) (\<lambda>h. h\<lparr>hm_relays := []\<rparr>) m2)))"
    by (simp add: reset_control_def m1_def m2_def Let_def split: option.split)
  ultimately show ?thesis
    unfolding CHost by (auto intro!: inv_spawn)
qed (simp_all add: assms reset_control_def)

lemma inv_reset:
  assumes "mgr_inv m"
  shows "inv_for None (reset_session m)" "mg_session (reset_session m) = None"
proof -
  show "mg_session (reset_session m) = None"
    by (cases "mg_session m") (simp_all add: reset_none reset_some fold_abort reset_control_fields)
  show "inv_for None (reset_session m)"
  proof (cases "mg_session m")
    case None
    then show ?thesis using assms by (simp add: mgr_inv_def current_def reset_none)
  next
    case (Some rt)
    let ?m = "cancel (sr_cancel rt) (m\<lparr>mg_session := None\<rparr>)"
    have "inv_for (Some (sr_cancel rt)) (m\<lparr>mg_session := None\<rparr>)" "control_ok m rt"
      using assms Some by (simp_all add: mgr_inv_def current_def)
    then have "inv_for None (reset_control (sr_control rt) ?m)"
      by (intro inv_reset_control inv_drop) (auto simp: control_ok_def)
    then show ?thesis
      by (simp add: reset_some [OF Some] inv_fold_abort)
  qed
qed

lemma control_ok_cong:
  "mg_next_token m' = mg_next_token m \<Longrightarrow> length (mg_hosts m') = length (mg_hosts m) \<Longrightarrow>
     control_ok m' rt = control_ok m rt"
  by (auto simp: control_ok_def split: session_control.split option.split)

lemma control_ok_upd [simp]:
  "control_ok (on_status f m) rt = control_ok m rt" "control_ok (m\<lparr>mg_session := x\<rparr>) rt = control_ok m rt"
  by (rule control_ok_cong; simp)+

lemma mgr_inv_status [simp]: "mgr_inv (on_status f m) = mgr_inv m"
  by (cases "mg_session m") (simp_all add: mgr_inv_def current_def)

lemma mgr_inv_none: "inv_for None m \<Longrightarrow> mg_session m = None \<Longrightarrow> mgr_inv m"
  by (simp add: mgr_inv_def current_def)

lemma mgr_inv_start:
  "inv_for (Some (sr_cancel rt)) m \<Longrightarrow> control_ok m rt \<Longrightarrow> mgr_inv (m\<lparr>mg_session := Some rt\<rparr>)"
  by (simp add: mgr_inv_def current_def)

text \<open>A move that leaves the session alone.\<close>

lemma mgr_inv_frame:
  assumes "mgr_inv m" and "inv_for (current m) m'" and "mg_session m' = mg_session m"
    and "mg_next_token m \<le> mg_next_token m'" and "length (mg_hosts m) \<le> length (mg_hosts m')"
  shows "mgr_inv m'"
  using assms by (auto simp: mgr_inv_def current_def control_ok_def
      split: option.splits session_control.splits intro: less_le_trans)

lemma fst_snd_let: "(let (x, y) = p in f x y) = f (fst p) (snd p)"
  by (simp add: case_prod_beta)

lemma fst_new_token [simp]: "fst (new_token m) = mg_next_token m"
  by (simp add: new_token_def)

lemma inv_spawn_e4mc:
  assumes "inv_for None m" and "spawn_e4mc enable m = (e4mc, m')"
  shows "inv_for None m'" "mg_session m' = mg_session m" "mg_hosts m' = mg_hosts m"
    "mg_next_token m \<le> mg_next_token m'" "\<And>t i. e4mc = Some (t, i) \<Longrightarrow> t < mg_next_token m'"
proof -
  have "inv_for None (snd (spawn E4mcLoop (Some (mg_next_token m)) (snd (new_token m))))"
    using assms(1) by (intro inv_spawn inv_new_token) auto
  then show "inv_for None m'" "mg_session m' = mg_session m" "mg_hosts m' = mg_hosts m"
    "mg_next_token m \<le> mg_next_token m'" "\<And>t i. e4mc = Some (t, i) \<Longrightarrow> t < mg_next_token m'"
    using assms by (auto simp: spawn_e4mc_def new_token_def spawn_def Let_def split: if_splits)
qed

lemma inv_install_host:
  assumes "inv_for None m" and "maps < length (mg_hosts m)"
    and "\<And>t i. e4mc = Some (t, i) \<Longrightarrow> t < mg_next_token m"
  shows "mgr_inv (install_host room port peer maps e4mc fd m)"
proof -
  let ?t = "mg_next_token m"
  have m1: "inv_for (Some ?t) (snd (new_token m))" using assms(1) by (rule inv_next_session)
  have m2: "inv_for (Some ?t) (snd (spawn (AcceptLoop maps) (Some ?t) (snd (new_token m))))" (is "inv_for _ ?m2")
    by (rule inv_spawn [OF m1]) (use assms(2) in auto)
  have m3: "inv_for (Some ?t) (snd (spawn LobbyLoop (Some ?t) ?m2))" (is "inv_for _ ?m3")
    by (rule inv_spawn [OF m2]) auto
  have m4: "inv_for (Some ?t) (snd (spawn LobbyEvents (Some ?t) ?m3))" (is "inv_for _ ?m4")
    by (rule inv_spawn [OF m3]) auto
  let ?rt = "\<lparr>sr_cancel = ?t, sr_tasks = [fst (spawn (AcceptLoop maps) (Some ?t) (snd (new_token m))),
      fst (spawn LobbyLoop (Some ?t) ?m2)], sr_control = CHost \<lparr>hc_room_name = room, hc_peer_id = peer,
      hc_local_game_port = port, hc_maps = maps, hc_e4mc = e4mc, hc_upnp = False, hc_force_direct = fd\<rparr>\<rparr>"
  have m5: "mgr_inv (?m4\<lparr>mg_session := Some ?rt\<rparr>)"
    by (rule mgr_inv_start) (use m4 assms(2,3) in \<open>auto simp: control_ok_def split: option.split\<close>)
  have "mgr_inv (snd (spawn UpnpTask None (?m4\<lparr>mg_session := Some ?rt\<rparr>)))"
    by (rule mgr_inv_frame [OF m5]) (use m5 in \<open>auto simp: mgr_inv_def intro!: inv_spawn\<close>)
  then show ?thesis
    by (simp only: install_host_def fst_snd_let Let_def case_prod_beta fst_new_token)
qed

lemma inv_start_hosting:
  assumes "mgr_inv m"
  shows "mgr_inv (snd (start_hosting e room pw port en ver fd m))"
proof -
  let ?m = "reset_session m"
  obtain maps m1 where 1: "new_host_maps ?m = (maps, m1)" by fastforce
  obtain e4mc m2 where 2: "spawn_e4mc en m1 = (e4mc, m2)" by fastforce
  have i1: "inv_for None m1" "mg_session m1 = None" "maps < length (mg_hosts m1)"
    using inv_new_maps [OF inv_reset(1) [OF assms]] 1 inv_reset(2) [OF assms]
    by (auto simp: new_host_maps_def)
  note i2 = inv_spawn_e4mc [OF i1(1) 2]
  have "mgr_inv (snd (start_hosting_inner e r pw port en ver fd ?m))" for r
    using i1 i2 by (auto simp: start_hosting_inner_def 1 2 Let_def mgr_inv_none
        intro!: inv_install_host split: sum.split)
  then show ?thesis
    using assms by (auto simp: start_hosting_def Let_def split: sum.split prod.split)
      (metis snd_conv)+
qed

end
