(* ===== verification/Manager_Steps.thy ===== *)
theory Manager_Steps
  imports Manager_Inv
begin

text \<open>
  The operations of the manager and the moves of its tasks keep the invariant; the step
  relation they form, its reachable states, and what holds in every one of them.
\<close>

section \<open>Preservation by the building blocks\<close>

lemma mgr_invD: "mgr_inv m \<Longrightarrow> inv_for (current m) m"
  by (simp add: mgr_inv_def)

lemma mgr_inv_on_host:
  assumes "mgr_inv m"
    and "\<And>p r. i < length (mg_hosts m) \<Longrightarrow> (p, r) \<in> set (hm_relays (f (mg_hosts m ! i))) \<Longrightarrow>
       (p, r) \<in> set (hm_relays (mg_hosts m ! i))
       \<or> relay_ok (current m) m r"
  shows "mgr_inv (on_host i f m)"
  by (rule mgr_inv_frame [OF assms(1)]) (use assms in \<open>auto intro!: inv_on_host dest: mgr_invD\<close>)

lemma mgr_inv_abort: "mgr_inv m \<Longrightarrow> mgr_inv (abort i m)"
  by (rule mgr_inv_frame) (auto intro: inv_abort dest: mgr_invD)

lemma mgr_inv_close: "mgr_inv m \<Longrightarrow> mgr_inv (close_conn k code r m)"
  by (rule mgr_inv_frame) (auto dest: mgr_invD)

lemma mgr_inv_token: "mgr_inv m \<Longrightarrow> mgr_inv (snd (new_token m))"
  by (rule mgr_inv_frame) (auto intro: inv_new_token dest: mgr_invD)

lemma mgr_inv_spawn:
  assumes "mgr_inv m" and "\<And>x. tok = Some x \<Longrightarrow> x < mg_next_token m"
    and "session_kind k \<Longrightarrow> \<exists>x. tok = Some x \<and> (x \<in> set (mg_cancelled m) \<or> current m = Some x)"
    and "\<And>i. task_maps k = Some i \<Longrightarrow> i < length (mg_hosts m)"
  shows "mgr_inv (snd (spawn k tok m))"
  by (rule mgr_inv_frame [OF assms(1)]) (use assms in \<open>auto intro!: inv_spawn dest: mgr_invD\<close>)

lemma mgr_inv_stop_relay:
  "mgr_inv m \<Longrightarrow> relay_ok (current m) m r \<Longrightarrow> mgr_inv (stop_relay r m)"
  by (rule mgr_inv_frame) (auto intro: inv_stop_relay dest: mgr_invD)

lemma current_prims [simp]:
  "current (on_status f m) = current m" "current (abort i m) = current m"
  "current (on_host i g m) = current m" "current (snd (spawn k tok m)) = current m"
  "current (snd (new_token m)) = current m" "current (close_conn x code r m) = current m"
  "current (stop_relay q m) = current m" "current (cancel t m) = current m"
  by (simp_all add: current_def)

lemma mgr_relays_at:
  "mgr_inv m \<Longrightarrow> i < length (mg_hosts m) \<Longrightarrow> map_of (hm_relays (mg_hosts m ! i)) p = Some r \<Longrightarrow>
     relay_ok (current m) m r"
  by (auto dest: mgr_invD map_of_SomeD inv_relays_at)

lemma mgr_maps:
  "mgr_inv m \<Longrightarrow> mg_session m = Some rt \<Longrightarrow> sr_control rt = CHost host \<Longrightarrow> hc_maps host < length (mg_hosts m)"
  by (simp add: mgr_inv_def control_ok_def)

lemma mgr_current_fresh: "mgr_inv m \<Longrightarrow> current m = Some c \<Longrightarrow> c < mg_next_token m"
  by (auto simp: mgr_inv_def inv_for_def tokens_ok_def)

lemma mgr_task_ok: "mgr_inv m \<Longrightarrow> t \<in> set (mg_tasks m) \<Longrightarrow> task_ok (current m) m t"
  by (simp add: mgr_inv_def inv_for_def)

lemma mgr_task_maps:
  "mgr_inv m \<Longrightarrow> t \<in> set (mg_tasks m) \<Longrightarrow> task_maps (tk_kind t) = Some i \<Longrightarrow> i < length (mg_hosts m)"
  by (drule (1) mgr_task_ok) (simp add: task_ok_def)

section \<open>Preservation by the operations\<close>

lemma keep_stop_hosting: "mgr_inv m \<Longrightarrow> mgr_inv (stop_hosting m)"
  using inv_reset [of m] by (simp add: stop_hosting_def mgr_inv_none)

lemma keep_punch: "mgr_inv m \<Longrightarrow> mgr_inv (snd (punch_from_host a p r m))"
  by (auto simp: punch_from_host_def Let_def split: option.split session_control.split
      intro!: mgr_inv_spawn mgr_inv_on_host dest: mgr_maps)

lemma keep_punch_end: "mgr_inv m \<Longrightarrow> mgr_inv (punch_task_end i k p m)"
  by (auto simp: punch_task_end_def Let_def intro!: mgr_inv_abort mgr_inv_on_host)

lemma map_of_update_in: "(p, r) \<in> set (AList.update q s xs) \<Longrightarrow> (p, r) \<in> set xs \<or> r = s"
  by (induction xs) (auto split: if_splits)

lemma keep_cancel_relay:
  "mgr_inv m \<Longrightarrow> i < length (mg_hosts m) \<Longrightarrow> mgr_inv (cancel_host_relay_for_peer i p m)"
  using mgr_relays_at [of m i p]
  by (auto simp: cancel_host_relay_for_peer_def relay_ok_def Let_def AList.delete_eq split: option.split
      intro!: mgr_inv_stop_relay mgr_inv_on_host)

lemma current_cancel_relay [simp]:
  "current (cancel_host_relay_for_peer i p m) = current m"
  "length (mg_hosts (cancel_host_relay_for_peer i p m)) = length (mg_hosts m)"
  "mg_next_token (cancel_host_relay_for_peer i p m) = mg_next_token m"
  "set (mg_cancelled m) \<subseteq> set (mg_cancelled (cancel_host_relay_for_peer i p m))"
  by (auto simp: cancel_host_relay_for_peer_def Let_def split: option.split) (simp_all add: stop_relay_def)

lemma cancelled_cancel_relay:
  "x \<in> set (mg_cancelled m) \<Longrightarrow> x \<in> set (mg_cancelled (cancel_host_relay_for_peer i p m))"
  using current_cancel_relay(4) by blast

lemma keep_start_relay:
  assumes "mgr_inv m" "i < length (mg_hosts m)"
  shows "mgr_inv (start_or_replace_host_relay i p sid port ready m)"
proof -
  let ?t = "mg_next_token m"
  let ?m = "snd (spawn (RelayLoop sid) (Some ?t) (snd (new_token m)))"
  have m: "mgr_inv ?m" using mgr_inv_token [OF assms(1)] by (rule mgr_inv_spawn) auto
  have c: "current m \<noteq> Some ?t" using mgr_current_fresh [OF assms(1)] by blast
  let ?f = "\<lambda>h. h\<lparr>hm_relays := AList.update p \<lparr>rl_session_id = sid, rl_cancel = ?t,
      rl_task = fst (spawn (RelayLoop sid) (Some ?t) (snd (new_token m)))\<rparr> (hm_relays h)\<rparr>"
  have h: "mgr_inv (on_host i ?f ?m)"
    using m c by (intro mgr_inv_on_host) (auto simp: relay_ok_def dest!: map_of_update_in)
  have "rl_cancel r < Suc ?t \<and> rl_task r < Suc (mg_next_task m) \<and> current m \<noteq> Some (rl_cancel r)"
    if "map_of (hm_relays (mg_hosts m ! i)) p = Some r" for r
    using mgr_relays_at [OF assms that] by (simp add: relay_ok_def)
  then show ?thesis
    using m h
    by (auto simp: start_or_replace_host_relay_def relay_ok_def fst_snd_let Let_def case_prod_beta
        split: sum.split option.split intro!: mgr_inv_stop_relay)
qed

lemma keep_delayed_relay:
  "mgr_inv m \<Longrightarrow> t \<in> set (mg_tasks m) \<Longrightarrow> mgr_inv (delayed_relay_fires t ready m)"
  using mgr_task_maps [of m t]
  by (auto simp: delayed_relay_fires_def split: task_kind.split intro!: mgr_inv_abort keep_start_relay)

lemma keep_accept:
  assumes "mgr_inv m" and "t \<in> set (mg_tasks m)" "tk_kind t = AcceptLoop i" "tk_token t = Some tok"
  shows "mgr_inv (host_accept tok i c a rtt m)"
proof -
  have i: "i < length (mg_hosts m)" using mgr_task_maps [OF assms(1,2)] assms(3) by simp
  have tok: "tok < mg_next_token m" "tok \<in> set (mg_cancelled m) \<or> current m = Some tok"
    using mgr_task_ok [OF assms(1,2)] assms(3,4) by (auto simp: task_ok_def)
  then show ?thesis
    using assms(1) i
    by (auto simp: host_accept_def Let_def intro!: mgr_inv_spawn keep_cancel_relay mgr_inv_on_host
        cancelled_cancel_relay)
qed

lemma keep_accept_failed: "mgr_inv m \<Longrightarrow> mgr_inv (host_accept_failed tok e m)"
  by (simp add: host_accept_failed_def)

lemma keep_connection_end: "mgr_inv m \<Longrightarrow> mgr_inv (host_connection_end t r m)"
  by (auto simp: host_connection_end_def Let_def split: task_kind.split conn_end.split option.split
      intro!: mgr_inv_abort mgr_inv_on_host)

lemma keep_kick: "mgr_inv m \<Longrightarrow> mgr_inv (snd (kick_peer p m))"
  by (auto simp: kick_peer_def Let_def split: option.split session_control.split
      intro!: mgr_inv_close mgr_inv_on_host)

lemma keep_upnp: "mgr_inv m \<Longrightarrow> mgr_inv (upnp_task_end i b m)"
  by (auto simp: upnp_task_end_def Let_def mgr_inv_def current_def control_ok_def
      split: option.splits session_control.splits if_splits intro!: inv_abort)

lemma prepare_control_fields:
  assumes "prepare_client_control e a p r h v s m = (res, m')"
  shows "inv_for c m' = inv_for c m" "mg_session m' = mg_session m" "mgr_inv m' = mgr_inv m"
  using assms by (auto simp: prepare_client_control_def Let_def split: sum.splits option.splits)

lemma client_session_ok [simp]:
  "control_ok m \<lparr>sr_cancel = t, sr_tasks = ts, sr_control = CClient a\<rparr>"
  "control_ok m \<lparr>sr_cancel = t, sr_tasks = ts, sr_control = CPrepared c\<rparr>"
  by (simp_all add: control_ok_def)

lemma keep_start_client:
  assumes "inv_for None m" and "mg_session m = None"
  shows "mgr_inv (snd (start_client_connect e a p sid u m))"
proof (cases "prepare_client_control e a p (''P2P '' @ p) p ''Unknown'' ''1/30'' m")
  case (Pair res m1)
  note f = prepare_control_fields [OF Pair]
  have i: "inv_for None m1" using f(1) assms(1) by simp
  show ?thesis
  proof (cases res)
    case (Inl e)
    then show ?thesis using Pair f assms mgr_inv_none [OF i] by (simp add: start_client_connect_def)
  next
    case (Inr x)
    let ?t = "mg_next_token m1"
    have "inv_for (Some ?t) (on_status g (snd (new_token m1)))" for g
      using inv_next_session [OF i] by simp
    then show ?thesis
      using Pair Inr by (cases x) (auto simp: start_client_connect_def fst_snd_let Let_def case_prod_beta
          intro!: mgr_inv_start inv_spawn)
  qed
qed

lemma keep_connect: "mgr_inv m \<Longrightarrow> mgr_inv (snd (connect_to_peer e a p sid m))"
  using keep_punch [of m]
  by (auto simp: connect_to_peer_def inv_reset split: sum.split prod.split bool.split
      intro!: keep_start_client) (metis snd_conv inv_reset)+

lemma keep_prepared:
  assumes "prepare_client_control e a p r h v s m = (res, m1)" and "inv_for None m" "mg_session m = None"
  shows "mgr_inv m1"
    "new_token m1 = (t, m2) \<Longrightarrow> mgr_inv ((on_status f m2)\<lparr>mg_session :=
       Some \<lparr>sr_cancel = t, sr_tasks = [], sr_control = CPrepared c\<rparr>\<rparr>)"
proof -
  note f = prepare_control_fields [OF assms(1)]
  have i: "inv_for None m1" using f(1) assms(2) by simp
  then show "mgr_inv m1" using f(2) assms(3) by (simp add: mgr_inv_none)
  show "mgr_inv ((on_status f m2)\<lparr>mg_session :=
       Some \<lparr>sr_cancel = t, sr_tasks = [], sr_control = CPrepared c\<rparr>\<rparr>)" if "new_token m1 = (t, m2)"
    using inv_next_session [OF i] that fst_new_token [of m1] by (simp add: mgr_inv_start)
qed

lemma keep_prepare: "mgr_inv m \<Longrightarrow> mgr_inv (snd (prepare_client_connect e a p r h v s m))"
  by (auto simp: prepare_client_connect_def Let_def fst_snd_let [of "new_token _"] inv_reset
      split: sum.split prod.split intro: keep_prepared)

lemma keep_commit:
  assumes "mgr_inv m"
  shows "mgr_inv (snd (commit_prepared_client_connect sid u m))"
proof (cases "mg_session m")
  case None
  then show ?thesis using assms by (simp add: commit_prepared_client_connect_def)
next
  case (Some rt)
  let ?m = "fold abort (sr_tasks rt) (m\<lparr>mg_session := None\<rparr>)"
  have i: "inv_for (Some (sr_cancel rt)) ?m" "mg_next_token ?m = mg_next_token m"
    "length (mg_hosts ?m) = length (mg_hosts m)"
    using assms Some by (auto simp: mgr_inv_def current_def intro: inv_fold_abort) (simp_all add: fold_abort)
  have c: "sr_cancel rt < mg_next_token m"
    using assms Some by (auto simp: mgr_inv_def inv_for_def tokens_ok_def current_def)
  have s: "inv_for (Some (sr_cancel rt)) (snd (spawn (ClientFlow p sid u) (Some (sr_cancel rt)) ?m))" for p
    by (rule inv_spawn [OF i(1)]) (use c i(2) in auto)
  have k: "control_ok ?m rt" using assms Some control_ok_cong [OF i(2,3)] by (simp add: mgr_inv_def)
  then have "control_ok ?m \<lparr>sr_cancel = sr_cancel rt, sr_tasks = [], sr_control = sr_control rt\<rparr>"
    by (auto simp: control_ok_def split: session_control.splits option.splits)
  with s i(1) show ?thesis
    by (auto simp: commit_prepared_client_connect_def Some Let_def case_prod_beta
        split: session_control.split intro!: mgr_inv_start)
qed

section \<open>Cancelling is for good\<close>

abbreviation keeps_cancelled :: "manager \<Rightarrow> manager \<Rightarrow> bool" where
  "keeps_cancelled m m' \<equiv> set (mg_cancelled m) \<subseteq> set (mg_cancelled m')"

lemma cancelled_prims [simp]:
  "mg_cancelled (close_conn k code r m) = mg_cancelled m"
  "mg_cancelled (on_host i g m) = mg_cancelled m"
  "mg_cancelled (stop_relay q m) = rl_cancel q # mg_cancelled m"
  "mg_cancelled (cancel c m) = c # mg_cancelled m"
  by (simp_all add: mgr_prim_defs stop_relay_def)

lemma cancelled_fold_abort [simp]: "mg_cancelled (fold abort is m) = mg_cancelled m"
  by (simp add: fold_abort)

lemma reset_keeps_cancelled: "keeps_cancelled m (reset_session m)"
proof (cases "mg_session m")
  case None
  then show ?thesis by (simp add: reset_none)
next
  case (Some rt)
  then show ?thesis using reset_fields(4) [OF Some] by auto
qed

lemma stop_keeps_cancelled: "keeps_cancelled m (stop_hosting m)"
  using reset_keeps_cancelled [of m] by (simp add: stop_hosting_def)

lemma inner_cancelled: "mg_cancelled (snd (start_hosting_inner e room pw port en ver fd m)) = mg_cancelled m"
  by (auto simp: start_hosting_inner_def new_host_maps_def spawn_e4mc_def new_token_def spawn_def Let_def
      on_status_def install_host_def split: sum.split option.split)

lemma start_keeps_cancelled: "keeps_cancelled m (snd (start_hosting e room pw port en ver fd m))"
  using reset_keeps_cancelled [of m] inner_cancelled [of e "trim room" pw port en ver fd "reset_session m"]
  by (auto simp: start_hosting_def Let_def split: prod.split sum.split)

lemma punch_cancelled: "mg_cancelled (snd (punch_from_host a p sid m)) = mg_cancelled m"
  by (auto simp: punch_from_host_def Let_def split: option.split session_control.split)

lemma control_cancelled: "mg_cancelled (snd (prepare_client_control e a p r h v s m)) = mg_cancelled m"
  by (auto simp: prepare_client_control_def Let_def split: sum.split option.split)

lemma client_cancelled: "mg_cancelled (snd (start_client_connect e a p sid u m)) = mg_cancelled m"
  using control_cancelled [of e a p "''P2P '' @ p" p "''Unknown''" "''1/30''" m]
  by (auto simp: start_client_connect_def Let_def new_token_def spawn_def on_status_def
      split: prod.split sum.split)

lemma connect_keeps_cancelled: "keeps_cancelled m (snd (connect_to_peer e a p sid m))"
proof -
  have "keeps_cancelled m (snd (start_client_connect e b q sid False (reset_session m')))"
    if "snd (punch_from_host b p sid m) = m'" for b q m'
    using punch_cancelled [of b p sid m] reset_keeps_cancelled [of m'] that by (simp add: client_cancelled)
  then show ?thesis
    using punch_cancelled [of _ p sid m]
    by (auto simp: connect_to_peer_def split: sum.split prod.split bool.split) (metis snd_conv)+
qed

lemma prepare_keeps_cancelled: "keeps_cancelled m (snd (prepare_client_connect e a p r h v s m))"
proof -
  have "keeps_cancelled m x" if "prepare_client_control e b q r' h' v' s' (reset_session m) = (y, x)"
    for b q r' h' v' s' x y
    using control_cancelled [of e b q r' h' v' s' "reset_session m"] reset_keeps_cancelled [of m] that by simp
  then show ?thesis
    by (fastforce simp: prepare_client_connect_def Let_def new_token_def on_status_def
        split: sum.split prod.split)
qed

lemma commit_cancelled: "mg_cancelled (snd (commit_prepared_client_connect sid u m)) = mg_cancelled m"
  by (auto simp: commit_prepared_client_connect_def Let_def spawn_def on_status_def
      split: option.split session_control.split)

lemma kick_cancelled: "mg_cancelled (snd (kick_peer p m)) = mg_cancelled m"
  by (auto simp: kick_peer_def Let_def split: option.split session_control.split)

lemma relay_keeps_cancelled:
  "keeps_cancelled m (cancel_host_relay_for_peer i p m)"
  "keeps_cancelled m (start_or_replace_host_relay i p sid port ready m)"
  "keeps_cancelled m (delayed_relay_fires t ready m)"
  by (auto simp: cancel_host_relay_for_peer_def start_or_replace_host_relay_def delayed_relay_fires_def
      Let_def new_token_def spawn_def split: option.split sum.split task_kind.split)

lemma accept_keeps_cancelled: "keeps_cancelled m (host_accept tok i k a rtt m)"
proof -
  have "keeps_cancelled m (cancel_host_relay_for_peer i p m')" if "mg_cancelled m' = mg_cancelled m" for p m'
    using relay_keeps_cancelled(1) [of m' i p] that by simp
  then show ?thesis by (simp add: host_accept_def Let_def)
qed

lemma task_ends_keep_cancelled:
  "mg_cancelled (host_accept_failed tok err m) = mg_cancelled m"
  "mg_cancelled (host_connection_end t reason m) = mg_cancelled m"
  "mg_cancelled (punch_task_end n i q m) = mg_cancelled m"
  "mg_cancelled (upnp_task_end n b m) = mg_cancelled m"
  by (auto simp: host_accept_failed_def host_connection_end_def punch_task_end_def upnp_task_end_def Let_def
      split: task_kind.split conn_end.split option.split session_control.split)

lemmas keeps_cancelled_rules = stop_keeps_cancelled start_keeps_cancelled connect_keeps_cancelled
  prepare_keeps_cancelled commit_cancelled [THEN equalityD2 [OF arg_cong [where f = set]]]
  kick_cancelled [THEN equalityD2 [OF arg_cong [where f = set]]] relay_keeps_cancelled accept_keeps_cancelled
  task_ends_keep_cancelled [THEN equalityD2 [OF arg_cong [where f = set]]]

section \<open>The step relation\<close>

text \<open>
  The public operations, which the control lock serialises, and the moves of the tasks,
  each of which is possible while the manager holds the task.
\<close>

inductive mgr_step :: "manager \<Rightarrow> manager \<Rightarrow> bool" where
  ms_start: "mgr_step m (snd (start_hosting e room pw port en ver fd m))"
| ms_stop: "mgr_step m (stop_hosting m)"
| ms_connect: "mgr_step m (snd (connect_to_peer ce a p sid m))"
| ms_prepare: "mgr_step m (snd (prepare_client_connect ce a p r h v s m))"
| ms_commit: "mgr_step m (snd (commit_prepared_client_connect sid u m))"
| ms_kick: "mgr_step m (snd (kick_peer peer m))"
| ms_accept: "t \<in> set (mg_tasks m) \<Longrightarrow> tk_kind t = AcceptLoop i \<Longrightarrow> tk_token t = Some tok \<Longrightarrow>
    mgr_step m (host_accept tok i k addr rtt m)"
| ms_accept_failed: "t \<in> set (mg_tasks m) \<Longrightarrow> tk_kind t = AcceptLoop i \<Longrightarrow> tk_token t = Some tok \<Longrightarrow>
    mgr_step m (host_accept_failed tok err m)"
| ms_connection_end: "t \<in> set (mg_tasks m) \<Longrightarrow> mgr_step m (host_connection_end t reason m)"
| ms_relay: "t \<in> set (mg_tasks m) \<Longrightarrow> mgr_step m (delayed_relay_fires t ready m)"
| ms_punch_end: "t \<in> set (mg_tasks m) \<Longrightarrow> tk_kind t = PunchTask i q \<Longrightarrow>
    mgr_step m (punch_task_end (tk_id t) i q m)"
| ms_upnp_end: "t \<in> set (mg_tasks m) \<Longrightarrow> tk_kind t = UpnpTask \<Longrightarrow> mgr_step m (upnp_task_end (tk_id t) b m)"
| ms_task_end: "t \<in> set (mg_tasks m) \<Longrightarrow> mgr_step m (abort (tk_id t) m)"
| ms_status: "mgr_step m (on_status f m)"

inductive mgr_reachable :: "manager \<Rightarrow> bool" where
  mr_init: "mgr_reachable new_manager"
| mr_step: "mgr_reachable m \<Longrightarrow> mgr_step m m' \<Longrightarrow> mgr_reachable m'"

lemma mgr_step_inv: "mgr_step m m' \<Longrightarrow> mgr_inv m \<Longrightarrow> mgr_inv m'"
  by (induction rule: mgr_step.induct)
    (auto intro: inv_start_hosting keep_stop_hosting keep_connect keep_prepare keep_commit keep_kick
      keep_accept keep_accept_failed keep_connection_end keep_delayed_relay keep_punch_end keep_upnp
      mgr_inv_abort)

lemma mgr_reachable_inv: "mgr_reachable m \<Longrightarrow> mgr_inv m"
proof (induction rule: mgr_reachable.induct)
  case mr_init
  show ?case
    by (simp add: mgr_inv_def current_def inv_for_def tokens_ok_def relays_def new_manager_def)
next
  case (mr_step m m')
  then show ?case by (blast intro: mgr_step_inv)
qed

lemma mgr_step_cancelled: "mgr_step m m' \<Longrightarrow> set (mg_cancelled m) \<subseteq> set (mg_cancelled m')"
  by (induction rule: mgr_step.induct) (rule keeps_cancelled_rules | simp)+

lemma mgr_steps_cancelled: "mgr_step\<^sup>*\<^sup>* m m' \<Longrightarrow> set (mg_cancelled m) \<subseteq> set (mg_cancelled m')"
  by (induction rule: rtranclp_induct) (auto dest: mgr_step_cancelled)

lemma stop_keeps_task:
  assumes "mg_session m = Some rt" "sr_control rt = CHost host"
    and "hm_relays (mg_hosts m ! hc_maps host) = []" "tk_id t \<notin> snd ` set_option (hc_e4mc host)"
    and "t \<in> set (mg_tasks m)" "tk_id t \<notin> set (sr_tasks rt)"
  shows "t \<in> set (mg_tasks (stop_hosting m))"
  using assms(2-)
  by (auto simp: stop_hosting_def reset_some [OF assms(1)] on_status_def fold_abort reset_control_def
      mgr_prim_defs fold_close fold_stop_relay Let_def split: option.splits)

lemma sample_events_task:
  "\<lparr>tk_id = 3, tk_kind = LobbyEvents, tk_token = Some 1\<rparr> \<in> set (mg_tasks (stop_hosting sample_host))"
proof (rule stop_keeps_task [OF sample_host_fields(1)])
  have "\<lparr>tk_id = 3, tk_kind = LobbyEvents, tk_token = Some 1\<rparr> \<in> set (live_tasks sample_host)"
    by (simp add: live_tasks_def sample_host_def trim_room run_manager_defs host_accept_def
      cancel_host_relay_for_peer_def)
  then show "\<lparr>tk_id = 3, tk_kind = LobbyEvents, tk_token = Some 1\<rparr> \<in> set (mg_tasks sample_host)"
    by (simp add: live_task_iff)
qed (simp add: sample_host_fields)+

text \<open>
  C1: in every order of the manager's operations and task moves, the tasks started with a
  session's token - the accept loop, the lobby loop and its event subscription, the
  connections of peers and the client's flow - follow the session there is. As long as such a
  task has neither ended nor been aborted, either its token is that of the session there is,
  and then it is not cancelled, or its token has been cancelled and is never valid again,
  whatever is done next: ending or replacing a session leaves no such task that has not been
  told to stop. A cancelled task may go on until it next looks at its token. Relays, the
  relays started after a delay, the e4mc loop, punching, UPnP, leaving the lobby and the
  bridges of single game connections have other tokens or none and are not covered.
\<close>

theorem session_tasks_follow_session:
  assumes "mgr_reachable m"
  shows "(\<forall>rt. mg_session m = Some rt \<longrightarrow> sr_cancel rt \<notin> set (mg_cancelled m))
    \<and> (\<forall>t \<in> set (mg_tasks m). session_kind (tk_kind t) \<longrightarrow>
         (\<exists>c. tk_token t = Some c
            \<and> (if map_option sr_cancel (mg_session m) = Some c then t \<in> set (live_tasks m)
                else (\<forall>m'. mgr_step\<^sup>*\<^sup>* m m' \<longrightarrow> c \<in> set (mg_cancelled m') \<and> t \<notin> set (live_tasks m')))))"
proof -
  have i: "inv_for (current m) m" using mgr_reachable_inv [OF assms] by (simp add: mgr_inv_def)
  then have s: "sr_cancel rt \<notin> set (mg_cancelled m)" if "mg_session m = Some rt" for rt
    using that by (simp add: inv_for_def tokens_ok_def current_def)
  have "\<exists>c. tk_token t = Some c
      \<and> (if current m = Some c then t \<in> set (live_tasks m)
          else (\<forall>m'. mgr_step\<^sup>*\<^sup>* m m' \<longrightarrow> c \<in> set (mg_cancelled m') \<and> t \<notin> set (live_tasks m')))"
    if t: "t \<in> set (mg_tasks m)" "session_kind (tk_kind t)" for t
  proof -
    from i t obtain c where c: "tk_token t = Some c" "c \<in> set (mg_cancelled m) \<or> current m = Some c"
      by (auto simp: inv_for_def task_ok_def)
    then show ?thesis
      using s t(1) mgr_steps_cancelled by (auto simp: live_task_iff current_def)
  qed
  with s show ?thesis by (simp add: current_def)
qed

lemma sample_host_reachable: "mgr_reachable sample_host"
proof -
  let ?m = "snd (start_hosting sample_host_env ''room'' None 25565 True None False new_manager)"
  have r: "mgr_reachable ?m"
    by (rule mr_step [OF mr_init]) (rule ms_start)
  have "\<lparr>tk_id = 1, tk_kind = AcceptLoop 0, tk_token = Some 1\<rparr> \<in> set (mg_tasks ?m)"
    by (simp add: trim_room run_manager_defs)
  from mr_step [OF r ms_accept [OF this]] show ?thesis
    by (simp add: sample_host_def)
qed

theorem session_tasks_follow_session_witness:
  "mgr_reachable (stop_hosting sample_host)
   \<and> (\<exists>t. t \<in> set (mg_tasks (stop_hosting sample_host)) \<and> tk_kind t = LobbyEvents
        \<and> t \<notin> set (live_tasks (stop_hosting (stop_hosting sample_host))))"
proof
  show r: "mgr_reachable (stop_hosting sample_host)"
    by (rule mr_step [OF sample_host_reachable ms_stop])
  have "mgr_step\<^sup>*\<^sup>* (stop_hosting sample_host) (stop_hosting (stop_hosting sample_host))"
    using ms_stop by blast
  moreover have "mg_session (stop_hosting sample_host) = None"
    using reset_fields(1) [OF sample_host_fields(1)] by (simp add: stop_hosting_def)
  ultimately have "\<lparr>tk_id = 3, tk_kind = LobbyEvents, tk_token = Some 1\<rparr>
      \<notin> set (live_tasks (stop_hosting (stop_hosting sample_host)))"
    using session_tasks_follow_session [OF r] sample_events_task by fastforce
  then show "\<exists>t. t \<in> set (mg_tasks (stop_hosting sample_host)) \<and> tk_kind t = LobbyEvents
        \<and> t \<notin> set (live_tasks (stop_hosting (stop_hosting sample_host)))"
    using sample_events_task by (metis task.select_convs(2))
qed

end
