(* ===== verification/Manager_Props.thy ===== *)
theory Manager_Props
  imports Manager_Steps
begin

text \<open>
  What single operations of the manager do: kicking, accepting, announcing and committing,
  and the tasks, connections and statuses that fall out of the session's care.
\<close>

section \<open>Lemmas\<close>

lemma live_cong:
  "mg_tasks m' = mg_tasks m \<Longrightarrow> mg_cancelled m' = mg_cancelled m \<Longrightarrow> live_tasks m' = live_tasks m"
  by (auto simp: live_tasks_def split: option.split intro!: filter_cong)

lemma live_after_empty_reset:
  "mg_session m = None \<Longrightarrow> live_tasks (stop_hosting m) = live_tasks m"
  by (rule live_cong) (simp_all add: stop_hosting_def reset_none)

lemma stop_hosting_none: "mg_session m = None \<Longrightarrow> mg_session (stop_hosting m) = None"
  by (simp add: stop_hosting_def reset_none)

lemma live_after_stops:
  "mg_session m = None \<Longrightarrow> live_tasks ((stop_hosting ^^ n) m) = live_tasks m
     \<and> mg_session ((stop_hosting ^^ n) m) = None"
  by (induction n) (simp_all add: live_after_empty_reset stop_hosting_none)

lemma next_token_fresh: "mgr_inv m \<Longrightarrow> mg_next_token m \<notin> set (mg_cancelled m)"
  by (auto simp: mgr_inv_def inv_for_def tokens_ok_def)

lemma on_host_same: "i < length (mg_hosts m) \<Longrightarrow> mg_hosts (on_host i f m) ! i = f (mg_hosts m ! i)"
  by (simp add: on_host_def)

lemma status_prims [simp]:
  "mg_status (on_status f m) = f (mg_status m)" "mg_status (abort i m) = mg_status m"
  "mg_status (on_host i g m) = mg_status m" "mg_status (snd (spawn k tok m)) = mg_status m"
  "mg_status (close_conn x code r m) = mg_status m"
  "mg_tasks (close_conn x code r m) = mg_tasks m" "mg_cancelled (close_conn x code r m) = mg_cancelled m"
  "mg_closed (close_conn x code r m) = mg_closed m @ [(x, code, r)]"
  "mg_closed (on_status f m) = mg_closed m" "mg_closed (abort i m) = mg_closed m"
  "mg_closed (on_host i g m) = mg_closed m" "mg_closed (snd (spawn k tok m)) = mg_closed m"
  by (simp_all add: mgr_prim_defs)

text \<open>A peer as the status shows it.\<close>

definition shown_connected :: "string \<Rightarrow> network_status \<Rightarrow> bool" where
  "shown_connected p s \<longleftrightarrow> list_ex (\<lambda>q. pi_peer_id q = p \<and> pi_connected q) (ns_peers s)"

lemma update_first_off:
  "distinct (map f xs) \<Longrightarrow> \<not> list_ex (\<lambda>q. f q = p \<and> g q) (update_first (\<lambda>q. f q = p) h xs)"
  if "\<And>q. f (h q) = f q" "\<And>q. \<not> g (h q)" for f :: "'a \<Rightarrow> string"
  using that
proof (induction xs)
  case (Cons x xs)
  have "False" if "f x \<notin> f ` set xs" "q \<in> set xs" "f q = f x" for q
    using that by (metis imageI)
  with Cons show ?case by (auto simp: list_ex_iff)
qed simp

lemma disconnected_not_shown:
  "distinct (peer_ids (ns_peers s)) \<Longrightarrow> \<not> shown_connected p (mark_peer_disconnected p s)"
  unfolding shown_connected_def mark_peer_disconnected_def peers_mutate Let_def peer_ids_def
  by (simp add: update_first_off)

section \<open>Kicking\<close>

lemma update_first_other:
  "(\<And>q. f (h q) = f q) \<Longrightarrow> p \<noteq> k \<Longrightarrow>
     list_ex (\<lambda>q. f q = p \<and> g q) (update_first (\<lambda>q. f q = k) h xs) = list_ex (\<lambda>q. f q = p \<and> g q) xs"
  by (induction xs) auto

lemma disconnected_others_shown:
  "q \<noteq> p \<Longrightarrow> shown_connected q (mark_peer_disconnected p s) = shown_connected q s"
  unfolding shown_connected_def mark_peer_disconnected_def peers_mutate Let_def
  by (simp add: update_first_other)

text \<open>
  C14: kicking a peer. A host to which the peer is connected closes exactly that peer's
  connection, with code 1, and forgets it: the connections of the other peers, what is
  announced, the relays and the connections of other sessions, the session, the tasks and the
  tokens stay as they are; the status no longer shows the peer connected and shows every
  other peer as before. Without a session, in a client's session, running or prepared, and
  for a peer that is not connected, nothing changes and the error says which of these it is.
\<close>

theorem kick_peer_spec:
  assumes "distinct (peer_ids (ns_peers (mg_status m)))"
    and "\<And>rt host. mg_session m = Some rt \<Longrightarrow> sr_control rt = CHost host \<Longrightarrow> hc_maps host < length (mg_hosts m)"
  shows "case mg_session m of
      None \<Rightarrow> kick_peer p m = (Inl [Lit ''there is no active session''], m)
    | Some rt \<Rightarrow>
       (case sr_control rt of
          CPrepared client \<Rightarrow> kick_peer p m = (Inl [Lit ''a player can be kicked in host mode only''], m)
        | CClient addr \<Rightarrow> kick_peer p m = (Inl [Lit ''a player can be kicked in host mode only''], m)
        | CHost host \<Rightarrow>
           (case map_of (hm_live (mg_hosts m ! hc_maps host)) p of
              None \<Rightarrow> kick_peer p m =
                (Inl [Fmt ''player {peer_id} is not among the active connections'' [Lit p]], m)
            | Some c \<Rightarrow>
                fst (kick_peer p m) = Inr ()
                \<and> mg_closed (snd (kick_peer p m)) = mg_closed m @ [(c, 1, ''kicked-by-host'')]
                \<and> map_of (hm_live (mg_hosts (snd (kick_peer p m)) ! hc_maps host)) =
                    (map_of (hm_live (mg_hosts m ! hc_maps host)))(p := None)
                \<and> hm_expected (mg_hosts (snd (kick_peer p m)) ! hc_maps host) = hm_expected (mg_hosts m ! hc_maps host)
                \<and> hm_relays (mg_hosts (snd (kick_peer p m)) ! hc_maps host) = hm_relays (mg_hosts m ! hc_maps host)
                \<and> (\<forall>i. i \<noteq> hc_maps host \<longrightarrow> mg_hosts (snd (kick_peer p m)) ! i = mg_hosts m ! i)
                \<and> mg_session (snd (kick_peer p m)) = mg_session m
                \<and> mg_tasks (snd (kick_peer p m)) = mg_tasks m
                \<and> live_tasks (snd (kick_peer p m)) = live_tasks m
                \<and> mg_cancelled (snd (kick_peer p m)) = mg_cancelled m
                \<and> mg_next_token (snd (kick_peer p m)) = mg_next_token m
                \<and> (\<forall>q. shown_connected q (mg_status (snd (kick_peer p m))) \<longleftrightarrow>
                       q \<noteq> p \<and> shown_connected q (mg_status m))))"
proof (cases "mg_session m")
  case None
  then show ?thesis by (simp add: kick_peer_def)
next
  case (Some rt)
  have shown: "shown_connected q (push_log l (mark_peer_disconnected p (mg_status m))) \<longleftrightarrow>
      q \<noteq> p \<and> shown_connected q (mg_status m)" for l q
    using disconnected_not_shown [OF assms(1), of p] disconnected_others_shown [of q p]
    by (auto simp: shown_connected_def)
  have l: "live_tasks (snd (kick_peer p m)) = live_tasks m"
    by (rule live_cong) (auto simp: kick_peer_def Let_def split: option.split session_control.split)
  show ?thesis
  proof (cases "sr_control rt")
    case (CHost host)
    with Some have i: "hc_maps host < length (mg_hosts m)" by (rule assms(2))
    show ?thesis
    proof (cases "map_of (hm_live (mg_hosts m ! hc_maps host)) p")
      case None
      then show ?thesis using Some CHost by (simp add: kick_peer_def)
    next
      case (Some c)
      then show ?thesis
        using \<open>mg_session m = Some rt\<close> CHost i l shown
        by (simp add: kick_peer_def on_host_same AList.delete_conv') (simp add: on_host_def close_conn_def)
    qed
  qed (simp_all add: Some kick_peer_def)
qed

theorem kick_peer_spec_witness:
  "mg_closed (snd (kick_peer (show_addr (SockV4 192 0 2 9 5000)) sample_host)) =
     [(7, 1, ''kicked-by-host'')]
   \<and> kick_peer ''bob'' new_manager = (Inl [Lit ''there is no active session''], new_manager)"
proof
  have "distinct (peer_ids (ns_peers (mg_status sample_host)))"
    by (simp add: sample_host_def trim_room run_manager_defs host_accept_def cancel_host_relay_for_peer_def
        peer_ids_def push_log_def upsert_peer_def host_active_status_def default_status_def)
  moreover have "hc_maps host < length (mg_hosts sample_host)"
    if "mg_session sample_host = Some rt" "sr_control rt = CHost host" for rt host
    using that by (auto simp: sample_host_fields)
  ultimately show "mg_closed (snd (kick_peer (show_addr (SockV4 192 0 2 9 5000)) sample_host)) =
     [(7, 1, ''kicked-by-host'')]"
    using kick_peer_spec [of sample_host "show_addr (SockV4 192 0 2 9 5000)"] by (simp add: sample_host_fields)
  show "kick_peer ''bob'' new_manager = (Inl [Lit ''there is no active session''], new_manager)"
    using kick_peer_spec [of new_manager "''bob''"]
    by (simp add: new_manager_def initial_status_def default_status_def peer_ids_def)
qed

section \<open>Tasks and sessions that escape\<close>

lemma e4mc_in_inner:
  assumes "isl (fst (start_hosting_inner e room pw port True ver fd m))"
  shows "\<lparr>tk_id = mg_next_task m, tk_kind = E4mcLoop, tk_token = Some (mg_next_token m)\<rparr>
      \<in> set (mg_tasks (snd (start_hosting_inner e room pw port True ver fd m)))"
    "mg_cancelled (snd (start_hosting_inner e room pw port True ver fd m)) = mg_cancelled m"
    "mg_session (snd (start_hosting_inner e room pw port True ver fd m)) = mg_session m"
  using assms
  by (auto simp: start_hosting_inner_def new_host_maps_def spawn_e4mc_def new_token_def spawn_def Let_def
      on_status_def split: sum.splits)

lemma e4mc_relays:
  "isl (fst (start_hosting_inner e room pw port en ver fd m)) \<Longrightarrow>
     relays (snd (start_hosting_inner e room pw port en ver fd m)) = relays m"
  by (auto simp: start_hosting_inner_def spawn_e4mc_def Let_def relays_def new_host_maps_def new_token_def
      spawn_def on_status_def split: sum.splits if_splits)

lemma reset_next_task: "mg_next_task m \<le> mg_next_task (reset_session m)"
  by (auto simp: reset_session_def reset_control_def Let_def fold_stop_relay fold_close fold_abort
      mgr_prim_defs split: option.split session_control.split)

lemma stops_keep_tokens:
  "mg_session m = None \<Longrightarrow> mg_cancelled ((stop_hosting ^^ n) m) = mg_cancelled m
     \<and> relays ((stop_hosting ^^ n) m) = relays m \<and> mg_session ((stop_hosting ^^ n) m) = None"
  by (induction n) (auto simp: stop_hosting_def reset_none relays_def on_status_def)

text \<open>
  C16: a host that asked for the e4mc fallback and then fails to bind its socket, to build its
  certificate or to open its endpoint is told so, and there is no session; but the e4mc loop
  it started goes on: it has not been told to stop, and cannot be any more. Its token is that
  of no session and of no recorded relay, and it is cancelled by no number of
  \<open>stop_hosting\<close> calls. (In this build the start of an e4mc runtime always fails, so what goes
  on is the retrying, every five seconds, with its log lines; nothing is published.)
\<close>

theorem failed_host_keeps_e4mc:
  assumes "mgr_reachable m" and "trim room \<noteq> []" and "port \<noteq> 0"
    and "start_hosting e room pw port True ver fd m = (Inl error, m')"
  shows "mg_session m' = None
    \<and> (\<exists>t c. tk_kind t = E4mcLoop \<and> tk_id t = mg_next_task (reset_session m) \<and> tk_token t = Some c
         \<and> t \<notin> set (mg_tasks m)
         \<and> (\<forall>n. t \<in> set (live_tasks ((stop_hosting ^^ n) m'))
              \<and> mg_session ((stop_hosting ^^ n) m') = None
              \<and> c \<notin> set (mg_cancelled ((stop_hosting ^^ n) m'))
              \<and> c \<notin> rl_cancel ` relays ((stop_hosting ^^ n) m')))"
proof -
  let ?m = "reset_session m"
  have inv: "mgr_inv ?m" "mg_session ?m = None"
    using mgr_reachable_inv [OF assms(1)] by (simp_all add: inv_reset mgr_inv_none)
  obtain m1 where inner: "start_hosting_inner e (trim room) pw port True ver fd ?m = (Inl error, m1)"
    and m': "m' = on_status (\<lambda>_. fatal_status ModeHost None error) m1"
    using assms(2-4) by (auto simp: start_hosting_def Let_def split: prod.splits sum.splits)
  note k = e4mc_in_inner [of e "trim room" pw port ver fd ?m, unfolded inner]
  have s: "mg_session m' = None" using k(3) inv(2) by (simp add: m')
  let ?c = "mg_next_token ?m"
  let ?t = "\<lparr>tk_id = mg_next_task ?m, tk_kind = E4mcLoop, tk_token = Some ?c\<rparr>"
  have c: "?c \<notin> set (mg_cancelled m')"
    using k(2) next_token_fresh [OF inv(1)] by (simp add: m')
  have "relays m' = relays ?m"
    using e4mc_relays [of e "trim room" pw port True ver fd ?m, unfolded inner] by (simp add: m' relays_def)
  then have r: "?c \<notin> rl_cancel ` relays m'"
    using inv(1) by (auto simp: mgr_inv_def inv_for_def tokens_ok_def)
  have "?t \<in> set (live_tasks m')"
    using k(1) c by (simp add: live_task_iff m')
  then have "?t \<in> set (live_tasks ((stop_hosting ^^ n) m'))" for n
    using live_after_stops [OF s] by simp
  moreover have "?t \<notin> set (mg_tasks m)"
    using mgr_task_ok [OF mgr_reachable_inv [OF assms(1)], of ?t] reset_next_task [of m]
    by (auto simp: task_ok_def)
  ultimately show ?thesis
    using s c r stops_keep_tokens [OF s] by (intro conjI exI [of _ ?t] exI [of _ ?c]) auto
qed

theorem failed_host_keeps_e4mc_witness:
  "\<exists>t \<in> set (live_tasks ((stop_hosting ^^ 3)
       (snd (start_hosting (sample_host_env\<lparr>he_bind := Inl [Lit ''in use'']\<rparr>) ''room'' None 25565 True None False new_manager)))).
     tk_kind t = E4mcLoop"
proof -
  let ?e = "sample_host_env\<lparr>he_bind := Inl [Lit ''in use'']\<rparr>"
  obtain m' where "start_hosting ?e ''room'' None 25565 True None False new_manager = (Inl [Lit ''in use''], m')"
    by (simp add: trim_room run_manager_defs)
  moreover have "trim ''room'' \<noteq> []" by (simp add: trim_room)
  ultimately show ?thesis
    using failed_host_keeps_e4mc [OF mr_init, of "''room''" 25565 ?e None None False "[Lit ''in use'']" m']
    by fastforce
qed

lemma started_relay:
  assumes "mgr_inv m" and "i < length (mg_hosts m)"
  shows "\<lparr>tk_id = mg_next_task m, tk_kind = RelayLoop sid, tk_token = Some (mg_next_token m)\<rparr>
      \<in> set (live_tasks (start_or_replace_host_relay i p sid port ready m))"
    "isl ready \<Longrightarrow> relays (start_or_replace_host_relay i p sid port ready m) = relays m"
    "mg_session (start_or_replace_host_relay i p sid port ready m) = mg_session m"
proof -
  have "rl_cancel q \<noteq> mg_next_token m \<and> rl_task q \<noteq> mg_next_task m"
    if "map_of (hm_relays (mg_hosts m ! i)) p = Some q" for q
    using mgr_relays_at [OF assms that] by (auto simp: relay_ok_def)
  then show "\<lparr>tk_id = mg_next_task m, tk_kind = RelayLoop sid, tk_token = Some (mg_next_token m)\<rparr>
      \<in> set (live_tasks (start_or_replace_host_relay i p sid port ready m))"
    using next_token_fresh [OF assms(1)]
    by (auto simp: start_or_replace_host_relay_def live_task_iff mgr_prim_defs Let_def
        split: sum.split option.split)
qed (auto simp: start_or_replace_host_relay_def Let_def mgr_prim_defs relays_def isl_def
      split: sum.split option.split)

text \<open>
  C15: the task that brings up the relay for an announced peer after a delay belongs to no
  session. If it fires when the session is gone, it starts a relay runtime that keeps the
  stopped host's game reachable, and no number of \<open>stop_hosting\<close> calls ends it; and when the
  relay cannot be bootstrapped, the runtime that goes on reconnecting is recorded nowhere.
\<close>

theorem delayed_relay_escapes:
  assumes "mgr_reachable m" and "t \<in> set (mg_tasks m)"
    and "tk_kind t = DelayedRelay i p session_id port"
  shows "\<exists>r \<in> set (live_tasks (delayed_relay_fires t ready m)).
      tk_kind r = RelayLoop session_id \<and> r \<notin> set (mg_tasks m)
      \<and> (mg_session m = None \<longrightarrow> r \<in> set (live_tasks ((stop_hosting ^^ n) (delayed_relay_fires t ready m))))
      \<and> (isl ready \<longrightarrow> tk_token r \<notin> Some ` rl_cancel ` relays (delayed_relay_fires t ready m))"
proof -
  have inv: "mgr_inv m" using assms(1) by (rule mgr_reachable_inv)
  have i: "i < length (mg_hosts m)" using mgr_task_maps [OF inv assms(2)] assms(3) by simp
  let ?r = "\<lparr>tk_id = mg_next_task m, tk_kind = RelayLoop session_id, tk_token = Some (mg_next_token m)\<rparr>"
  let ?m = "delayed_relay_fires t ready m"
  have id: "tk_id x < mg_next_task m" if "x \<in> set (mg_tasks m)" for x
    using mgr_task_ok [OF inv that] by (simp add: task_ok_def)
  have fires: "?m = abort (tk_id t) (start_or_replace_host_relay i p session_id port ready m)"
    by (simp add: delayed_relay_fires_def assms(3))
  have "?r \<in> set (live_tasks ?m)"
    using started_relay(1) [OF inv i] id [OF assms(2)]
    by (auto simp: fires live_task_iff in_abort)
  moreover have "?r \<notin> set (mg_tasks m)" using id by fastforce
  moreover have "?r \<in> set (live_tasks ((stop_hosting ^^ n) ?m))" if "mg_session m = None"
    using live_after_stops [of ?m n] calculation(1) started_relay(3) [OF inv i] that by (simp add: fires)
  moreover have "tk_token ?r \<notin> Some ` rl_cancel ` relays ?m" if "isl ready"
    using inv_relay_ok [OF mgr_invD [OF inv]] started_relay(2) [OF inv i that]
    by (fastforce simp: fires relay_ok_def)
  ultimately show ?thesis by (intro bexI [of _ ?r]) simp_all
qed

definition sample_client_env :: client_env where
  "sample_client_env = \<lparr>ce_bind = Inr (SockV4 0 0 0 0 4300), ce_public = Inl [Lit ''STUN timed out''],
     ce_local_ip = None, ce_local_ips = [], ce_endpoint = Inr (), ce_config = Inr ()\<rparr>"

definition announced_host :: manager where
  "announced_host =
     snd (connect_to_peer sample_client_env ''192.0.2.9:5000'' (Some ''bob'') (Some ''r'') sample_host)"

lemma show_sample_peer: "show_addr (SockV4 192 0 2 9 5000) = ''192.0.2.9:5000''"
  by (simp add: show_ipv4_def show_word_def show_nat.simps digit_def) code_simp

lemma trim_sample_peer: "trim ''192.0.2.9:5000'' = ''192.0.2.9:5000''"
  by code_simp

lemma parse_sample_peer: "parse_peer_addr ''192.0.2.9:5000'' = Inr (SockV4 192 0 2 9 5000)"
  using parse_show_v4 [of 192 0 2 9 5000, unfolded show_sample_peer]
  by (simp add: parse_peer_addr_def trim_sample_peer)

lemma announced_reachable: "mgr_reachable announced_host"
  unfolding announced_host_def by (rule mr_step [OF sample_host_reachable ms_connect])

abbreviation sample_peer :: string where
  "sample_peer \<equiv> show_addr (SockV4 192 0 2 9 5000)"

lemma sample_host_full:
  "mg_tasks sample_host =
     [\<lparr>tk_id = 0, tk_kind = E4mcLoop, tk_token = Some 0\<rparr>, \<lparr>tk_id = 1, tk_kind = AcceptLoop 0, tk_token = Some 1\<rparr>,
      \<lparr>tk_id = 2, tk_kind = LobbyLoop, tk_token = Some 1\<rparr>, \<lparr>tk_id = 3, tk_kind = LobbyEvents, tk_token = Some 1\<rparr>,
      \<lparr>tk_id = 4, tk_kind = UpnpTask, tk_token = None\<rparr>,
      \<lparr>tk_id = 5, tk_kind = HostConn 7 sample_peer 0, tk_token = Some 1\<rparr>]"
  "mg_cancelled sample_host = []" "mg_next_task sample_host = 6" "mg_next_token sample_host = 2"
  by (simp_all add: sample_host_def trim_room run_manager_defs host_accept_def
      cancel_host_relay_for_peer_def)

lemma announced_fields:
  "mg_session announced_host = mg_session sample_host"
  "mg_tasks announced_host = mg_tasks sample_host @
     [\<lparr>tk_id = 6, tk_kind = DelayedRelay 0 ''bob'' ''r'' 25565, tk_token = None\<rparr>,
      \<lparr>tk_id = 7, tk_kind = PunchTask 0 ''bob'', tk_token = None\<rparr>]"
  by (simp_all add: announced_host_def connect_to_peer_def parse_sample_peer punch_from_host_def
      sample_host_fields sample_host_full mgr_prim_defs Let_def)

lemma announced_hosts: "hm_relays (mg_hosts announced_host ! 0) = []"
  by (simp add: announced_host_def connect_to_peer_def parse_sample_peer punch_from_host_def
      sample_host_fields sample_host_full mgr_prim_defs Let_def)

lemma announced_relay_task:
  "\<lparr>tk_id = 6, tk_kind = DelayedRelay 0 ''bob'' ''r'' 25565, tk_token = None\<rparr>
     \<in> set (mg_tasks (stop_hosting announced_host))"
  using announced_fields(2) announced_hosts
  by (simp add: stop_hosting_def reset_some [OF announced_fields(1) [unfolded sample_host_fields]]
      reset_control_def Let_def sample_host_full mgr_prim_defs fold_close)

theorem delayed_relay_escapes_witness:
  "\<exists>r \<in> set (live_tasks ((stop_hosting ^^ 2) (delayed_relay_fires
       \<lparr>tk_id = 6, tk_kind = DelayedRelay 0 ''bob'' ''r'' 25565, tk_token = None\<rparr> (Inr ()) (stop_hosting announced_host)))).
     tk_kind r = RelayLoop ''r''"
proof -
  have r: "mgr_reachable (stop_hosting announced_host)"
    by (rule mr_step [OF announced_reachable ms_stop])
  have "mg_session (stop_hosting announced_host) = None"
    using mgr_reachable_inv [OF announced_reachable] by (simp add: stop_hosting_def inv_reset)
  with delayed_relay_escapes [OF r, of "\<lparr>tk_id = 6, tk_kind = DelayedRelay 0 ''bob'' ''r'' 25565, tk_token = None\<rparr>"
      0 "''bob''" "''r''" 25565 "Inr ()" 2]
  show ?thesis using announced_relay_task by auto
qed

section \<open>Committing outside a prepared session\<close>

text \<open>
  confirming a handshake when the session is not a prepared client is an error that
  takes the session apart: the tasks the session holds - a host's accept and lobby loops, a
  client's running flow - are aborted and forgotten, while the session, its token and the
  status stay as if it were running.
\<close>

theorem commit_breaks_other_sessions:
  assumes "mg_session m = Some rt" and "\<And>p. sr_control rt \<noteq> CPrepared p"
  shows "fst (commit_prepared_client_connect sid u m) = Inl [Lit ''the client endpoint is not prepared'']
    \<and> mg_session (snd (commit_prepared_client_connect sid u m)) = Some (rt\<lparr>sr_tasks := []\<rparr>)
    \<and> mg_status (snd (commit_prepared_client_connect sid u m)) = mg_status m
    \<and> mg_cancelled (snd (commit_prepared_client_connect sid u m)) = mg_cancelled m
    \<and> mg_tasks (snd (commit_prepared_client_connect sid u m)) =
        filter (\<lambda>t. tk_id t \<notin> set (sr_tasks rt)) (mg_tasks m)"
  using assms by (cases "sr_control rt")
    (auto simp: commit_prepared_client_connect_def Let_def fold_abort)

theorem commit_breaks_other_sessions_witness:
  "map tk_kind (live_tasks (snd (commit_prepared_client_connect None False sample_host))) =
     [E4mcLoop, LobbyEvents, UpnpTask, HostConn 7 (show_addr (SockV4 192 0 2 9 5000)) 0]"
proof -
  have "live_tasks (snd (commit_prepared_client_connect None False sample_host)) =
      filter (\<lambda>t. tk_id t \<notin> {1, 2}) (live_tasks sample_host)"
    using commit_breaks_other_sessions [OF sample_host_fields(1), of None False]
    by (auto simp: live_tasks_def conj_commute split: option.split intro!: filter_cong)
  then show ?thesis
    by (simp add: sample_host_def trim_room run_manager_defs host_accept_def
        cancel_host_relay_for_peer_def live_tasks_def)
qed

section \<open>Connections of a host\<close>

lemma upsert_shown:
  "distinct (peer_ids (ns_peers s)) \<Longrightarrow> shown_connected p (upsert_peer p a c g tr s) = c"
proof -
  assume d: "distinct (peer_ids (ns_peers s))"
  have "list_ex (\<lambda>q. pi_peer_id q = p \<and> pi_connected q) (update_first (\<lambda>q. pi_peer_id q = p)
      (\<lambda>q. q\<lparr>pi_addr := show_addr a, pi_connected := c, pi_ping_ms := g,
        pi_transport := (case tr of Some t \<Rightarrow> Some t | None \<Rightarrow> pi_transport q)\<rparr>) ps) = c"
    if "list_ex (\<lambda>q. pi_peer_id q = p) ps" "distinct (map pi_peer_id ps)" for ps
    using that by (induction ps) (auto simp: list_ex_iff image_iff)
  with d show ?thesis
    by (auto simp: shown_connected_def upsert_peer_def Let_def peer_ids_def)
      (auto simp: list_ex_iff)
qed

lemma shown_push_log [simp]: "shown_connected p (push_log l s) = shown_connected p s"
  by (simp add: shown_connected_def)

lemma peers_set_punching [simp]: "ns_peers (set_punching p s) = ns_peers s"
  by (simp add: set_punching_def)

text \<open>
  C13: what the accept loop does with a connection: it is known by the name that was announced
  for its address, or by the address; the name takes over the connection, the announcement
  is used up, the peer's relay, if any, is stopped and forgotten, the peer is shown as
  connected, and the task serving the connection runs under the session's token.
\<close>

theorem host_accept_spec:
  assumes "mgr_reachable m" and "t \<in> set (live_tasks m)"
    and "tk_kind t = AcceptLoop i" "tk_token t = Some tok"
    and "p = (case map_of (hm_expected (mg_hosts m ! i)) remote of Some n \<Rightarrow> n | None \<Rightarrow> show_addr remote)"
    and "distinct (peer_ids (ns_peers (mg_status m)))"
  shows "map_of (hm_live (mg_hosts (host_accept tok i k remote rtt m) ! i)) =
        (map_of (hm_live (mg_hosts m ! i)))(p \<mapsto> k)
    \<and> map_of (hm_expected (mg_hosts (host_accept tok i k remote rtt m) ! i)) =
        (map_of (hm_expected (mg_hosts m ! i)))(remote := None)
    \<and> map_of (hm_relays (mg_hosts (host_accept tok i k remote rtt m) ! i)) =
        (map_of (hm_relays (mg_hosts m ! i)))(p := None)
    \<and> (\<forall>r. map_of (hm_relays (mg_hosts m ! i)) p = Some r \<longrightarrow>
         rl_cancel r \<in> set (mg_cancelled (host_accept tok i k remote rtt m)))
    \<and> shown_connected p (mg_status (host_accept tok i k remote rtt m))
    \<and> (\<exists>s \<in> set (live_tasks (host_accept tok i k remote rtt m)).
         tk_kind s = HostConn k p i \<and> tk_token s = map_option sr_cancel (mg_session m))"
proof -
  have inv: "mgr_inv m" using assms(1) by (rule mgr_reachable_inv)
  have i: "i < length (mg_hosts m)"
    using mgr_task_maps [OF inv, of t i] assms(2,3) by (simp add: live_task_iff)
  have tok: "current m = Some tok" "tok \<notin> set (mg_cancelled m)"
    using mgr_task_ok [OF inv] assms(2-4) by (force simp: task_ok_def live_task_iff)+
  have r: "rl_cancel r \<noteq> tok" if "map_of (hm_relays (mg_hosts m ! i)) p = Some r" for r
    using mgr_relays_at [OF inv i that] tok by (auto simp: relay_ok_def)
  have shown: "shown_connected p (upsert_peer p a c g tr (mg_status m)) = c"
    "shown_connected p (upsert_peer p a c g tr (push_log l (mg_status m))) = c" for a c g tr l
    using assms(6) by (simp_all add: upsert_shown)
  note defs = host_accept_def assms(5) [symmetric] cancel_host_relay_for_peer_def Let_def on_host_def
    update_conv' AList.delete_conv' stop_relay_def spawn_def abort_def on_status_def
  let ?s = "\<lparr>tk_id = mg_next_task m, tk_kind = HostConn k p i, tk_token = Some tok\<rparr>"
  have "?s \<in> set (live_tasks (host_accept tok i k remote rtt m))"
    using i r tok by (auto simp: defs live_task_iff split: option.split)
  then have "\<exists>s \<in> set (live_tasks (host_accept tok i k remote rtt m)).
      tk_kind s = HostConn k p i \<and> tk_token s = map_option sr_cancel (mg_session m)"
    using tok(1) unfolding current_def by (intro bexI [of _ ?s]) auto
  then show ?thesis
    using i shown by (cases "map_of (hm_relays (mg_hosts m ! i)) p") (simp_all add: defs fun_upd_idem)
qed

lemma sample_peers: "distinct (peer_ids (ns_peers (mg_status sample_host)))"
  by (simp add: sample_host_def trim_room run_manager_defs host_accept_def cancel_host_relay_for_peer_def
      peer_ids_def push_log_def upsert_peer_def host_active_status_def default_status_def)

theorem host_accept_spec_witness:
  "map_of (hm_live (mg_hosts (host_accept 1 0 8 (SockV4 192 0 2 9 5000) 30 sample_host) ! 0)) sample_peer = Some 8"
proof -
  have "\<lparr>tk_id = 1, tk_kind = AcceptLoop 0, tk_token = Some 1\<rparr> \<in> set (live_tasks sample_host)"
    by (simp add: live_task_iff sample_host_full)
  from host_accept_spec [OF sample_host_reachable this _ _ refl sample_peers, of 0 1 8 "SockV4 192 0 2 9 5000" 30]
  show ?thesis by (simp add: sample_host_fields)
qed

lemma remove_first_only:
  "distinct (map f xs) \<Longrightarrow> (\<And>x. x \<in> set xs \<Longrightarrow> f x = k \<Longrightarrow> q x) \<Longrightarrow>
     k \<notin> f ` set (remove_first (\<lambda>x. f x = k \<and> q x) xs)" for f :: "'a \<Rightarrow> string"
proof (induction xs)
  case (Cons x xs)
  then show ?case by (cases "f x = k") auto
qed simp

lemma timed_out_gone:
  assumes "distinct (peer_ids (ns_peers s))" and "\<not> shown_connected p s"
  shows "p \<notin> set (peer_ids (ns_peers (peer_timed_out p s)))"
proof -
  have off: "\<not> pi_connected q" if "q \<in> set (ns_peers s)" "pi_peer_id q = p" for q
    using assms(2) that by (auto simp: shown_connected_def list_ex_iff)
  show ?thesis
    using off remove_first_only [of pi_peer_id "ns_peers s" p "\<lambda>q. \<not> pi_connected q"] assms(1)
    by (auto simp: peer_timed_out_def peer_ids_def Let_def list_ex_iff image_iff)
qed

text \<open>
  a peer that is connected and announces itself again is struck from the status although
  nothing happens to its connection: the announcement shows it as not connected, and when
  the punching task ends it is taken off the list, while its connection is still in use.
\<close>

theorem reannounced_peer_vanishes:
  assumes "mg_session m = Some rt" "sr_control rt = CHost host" "hc_maps host < length (mg_hosts m)"
    and "map_of (hm_live (mg_hosts m ! hc_maps host)) p = Some c"
    and "distinct (peer_ids (ns_peers (mg_status m)))"
    and "punch_from_host a (Some p) sid m = (True, m')"
  shows "\<not> shown_connected p (mg_status m')
    \<and> p \<notin> set (peer_ids (ns_peers (mg_status (punch_task_end j (hc_maps host) p m'))))
    \<and> map_of (hm_live (mg_hosts (punch_task_end j (hc_maps host) p m') ! hc_maps host)) p = Some c
    \<and> mg_closed (punch_task_end j (hc_maps host) p m') = mg_closed m"
proof -
  let ?s = "upsert_peer p a False None (Some ''direct-quic'') (set_punching p (mg_status m))"
  have d: "distinct (peer_ids (ns_peers ?s))" using assms(5) by (simp add: distinct_upsert)
  have off: "\<not> shown_connected p ?s" using assms(5) by (simp add: upsert_shown)
  have m': "m' = snd (punch_from_host a (Some p) sid m)" using assms(6) by simp
  have peers: "ns_peers (mg_status m') = ns_peers ?s"
    by (auto simp: m' punch_from_host_def assms(1,2) Let_def split: option.split)
  then have s: "\<not> shown_connected p (mg_status m')" "distinct (peer_ids (ns_peers (mg_status m')))"
    using off d by (simp_all add: shown_connected_def)
  have live: "map_of (hm_live (mg_hosts m' ! hc_maps host)) p = Some c" "length (mg_hosts m') = length (mg_hosts m)"
    "mg_closed m' = mg_closed m"
    using assms(3,4) by (auto simp: m' punch_from_host_def assms(1,2) Let_def on_host_same split: option.split)
  show ?thesis
    using s timed_out_gone [OF s(2,1)] live assms(3)
    by (simp add: punch_task_end_def Let_def on_host_same)
qed

theorem reannounced_peer_vanishes_witness:
  "sample_peer \<notin> set (peer_ids (ns_peers (mg_status
     (punch_task_end 7 0 sample_peer (snd (punch_from_host (SockV4 192 0 2 9 5000) (Some sample_peer) None sample_host))))))"
proof -
  obtain m' where m': "punch_from_host (SockV4 192 0 2 9 5000) (Some sample_peer) None sample_host = (True, m')"
    by (simp add: punch_from_host_def sample_host_fields Let_def)
  show ?thesis
    using reannounced_peer_vanishes [OF sample_host_fields(1) _ _ _ sample_peers m', of _ 7 7] m'
    by (simp add: sample_host_fields)
qed

text \<open>
  the connections of a host are known by the peer alone. When a peer connects anew before
  the end of its old connection is noticed, that end forgets the new connection: the peer is
  shown as gone, can no longer be kicked, and its connection, in use and not closed, stays
  open when the session is stopped.
\<close>

theorem old_connection_forgets_new:
  assumes "mg_session m = Some rt" "sr_control rt = CHost host" "hc_maps host < length (mg_hosts m)"
    and "tk_kind t = HostConn old p (hc_maps host)"
    and "map_of (hm_live (mg_hosts m ! hc_maps host)) p = Some new" "new \<noteq> old"
    and "\<And>q c. (q, c) \<in> set (hm_live (mg_hosts m ! hc_maps host)) \<Longrightarrow> c = new \<Longrightarrow> q = p"
    and "new \<notin> fst ` set (mg_closed m)" "distinct (peer_ids (ns_peers (mg_status m)))"
  shows "(let m' = host_connection_end t ConnApplicationClosed m in
      \<not> shown_connected p (mg_status m') \<and> isl (fst (kick_peer p m'))
      \<and> new \<notin> fst ` set (mg_closed (stop_hosting m')))"
proof -
  let ?m = "host_connection_end t ConnApplicationClosed m"
  have m: "mg_session ?m = Some rt" "mg_status ?m = mark_peer_disconnected p (mg_status m)"
    "mg_closed ?m = mg_closed m"
    "hm_live (mg_hosts ?m ! hc_maps host) = AList.delete p (hm_live (mg_hosts m ! hc_maps host))"
    using assms(1,3,4) by (simp_all add: host_connection_end_def Let_def on_host_same)
  have "new \<notin> snd ` set (AList.delete p (hm_live (mg_hosts m ! hc_maps host)))"
    using assms(7) by (auto simp: AList.delete_eq)
  moreover have "mg_closed (stop_hosting ?m) = mg_closed m @
      map (\<lambda>(_, c). (c, 0, ''session-reset'')) (AList.delete p (hm_live (mg_hosts m ! hc_maps host)))"
    using reset_fields(3) [OF m(1)] m(3,4) assms(2) by (simp add: stop_hosting_def)
  ultimately have "new \<notin> fst ` set (mg_closed (stop_hosting ?m))"
    using assms(8) by (force simp: image_iff)
  moreover have "isl (fst (kick_peer p ?m))"
    using m(1,4) assms(2) by (simp add: kick_peer_def AList.delete_conv')
  ultimately show ?thesis
    using m(2) disconnected_not_shown [OF assms(9)] by (simp add: Let_def)
qed

theorem old_connection_forgets_new_witness:
  "8 \<notin> fst ` set (mg_closed (stop_hosting (host_connection_end
     \<lparr>tk_id = 5, tk_kind = HostConn 7 sample_peer 0, tk_token = Some 1\<rparr> ConnApplicationClosed
     (host_accept 1 0 8 (SockV4 192 0 2 9 5000) 30 sample_host))))"
proof -
  define m where "m = host_accept 1 0 8 (SockV4 192 0 2 9 5000) 30 sample_host"
  have m: "mg_session m = mg_session sample_host" "hm_live (mg_hosts m ! 0) = [(sample_peer, 8)]"
    "length (mg_hosts m) = 1" "mg_closed m = []"
    by (simp_all add: m_def host_accept_def cancel_host_relay_for_peer_def sample_host_fields on_host_def Let_def
        on_status_def spawn_def)
  have peers: "distinct (peer_ids (ns_peers (mg_status m)))"
    using sample_peers
    by (simp add: m_def host_accept_def cancel_host_relay_for_peer_def sample_host_fields on_host_def Let_def
        on_status_def spawn_def distinct_upsert)
  let ?t = "\<lparr>tk_id = 5, tk_kind = HostConn 7 sample_peer 0, tk_token = Some 1\<rparr>"
  have "(let m' = host_connection_end ?t ConnApplicationClosed m in
      \<not> shown_connected sample_peer (mg_status m') \<and> isl (fst (kick_peer sample_peer m'))
      \<and> 8 \<notin> fst ` set (mg_closed (stop_hosting m')))"
    by (rule old_connection_forgets_new [OF m(1) [unfolded sample_host_fields], where old = 7 and
        host = "\<lparr>hc_room_name = ''room'', hc_peer_id = ''h'', hc_local_game_port = 25565, hc_maps = 0,
          hc_e4mc = Some (0, 0), hc_upnp = False, hc_force_direct = False\<rparr>"])
      (use peers in \<open>simp_all add: m\<close>)
  then show ?thesis
    unfolding m_def [symmetric] Let_def by blast
qed

end
