(* ===== verification/Quic_Stream.thy ===== *)
theory Quic_Stream
  imports Net_Addr
begin

text \<open>
  The bridges of \<open>proxy.rs\<close> between one TCP connection and one QUIC stream: the preamble the
  client writes and the host checks, the two copies that \<open>try_join!\<close> runs together, and how
  they end. The order in which the two copies make progress is the argument \<open>schedule\<close>.
\<close>

definition STREAM_MAGIC :: bytes where
  "STREAM_MAGIC = as_bytes ''MCP2P01''"

section \<open>One direction\<close>

text \<open>What a reader gives, in order; past the list it waits.\<close>

datatype read_event = Chunk bytes | ReadEnd | ReadFailed anyhow

fun received :: "read_event list \<Rightarrow> bytes" where
  "received (Chunk b # es) = b @ received es"
| "received _ = []"

text \<open>
  A reader, a writer and the closing of the writer (\<open>finish\<close> or \<open>shutdown\<close>). \<open>sd_writes\<close> are the
  outcomes of the next writes, past the list they succeed; what a failing write got out is
  left out.
\<close>

record side =
  sd_reads :: "read_event list"
  sd_writes :: "anyhow option list"
  sd_close :: "anyhow + unit"
  sd_out :: bytes
  sd_closed :: bool
  sd_result :: "(anyhow + unit) option"

definition new_side :: "read_event list \<Rightarrow> anyhow option list \<Rightarrow> anyhow + unit \<Rightarrow> bytes \<Rightarrow> side" where
  "new_side reads writes close out =
     \<lparr>sd_reads = reads, sd_writes = writes, sd_close = close, sd_out = out, sd_closed = False,
      sd_result = None\<rparr>"

definition side_step :: "side \<Rightarrow> side" where
  "side_step s =
     (if sd_result s \<noteq> None then s
      else case sd_reads s of
          [] \<Rightarrow> s
        | Chunk b # es \<Rightarrow>
            (case sd_writes s of
               Some e # ws \<Rightarrow> s\<lparr>sd_reads := es, sd_writes := ws, sd_result := Some (Inl e)\<rparr>
             | ws \<Rightarrow> s\<lparr>sd_reads := es, sd_writes := tl ws, sd_out := sd_out s @ b\<rparr>)
        | ReadEnd # es \<Rightarrow>
            (case sd_close s of
               Inr _ \<Rightarrow> s\<lparr>sd_closed := True, sd_result := Some (Inr ())\<rparr>
             | Inl e \<Rightarrow> s\<lparr>sd_result := Some (Inl e)\<rparr>)
        | ReadFailed e # es \<Rightarrow> s\<lparr>sd_result := Some (Inl e)\<rparr>)"

section \<open>Both directions\<close>

text \<open>\<open>try_join!\<close>: ready with the first error, or once both are done; \<open>None\<close> is still running.\<close>

definition joined :: "side \<Rightarrow> side \<Rightarrow> (anyhow + unit) option" where
  "joined u d =
     (case (sd_result u, sd_result d) of
        (Some (Inl e), _) \<Rightarrow> Some (Inl e)
      | (_, Some (Inl e)) \<Rightarrow> Some (Inl e)
      | (Some (Inr _), Some (Inr _)) \<Rightarrow> Some (Inr ())
      | _ \<Rightarrow> None)"

fun try_join :: "bool list \<Rightarrow> side \<Rightarrow> side \<Rightarrow> side \<times> side" where
  "try_join [] u d = (u, d)"
| "try_join (up # schedule) u d =
     (if joined u d \<noteq> None then (u, d)
      else if up then try_join schedule (side_step u) d
      else try_join schedule u (side_step d))"

record bridge =
  br_result :: "(anyhow + unit) option"
  br_connected :: "string option"
  br_up :: side
  br_down :: side

definition idle_side :: side where
  "idle_side = new_side [] [] (Inr ()) []"

definition run_bridge :: "string option \<Rightarrow> bool list \<Rightarrow> side \<Rightarrow> side \<Rightarrow> bridge" where
  "run_bridge connected schedule u d =
     (let (u, d) = try_join schedule u d
      in \<lparr>br_result = joined u d, br_connected = connected, br_up = u, br_down = d\<rparr>)"

definition refused_bridge :: "(anyhow + unit) option \<Rightarrow> bridge" where
  "refused_bridge r =
     \<lparr>br_result = r, br_connected = None, br_up = idle_side, br_down = idle_side\<rparr>"

text \<open>
  The client: \<open>up\<close> copies the game's socket to the stream, \<open>down\<close> the stream to the socket.
\<close>

definition bridge_client_tcp_to_quic ::
  "anyhow + unit \<Rightarrow> bool list \<Rightarrow> side \<Rightarrow> side \<Rightarrow> bridge" where
  "bridge_client_tcp_to_quic magic_written schedule up down =
     (case magic_written of
        Inl e \<Rightarrow> refused_bridge (Some (Inl e))
      | Inr _ \<Rightarrow> run_bridge None schedule (up\<lparr>sd_out := sd_out up @ STREAM_MAGIC\<rparr>) down)"

text \<open>\<open>read_exact\<close>: the bytes and what is left to read; \<open>None\<close> while it waits.\<close>

fun read_exact :: "nat \<Rightarrow> read_event list \<Rightarrow> (anyhow + bytes \<times> read_event list) option" where
  "read_exact n es =
     (if n = 0 then Some (Inr ([], es))
      else case es of
          [] \<Rightarrow> None
        | Chunk b # es \<Rightarrow>
            if n < length b then Some (Inr (take n b, Chunk (drop n b) # es))
            else map_option (map_sum id (map_prod (append b) id)) (read_exact (n - length b) es)
        | ReadEnd # _ \<Rightarrow> Some (Inl [''stream finished early''])
        | ReadFailed e # _ \<Rightarrow> Some (Inl e))"

text \<open>
  The host: \<open>down\<close> copies the stream to the local server once the preamble is read, \<open>up\<close> the
  server's answers to the stream.
\<close>

definition bridge_quic_to_local_minecraft ::
  "(string \<Rightarrow> anyhow + unit) \<Rightarrow> u16 \<Rightarrow> bool list \<Rightarrow> side \<Rightarrow> side \<Rightarrow> bridge" where
  "bridge_quic_to_local_minecraft connect local_port schedule up down =
     (case read_exact (length STREAM_MAGIC) (sd_reads down) of
        None \<Rightarrow> refused_bridge None
      | Some (Inl e) \<Rightarrow> refused_bridge (Some (Inl e))
      | Some (Inr (header, rest)) \<Rightarrow>
          if header \<noteq> STREAM_MAGIC then refused_bridge (Some (Inl [''invalid QUIC stream preamble'']))
          else
            let target_addr = minecraft_local_addr local_port
            in case connect target_addr of
                 Inl e \<Rightarrow> refused_bridge (Some (Inl e))
               | Inr _ \<Rightarrow> run_bridge (Some target_addr) schedule up (down\<lparr>sd_reads := rest\<rparr>))"

section \<open>What a direction carries\<close>

text \<open>
  \<open>whole\<close> is what the direction carries: what was written is a part of it from its start, the
  rest is still to be read, and a direction that is done has written all of it.
\<close>

definition side_inv :: "bytes \<Rightarrow> side \<Rightarrow> bool" where
  "side_inv whole s \<longleftrightarrow> (\<exists>rest. whole = sd_out s @ rest
     \<and> (sd_result s = None \<longrightarrow> rest = received (sd_reads s))
     \<and> (sd_result s = Some (Inr ()) \<longrightarrow> rest = [] \<and> sd_closed s))"

lemma side_inv_new: "side_inv (out @ received reads) (new_side reads writes close out)"
  by (simp add: side_inv_def new_side_def)

lemma new_side_simps [simp]:
  "sd_out (new_side r w c out) = out" "sd_reads (new_side r w c out) = r"
  "(new_side r w c out)\<lparr>sd_reads := r'\<rparr> = new_side r' w c out"
  by (simp_all add: new_side_def)

lemma side_inv_magic:
  "side_inv (out @ m @ received reads) ((new_side reads writes close out)\<lparr>sd_out := out @ m\<rparr>)"
  by (simp add: side_inv_def new_side_def)

lemma side_inv_step: "side_inv whole s \<Longrightarrow> side_inv whole (side_step s)"
  by (auto simp: side_inv_def side_step_def
      split: list.splits read_event.splits sum.splits option.splits)

lemma try_join_inv:
  "side_inv up u \<Longrightarrow> side_inv down d \<Longrightarrow> try_join schedule u d = (u', d') \<Longrightarrow>
     side_inv up u' \<and> side_inv down d'"
  by (induction schedule u d rule: try_join.induct) (auto simp: side_inv_step split: if_splits)

lemma side_inv_part: "side_inv whole s \<Longrightarrow> \<exists>rest. whole = sd_out s @ rest"
  by (auto simp: side_inv_def)

lemma side_inv_done: "side_inv whole s \<Longrightarrow> sd_result s = Some (Inr ()) \<Longrightarrow> sd_out s = whole \<and> sd_closed s"
  by (auto simp: side_inv_def)

lemma joined_Ok: "joined u d = Some (Inr ()) \<longleftrightarrow> sd_result u = Some (Inr ()) \<and> sd_result d = Some (Inr ())"
  by (auto simp: joined_def split: option.splits sum.splits)

declare read_exact.simps [simp del]

lemma read_exact_received:
  "read_exact n es = Some (Inr (header, rest)) \<Longrightarrow> length header = n \<and> received es = header @ received rest"
proof (induction es arbitrary: n header)
  case Nil
  then show ?case by (simp add: read_exact.simps split: if_splits)
next
  case (Cons e es)
  show ?case
  proof (cases e)
    case (Chunk b)
    note step = read_exact.simps [of n "Chunk b # es"]
    show ?thesis
    proof (cases "n = 0 \<or> n < length b")
      case True
      then show ?thesis using Cons.prems by (auto simp: Chunk step split: if_splits)
    next
      case False
      then obtain h where "header = b @ h" "read_exact (n - length b) es = Some (Inr (h, rest))"
        using Cons.prems
        by (cases "read_exact (n - length b) es"; cases "the (read_exact (n - length b) es)") (auto simp: Chunk step)
      then show ?thesis using Cons.IH [of "n - length b" h] False by (simp add: Chunk)
    qed
  qed (use Cons.prems in \<open>auto simp: read_exact.simps split: if_splits\<close>)
qed

section \<open>Properties\<close>

lemma run_bridge_inv:
  assumes "side_inv up u" and "side_inv down d"
  shows "side_inv up (br_up (run_bridge c schedule u d)) \<and> side_inv down (br_down (run_bridge c schedule u d))
    \<and> br_result (run_bridge c schedule u d)
      = joined (br_up (run_bridge c schedule u d)) (br_down (run_bridge c schedule u d))"
  using try_join_inv [OF assms] by (auto simp: run_bridge_def split: prod.split)

lemma client_bridge_inv:
  assumes "bridge_client_tcp_to_quic m schedule (new_side tcp ws fin []) (new_side quic qs shut []) = c"
    and "m = Inr ()"
  shows "side_inv (STREAM_MAGIC @ received tcp) (br_up c)" "side_inv (received quic) (br_down c)"
    "br_result c = joined (br_up c) (br_down c)"
  using run_bridge_inv [OF side_inv_magic [of "[]" STREAM_MAGIC tcp ws fin] side_inv_new [of "[]" quic qs shut],
      of None schedule] assms
  by (auto simp: bridge_client_tcp_to_quic_def)

lemma host_bridge_inv:
  assumes "bridge_quic_to_local_minecraft connect port schedule (new_side tcp ws fin []) (new_side quic qs shut []) = h"
    and "br_connected h \<noteq> None"
  shows "side_inv (received tcp) (br_up h)"
    "\<exists>data. received quic = STREAM_MAGIC @ data \<and> side_inv data (br_down h)"
    "br_result h = joined (br_up h) (br_down h)"
proof -
  from assms obtain rest where r: "read_exact (length STREAM_MAGIC) quic = Some (Inr (STREAM_MAGIC, rest))"
    and h: "h = run_bridge (Some (minecraft_local_addr port)) schedule (new_side tcp ws fin []) (new_side rest qs shut [])"
    by (auto simp: bridge_quic_to_local_minecraft_def refused_bridge_def new_side_def Let_def
        split: option.splits sum.splits if_splits)
  note inv = run_bridge_inv [OF side_inv_new [of "[]" tcp ws fin] side_inv_new [of "[]" rest qs shut],
      of "Some (minecraft_local_addr port)" schedule, folded h]
  show "side_inv (received tcp) (br_up h)" "br_result h = joined (br_up h) (br_down h)"
    using inv by simp_all
  show "\<exists>data. received quic = STREAM_MAGIC @ data \<and> side_inv data (br_down h)"
    using inv read_exact_received [OF r] by auto
qed

text \<open>
  C5: over a direct connection the game and the server see each other's bytes and nothing else.
  Whatever the chunks and the progress of the two bridges, what the local server has been
  sent is a beginning of what the game wrote and what the game has been sent a beginning of
  what the server wrote, if each bridge reads a beginning of what the other one wrote to the
  stream; and once both bridges have ended without error and all was read, it is all of it
  and both sockets are shut down.
\<close>

theorem direct_stream_transparent:
  assumes client: "bridge_client_tcp_to_quic (Inr ()) s1 (new_side game ws1 fin1 []) (new_side from_host qs1 shut1 []) = c"
    and host: "bridge_quic_to_local_minecraft connect port s2 (new_side server ws2 fin2 []) (new_side from_client qs2 shut2 []) = h"
    and accepted: "br_connected h \<noteq> None"
    and up: "sd_out (br_up c) = received from_client @ r1"
    and down: "sd_out (br_up h) = received from_host @ r2"
  shows "(\<exists>rest. received game = sd_out (br_down h) @ rest) \<and> (\<exists>rest. received server = sd_out (br_down c) @ rest)
    \<and> (br_result c = Some (Inr ()) \<and> br_result h = Some (Inr ()) \<and> r1 = [] \<and> r2 = [] \<longrightarrow>
        sd_out (br_down h) = received game \<and> sd_out (br_down c) = received server
        \<and> sd_closed (br_down h) \<and> sd_closed (br_down c))"
proof -
  note c = client_bridge_inv [OF client refl] and h = host_bridge_inv [OF host accepted]
  obtain data where d: "received from_client = STREAM_MAGIC @ data" "side_inv data (br_down h)"
    using h(2) by blast
  obtain g where g: "received game = data @ r1 @ g"
    using side_inv_part [OF c(1)] up d(1) by auto
  obtain sv where sv: "received server = received from_host @ r2 @ sv"
    using side_inv_part [OF h(1)] down by auto
  show ?thesis
    using side_inv_part [OF d(2)] side_inv_part [OF c(2)] side_inv_done [OF c(1)] side_inv_done [OF c(2)]
      side_inv_done [OF h(1)] side_inv_done [OF d(2)] c(3) h(3) up down d(1) g sv
    by (auto simp: joined_Ok)
qed

text \<open>
  C17: nothing but streams of this program reaches the local server. A stream whose first seven
  bytes are not the preamble, however it is cut into chunks, or that ends before them, never
  leads to a connection to the server and not a byte is passed on in either direction.
\<close>

theorem preamble_guards_server:
  assumes "take 7 (received (sd_reads down)) \<noteq> STREAM_MAGIC"
  shows "\<exists>r. bridge_quic_to_local_minecraft connect port schedule up down = refused_bridge r \<and> r \<noteq> Some (Inr ())"
proof -
  have l: "length STREAM_MAGIC = 7" by (simp add: STREAM_MAGIC_def as_bytes_def)
  have "header \<noteq> STREAM_MAGIC" if "read_exact 7 (sd_reads down) = Some (Inr (header, rest))" for header rest
    using read_exact_received [OF that] assms by auto
  then show ?thesis
    by (auto simp: bridge_quic_to_local_minecraft_def l split: option.split sum.split)
qed

lemma sample_magic: "STREAM_MAGIC = [77, 67, 80, 50, 80, 48, 49]"
  by (simp add: STREAM_MAGIC_def as_bytes_def)

theorem preamble_guards_server_witness:
  "br_connected (bridge_quic_to_local_minecraft (\<lambda>_. Inr ()) 25565 [True, False]
     (new_side [] [] (Inr ()) []) (new_side [Chunk [77, 67], Chunk [80, 50, 80, 48, 50, 1]] [] (Inr ()) [])) = None"
proof -
  let ?down = "new_side [Chunk [77, 67], Chunk [80, 50, 80, 48, 50, 1]] [] (Inr ()) []"
  have "take 7 (received (sd_reads ?down)) \<noteq> STREAM_MAGIC" by (simp add: sample_magic)
  from preamble_guards_server [OF this, of "\<lambda>_. Inr ()" 25565 "[True, False]" "new_side [] [] (Inr ()) []"]
  show ?thesis by (auto simp: refused_bridge_def)
qed

theorem direct_stream_transparent_witness:
  "sd_out (br_down (bridge_quic_to_local_minecraft (\<lambda>_. Inr ()) 25565 [False, True, False, True, False]
     (new_side [Chunk [9], ReadEnd] [] (Inr ()) [])
     (new_side [Chunk [77, 67, 80], Chunk [50, 80, 48, 49, 1, 2], Chunk [3], ReadEnd] [] (Inr ()) []))) = [1, 2, 3]"
proof -
  let ?c = "bridge_client_tcp_to_quic (Inr ()) [True, True, True, False, False]
    (new_side [Chunk [1, 2], Chunk [3], ReadEnd] [] (Inr ()) []) (new_side [Chunk [9], ReadEnd] [] (Inr ()) [])"
  let ?h = "bridge_quic_to_local_minecraft (\<lambda>_. Inr ()) 25565 [False, True, False, True, False]
     (new_side [Chunk [9], ReadEnd] [] (Inr ()) [])
     (new_side [Chunk [77, 67, 80], Chunk [50, 80, 48, 49, 1, 2], Chunk [3], ReadEnd] [] (Inr ()) [])"
  have c: "br_result ?c = Some (Inr ())" "sd_out (br_up ?c) = [77, 67, 80, 50, 80, 48, 49, 1, 2, 3]"
    by (simp_all add: bridge_client_tcp_to_quic_def run_bridge_def joined_def side_step_def new_side_def sample_magic)
  have h: "br_result ?h = Some (Inr ())" "sd_out (br_up ?h) = [9]" "br_connected ?h \<noteq> None"
    by (simp_all add: bridge_quic_to_local_minecraft_def run_bridge_def joined_def side_step_def new_side_def
        sample_magic read_exact.simps)
  show ?thesis
    using direct_stream_transparent [OF refl refl h(3), of "[True, True, True, False, False]"
        "[Chunk [1, 2], Chunk [3], ReadEnd]" "[]" "Inr ()" "[Chunk [9], ReadEnd]" "[]" "Inr ()" "[]" "[]"] c h by simp
qed

end
