(* ===== verification/Manager_Tasks.thy ===== *)
theory Manager_Tasks
  imports Manager_Ops Manager_Flow Quic_Stream
begin

text \<open>
  The loops of the tasks \<open>manager.rs\<close> spawns - accepting connections on the host, measuring
  the round-trip time, keeping the e4mc fallback alive - as functions of the events they see;
  the stream of one game connection; the shared UDP
  socket with its firewall rule; and the e4mc runtime of this build (\<open>e4mc.rs\<close>).
\<close>

section \<open>Host: accepting connections\<close>

datatype accept_result =
    HaConnection conn sock_addr u64 \<comment> \<open>with its remote address and round-trip time\<close>
  | HaFailed error_chain
  | HaEndpointClosed
  | HaCancelled

fun host_accept_loop :: "token \<Rightarrow> nat \<Rightarrow> accept_result list \<Rightarrow> manager \<Rightarrow> manager" where
  "host_accept_loop tok maps [] m = m"
| "host_accept_loop tok maps (HaConnection c remote rtt # es) m =
     host_accept_loop tok maps es (host_accept tok maps c remote rtt m)"
| "host_accept_loop tok maps (HaFailed e # es) m =
     host_accept_loop tok maps es (host_accept_failed tok e m)"
| "host_accept_loop tok maps (HaEndpointClosed # es) m = m"
| "host_accept_loop tok maps (HaCancelled # es) m = m"

text \<open>The streams of one connection: how many bridges are started, and why the loop ends.\<close>

datatype stream_event = HcStream | HcApplicationClosed | HcFailed error_chain | HcCancelled

fun host_connection_loop :: "stream_event list \<Rightarrow> nat \<times> conn_end option" where
  "host_connection_loop [] = (0, None)"
| "host_connection_loop (HcStream # es) = map_prod Suc id (host_connection_loop es)"
| "host_connection_loop (HcApplicationClosed # es) = (0, Some ConnApplicationClosed)"
| "host_connection_loop (HcFailed e # es) = (0, Some (ConnFailed e))"
| "host_connection_loop (HcCancelled # es) = (0, Some ConnCancelled)"

section \<open>Client: the local proxy\<close>

text \<open>
  One game connection: a stream is opened in at most three attempts, then the bridge runs.
\<close>

definition handle_client_proxy_connection ::
  "open_attempt list \<Rightarrow> (nat \<Rightarrow> error_chain + unit) \<Rightarrow> error_chain + unit" where
  "handle_client_proxy_connection attempts bridge = and_then (open_client_stream attempts) bridge"

section \<open>The round-trip time\<close>

text \<open>One tick per second: the time measured, and whether the connection has a close reason.\<close>

datatype ping_event = PgTick u64 bool | PgCancelled

fun ping_loop :: "string \<Rightarrow> ping_event list \<Rightarrow> network_status \<Rightarrow> network_status" where
  "ping_loop peer_id [] s = s"
| "ping_loop peer_id (PgTick rtt closed # es) s =
     (let s = update_peer_ping peer_id rtt s
      in if closed then s else ping_loop peer_id es s)"
| "ping_loop peer_id (PgCancelled # es) s = s"

section \<open>The e4mc runtime of this build\<close>

definition e4mc_enabled_by_default :: bool where
  "e4mc_enabled_by_default = False"

definition e4mc_start_host_runtime :: "error_chain + string" where
  "e4mc_start_host_runtime = Inl [Lit ''e4mc disabled'']"

definition e4mc_runtime_wait :: "error_chain + unit \<Rightarrow> error_chain + unit" where
  "e4mc_runtime_wait task = Inr ()"

text \<open>
  The writes of the loop to the status. Per round: is the token cancelled before it, and after
  the start; the loop sleeps five seconds between two rounds.
\<close>

fun e4mc_loop :: "u16 \<Rightarrow> (bool \<times> bool) list \<Rightarrow> status_op list" where
  "e4mc_loop port [] = []"
| "e4mc_loop port ((before, after) # rounds) =
     (if before then []
      else e4mc_round_writes \<lparr>er_start = e4mc_start_host_runtime, er_verification = [],
                     er_wait = e4mc_runtime_wait (Inr ()), er_cancelled = after\<rparr> port
           @ (if after then [] else e4mc_loop port rounds))"

section \<open>The shared UDP socket\<close>

definition firewall_rule_name :: "u16 \<Rightarrow> string" where
  "firewall_rule_name port = ''Minecraft P2P QUIC UDP '' @ show_word port"

definition firewall_delete_args :: "u16 \<Rightarrow> string list" where
  "firewall_delete_args port =
     [''advfirewall'', ''firewall'', ''delete'', ''rule'', ''name='' @ firewall_rule_name port]"

definition firewall_add_args :: "u16 \<Rightarrow> string list" where
  "firewall_add_args port =
     [''advfirewall'', ''firewall'', ''add'', ''rule'', ''name='' @ firewall_rule_name port, ''dir=in'',
      ''action=allow'', ''protocol=UDP'', ''localport='' @ show_word port]"

text \<open>The calls of \<open>netsh\<close> and the result; \<open>run\<close> tells whether \<open>netsh\<close> could be run and its success.\<close>

definition ensure_p2p_firewall_rule ::
  "bool \<Rightarrow> (string list \<Rightarrow> error_chain + bool) \<Rightarrow> u16 \<Rightarrow> string list list \<times> (error_chain + unit)" where
  "ensure_p2p_firewall_rule windows run port =
     (if windows then
        ([firewall_delete_args port, firewall_add_args port],
         case run (firewall_add_args port) of
           Inl e \<Rightarrow> Inl (Lit ''failed to invoke netsh for QUIC firewall rule'' # e)
         | Inr success \<Rightarrow> Inr ())
      else ([], Inr ()))"

definition bind_shared_udp_socket ::
  "bool \<Rightarrow> (string list \<Rightarrow> error_chain + bool) \<Rightarrow> error_chain + sock_addr \<Rightarrow> error_chain + unit \<Rightarrow>
     string list list \<times> (error_chain + sock_addr)" where
  "bind_shared_udp_socket windows run bound cloned =
     (case bound of
        Inl e \<Rightarrow> ([], Inl e)
      | Inr addr \<Rightarrow>
          (fst (ensure_p2p_firewall_rule windows run (sa_port addr)),
           case cloned of Inl e \<Rightarrow> Inl e | Inr _ \<Rightarrow> Inr addr))"

section \<open>Properties\<close>

lemma update_first_twice:
  "(\<And>x. p x \<Longrightarrow> p (f x)) \<Longrightarrow>
     update_first p g (update_first p f xs) = update_first p (\<lambda>x. g (f x)) xs"
  by (induction xs) auto

lemma update_peer_ping_twice:
  "update_peer_ping p b (update_peer_ping p a s) = update_peer_ping p b s"
  by (simp add: update_peer_ping_def mutate_status_def Let_def update_first_twice)

fun ticks :: "ping_event list \<Rightarrow> u64 list" where
  "ticks (PgTick rtt closed # es) = rtt # (if closed then [] else ticks es)"
| "ticks _ = []"

text \<open>
  the ping loop of a connection leaves in the status the last round-trip time it measured
  for the peer, and changes nothing else, however long it runs.
\<close>

theorem ping_loop_keeps_last:
  "ping_loop peer_id es s =
     (if ticks es = [] then s else update_peer_ping peer_id (last (ticks es)) s)"
  by (induction es arbitrary: s rule: ticks.induct) (auto simp: Let_def update_peer_ping_twice)

definition e4mc_messages :: "u16 \<Rightarrow> msg list" where
  "e4mc_messages port =
     [Fmt ''Starting e4mc public fallback for local Minecraft 127.0.0.1:{local_game_port}.'' [Lit (show_word port)],
      Fmt ''e4mc fallback unavailable: {error:#}. Retrying in 10s...'' [Alt [Lit ''e4mc disabled'']]]"

lemma length_e4mc_messages [simp]: "length (e4mc_messages port) = 2"
  by (simp add: e4mc_messages_def)

lemma e4mc_loop_disabled:
  "e4mc_loop port (replicate n (False, False)) = map OpPushLog (concat (replicate n (e4mc_messages port)))"
  by (induction n) (simp_all add: e4mc_round_writes_def e4mc_start_host_runtime_def e4mc_messages_def)

lemma push_logs:
  "ms \<noteq> [] \<Longrightarrow> fold status_step (map OpPushLog ms) s =
     s\<lparr>ns_peer_count := length (filter pi_connected (ns_peers s)), ns_logs := take 64 (rev ms @ ns_logs s)\<rparr>"
proof (induction ms arbitrary: s rule: list_nonempty_induct)
  case (single m)
  then show ?case by (simp add: push_log_def mutate_status_def Let_def)
next
  case (cons m ms)
  then show ?case by (simp add: push_log_def mutate_status_def Let_def take_Cons' min_def)
qed

lemma e4mc_loop_only_logs: "list_all is_log (e4mc_loop port rounds)"
  by (induction port rounds rule: e4mc_loop.induct)
    (simp_all add: e4mc_round_writes_def e4mc_start_host_runtime_def)

lemma is_log_iff: "is_log op \<longleftrightarrow> (\<exists>m. op = OpPushLog m)"
  by (cases op) simp_all

text \<open>
  C24: the e4mc fallback of this build only ever fills the log. Whatever the rounds, its loop writes
  nothing to the status but lines of the log, so a host that asked for it never gets an
  address from it; and where nothing else is logged, 32 uncancelled rounds, five seconds
  apart, push everything else out: all 64 entries are the loop's two messages.
\<close>

theorem e4mc_fills_log:
  "list_all (\<lambda>op. \<exists>m. op = OpPushLog m) (e4mc_loop port rounds)
   \<and> (32 \<le> n \<longrightarrow> fold status_step (e4mc_loop port (replicate n (False, False))) s =
        s\<lparr>ns_peer_count := length (filter pi_connected (ns_peers s)),
          ns_logs := concat (replicate 32 (rev (e4mc_messages port)))\<rparr>)"
proof (intro conjI impI)
  show "list_all (\<lambda>op. \<exists>m. op = OpPushLog m) (e4mc_loop port rounds)"
    using e4mc_loop_only_logs by (simp flip: is_log_iff)
  assume "32 \<le> n"
  then obtain k where n: "n = 32 + k" by (metis le_Suc_ex)
  let ?E = "e4mc_messages port"
  have "rev (concat (replicate n ?E)) = concat (replicate 32 (rev ?E)) @ concat (replicate k (rev ?E))"
    by (simp only: n rev_concat map_replicate rev_replicate replicate_add concat_append rev_append)
      (metis append_assoc concat_append replicate_add add.commute)
  moreover have "length (concat (replicate 32 (rev ?E))) = 64"
    by (simp add: length_concat sum_list_replicate)
  ultimately have "take 64 (rev (concat (replicate n ?E)) @ ns_logs s) = concat (replicate 32 (rev ?E))"
    by simp
  moreover have "concat (replicate n ?E) \<noteq> []" by (simp add: n e4mc_messages_def)
  ultimately show "fold status_step (e4mc_loop port (replicate n (False, False))) s =
        s\<lparr>ns_peer_count := length (filter pi_connected (ns_peers s)),
          ns_logs := concat (replicate 32 (rev ?E))\<rparr>"
    by (simp only: e4mc_loop_disabled push_logs simp_thms)
qed

theorem e4mc_fills_log_witness:
  "ns_e4mc_domain (fold status_step (e4mc_loop 25565 (replicate 40 (False, False))) initial_status) = None
   \<and> length (ns_logs (fold status_step (e4mc_loop 25565 (replicate 40 (False, False))) initial_status)) = 64"
  using e4mc_fills_log [of 25565 "[]" 40 initial_status]
  by (simp add: length_concat sum_list_replicate initial_status_def default_status_def)

text \<open>
  a binding of the shared socket never fails because of the firewall: whatever \<open>netsh\<close> does,
  the result is that of the socket calls alone.
\<close>

theorem firewall_never_blocks:
  "snd (bind_shared_udp_socket windows run bound cloned) = and_then bound (\<lambda>addr. map_sum id (\<lambda>_. addr) cloned)"
  by (cases bound; cases cloned) (simp_all add: bind_shared_udp_socket_def)

section \<open>The connections of a host\<close>

text \<open>The connections a run of the accept loop takes, in order.\<close>

fun accepted :: "accept_result list \<Rightarrow> (conn \<times> sock_addr) list" where
  "accepted (HaConnection c remote rtt # es) = (c, remote) # accepted es"
| "accepted (HaFailed e # es) = accepted es"
| "accepted _ = []"

lemma on_host_at:
  "maps < length (mg_hosts m) \<Longrightarrow> mg_hosts (on_host maps f m) ! maps = f (mg_hosts m ! maps)"
  "length (mg_hosts (on_host maps f m)) = length (mg_hosts m)"
  "mg_next_task (on_host maps f m) = mg_next_task m"
  by (simp_all add: on_host_def)

lemma on_status_at:
  "mg_hosts (on_status f m) = mg_hosts m" "mg_next_task (on_status f m) = mg_next_task m"
  by (simp_all add: on_status_def)

lemma on_host_keeps:
  "(\<And>h. g (f h) = g h) \<Longrightarrow> g (mg_hosts (on_host maps f m) ! maps) = g (mg_hosts m ! maps)"
  by (cases "maps < length (mg_hosts m)") (simp_all add: on_host_def list_update_beyond)

lemma stop_relay_at: "mg_hosts (stop_relay r m) = mg_hosts m"
  by (simp add: stop_relay_def cancel_def abort_def)

lemma cancel_relay_live:
  "hm_live (mg_hosts (cancel_host_relay_for_peer maps p m) ! maps) = hm_live (mg_hosts m ! maps)"
  "hm_expected (mg_hosts (cancel_host_relay_for_peer maps p m) ! maps) = hm_expected (mg_hosts m ! maps)"
  "length (mg_hosts (cancel_host_relay_for_peer maps p m)) = length (mg_hosts m)"
  unfolding cancel_host_relay_for_peer_def Let_def
  by (simp_all add: on_status_at stop_relay_at on_host_at(2) on_host_keeps split: option.split)

lemma spawn_at:
  "mg_hosts (snd (spawn k t m)) = mg_hosts m"
  "\<lparr>tk_id = mg_next_task m, tk_kind = k, tk_token = t\<rparr> \<in> set (mg_tasks (snd (spawn k t m)))"
  by (simp_all add: spawn_def)

lemma host_accept_live:
  assumes "maps < length (mg_hosts m)" and "hm_expected (mg_hosts m ! maps) = []"
  shows "hm_live (mg_hosts (host_accept tok maps c a rtt m) ! maps) =
      AList.update (show_addr a) c (hm_live (mg_hosts m ! maps))"
    "hm_expected (mg_hosts (host_accept tok maps c a rtt m) ! maps) = []"
    "length (mg_hosts (host_accept tok maps c a rtt m)) = length (mg_hosts m)"
  unfolding host_accept_def Let_def spawn_at on_status_at cancel_relay_live
  using assms by (simp_all add: on_host_at)

lemma accept_loop_live:
  assumes "maps < length (mg_hosts m)" and "hm_expected (mg_hosts m ! maps) = []"
  shows "hm_live (mg_hosts (host_accept_loop tok maps es m) ! maps) =
    fold (\<lambda>(c, a). AList.update (show_addr a) c) (accepted es) (hm_live (mg_hosts m ! maps))"
  using assms
proof (induction tok maps es m rule: host_accept_loop.induct)
  case (2 tok maps c remote rtt es m)
  then show ?case by (simp add: host_accept_live)
next
  case (3 tok maps e es m)
  then show ?case by (simp add: host_accept_failed_def on_status_def split: if_splits)
qed simp_all

text \<open>
  a host that accepts connections from peers nobody announced knows, for each remote address,
  the last connection from it: that is the one \<open>kick_peer\<close> closes, the earlier ones from the
  same address are no longer reachable by the peer's id.
\<close>

theorem accept_loop_last_connection:
  assumes "maps < length (mg_hosts m)" and "hm_expected (mg_hosts m ! maps) = []"
    and "accepted es = before @ (c, a) # after" and "\<forall>(c', a') \<in> set after. show_addr a' \<noteq> show_addr a"
  shows "map_of (hm_live (mg_hosts (host_accept_loop tok maps es m) ! maps)) (show_addr a) = Some c"
proof -
  have "map_of (fold (\<lambda>(c, a). AList.update (show_addr a) c) xs l) k = map_of l k"
    if "\<forall>(c', a') \<in> set xs. show_addr a' \<noteq> k" for xs :: "(conn \<times> sock_addr) list" and l k
    using that by (induction xs arbitrary: l) (auto simp: update_conv)
  then show ?thesis
    using assms(4) by (simp add: accept_loop_live [OF assms(1,2)] assms(3) update_conv)
qed

theorem accept_loop_last_connection_witness:
  "map_of (hm_live (mg_hosts (host_accept_loop 0 0
      [HaConnection 4 (SockV4 192 0 2 9 5000) 30, HaFailed [], HaConnection 5 (SockV4 192 0 2 9 5000) 31, HaCancelled]
      (new_manager\<lparr>mg_hosts := [\<lparr>hm_expected = [], hm_live = [], hm_relays = []\<rparr>]\<rparr>)) ! 0))
     (show_addr (SockV4 192 0 2 9 5000)) = Some 5"
  using accept_loop_last_connection [of 0 "new_manager\<lparr>mg_hosts := [\<lparr>hm_expected = [], hm_live = [], hm_relays = []\<rparr>]\<rparr>"
      "[HaConnection 4 (SockV4 192 0 2 9 5000) 30, HaFailed [], HaConnection 5 (SockV4 192 0 2 9 5000) 31, HaCancelled]"
      "[(4, SockV4 192 0 2 9 5000)]" 5 "SockV4 192 0 2 9 5000" "[]" 0]
  by simp

end
