(* ===== verification/Json.thy ===== *)
theory Json
  imports Rust_Str
begin

text \<open>
  \<open>serde_json::Value\<close> and the operations on it the program uses: \<open>get\<close>, the \<open>as_*\<close>
  conversions, insertion into an object and the \<open>json!\<close> object literal. An object is the
  association list of serde's map in its own order, which is the order of the keys'
  octets. Reading and printing JSON text stays a parameter of the definitions that do it.
\<close>

datatype json =
    JNull
  | JBool bool
  | JPosInt u64
  | JNegInt u64 \<comment> \<open>an \<open>i64\<close> below zero, in two's complement\<close>
  | JFloat string
  | JString string
  | JArray "json list"
  | JObject "(string \<times> json) list"

fun as_str :: "json \<Rightarrow> string option" where
  "as_str (JString s) = Some s"
| "as_str v = None"

fun as_u64 :: "json \<Rightarrow> u64 option" where
  "as_u64 (JPosInt n) = Some n"
| "as_u64 v = None"

fun as_array :: "json \<Rightarrow> json list option" where
  "as_array (JArray vs) = Some vs"
| "as_array v = None"

fun as_object :: "json \<Rightarrow> (string \<times> json) list option" where
  "as_object (JObject kvs) = Some kvs"
| "as_object v = None"

fun json_get :: "string \<Rightarrow> json \<Rightarrow> json option" where
  "json_get k (JObject kvs) = map_of kvs k"
| "json_get k v = None"

definition get_str :: "string \<Rightarrow> json \<Rightarrow> string option" where
  "get_str k v = Option.bind (json_get k v) as_str"

text \<open>\<open>Map::insert\<close> and the object literal, which inserts its fields one after the other.\<close>

fun obj_insert :: "string \<Rightarrow> json \<Rightarrow> (string \<times> json) list \<Rightarrow> (string \<times> json) list" where
  "obj_insert k v [] = [(k, v)]"
| "obj_insert k v ((k', v') # kvs) =
     (if k' = k then (k, v) # kvs
      else if ord_class.lexordp (codes k) (codes k') then (k, v) # (k', v') # kvs
      else (k', v') # obj_insert k v kvs)"

definition obj_of :: "(string \<times> json) list \<Rightarrow> (string \<times> json) list" where
  "obj_of fields = fold (\<lambda>(k, v). obj_insert k v) fields []"

fun set_field :: "string \<Rightarrow> json \<Rightarrow> json \<Rightarrow> json" where
  "set_field k v (JObject kvs) = JObject (obj_insert k v kvs)"
| "set_field k v w = w"

lemma map_of_obj_insert [simp]: "map_of (obj_insert k v kvs) = (map_of kvs)(k \<mapsto> v)"
  by (induction k v kvs rule: obj_insert.induct) (auto simp: fun_eq_iff)

lemma map_of_obj_inserts:
  "map_of (fold (\<lambda>(k, v). obj_insert k v) fields kvs) = map_of kvs ++ map_of (rev fields)"
  by (induction fields arbitrary: kvs) (auto simp: fun_eq_iff map_add_def split: option.split)

lemma map_of_obj_of: "map_of (obj_of fields) = map_of (rev fields)"
  by (simp add: obj_of_def map_of_obj_inserts)

lemma get_str_object [simp]: "get_str k (JObject kvs) = Option.bind (map_of kvs k) as_str"
  by (simp add: get_str_def)

end
