(* ===== verification/Lobby.thy ===== *)
theory Lobby
  imports Json Manager_Reset
begin

text \<open>
  The lobby (\<open>lobby.rs\<close>) and what \<open>manager.rs\<close> makes of it: the announcement a host posts
  every ten seconds, the listing of rooms, the filter for one's own room and the event
  subscription with its reconnection delay. An HTTP request is its outcome: no response, or
  the status code with the body that was read; the JSON reader of strings is a parameter.
\<close>

section \<open>Requests\<close>

definition LOBBY_BASE :: string where
  "LOBBY_BASE = ''http://2.26.87.126:7700''"

definition LOBBY_CHANNEL :: string where
  "LOBBY_CHANNEL = ''minecraft-lobby''"

definition is_success :: "u16 \<Rightarrow> bool" where
  "is_success code \<longleftrightarrow> 200 \<le> code \<and> code < 300"

definition messages_url :: "string \<Rightarrow> string" where
  "messages_url channel = LOBBY_BASE @ ''/channels/'' @ channel @ ''/messages''"

definition presence_message :: "string \<Rightarrow> json \<Rightarrow> json" where
  "presence_message client_id data =
     JObject (obj_of [(''name'', JString ''host-presence''), (''clientId'', JString client_id),
                      (''data'', data)])"

definition leave_message :: "string \<Rightarrow> json" where
  "leave_message client_id =
     JObject (obj_of [(''name'', JString ''host-leave''), (''clientId'', JString client_id),
                      (''data'', JObject [])])"

definition event_message :: "string \<Rightarrow> json \<Rightarrow> json" where
  "event_message event_name data =
     JObject (obj_of [(''name'', JString event_name), (''data'', data)])"

text \<open>The result of posting a message: \<open>send().await?\<close>, then the status code.\<close>

definition post_result :: "string \<Rightarrow> anyhow + u16 \<Rightarrow> anyhow + unit" where
  "post_result operation response =
     and_then response (\<lambda>code.
       if is_success code then Inr ()
       else Inl [''Ably '' @ operation @ '' failed: '' @ show_word code])"

definition enter_presence :: "string \<Rightarrow> json \<Rightarrow> (string \<Rightarrow> json \<Rightarrow> anyhow + u16) \<Rightarrow> anyhow + unit" where
  "enter_presence client_id data post =
     post_result ''enter_presence''
       (post (messages_url LOBBY_CHANNEL) (presence_message client_id data))"

definition leave_presence :: "string \<Rightarrow> (string \<Rightarrow> json \<Rightarrow> anyhow + u16) \<Rightarrow> anyhow + unit" where
  "leave_presence client_id post =
     post_result ''leave_presence'' (post (messages_url LOBBY_CHANNEL) (leave_message client_id))"

definition publish_event ::
  "string \<Rightarrow> string \<Rightarrow> json \<Rightarrow> (string \<Rightarrow> json \<Rightarrow> anyhow + u16) \<Rightarrow> anyhow + unit" where
  "publish_event channel event_name data post =
     post_result ''publish_event'' (post (messages_url channel) (event_message event_name data))"

text \<open>The operations of \<open>NetworkManager\<close> that pass a request of the user interface on.\<close>

definition update_lobby_presence :: "string \<Rightarrow> json \<Rightarrow> (string \<Rightarrow> json \<Rightarrow> anyhow + u16) \<Rightarrow> anyhow + unit" where
  "update_lobby_presence client_id data post = enter_presence client_id data post"

definition remove_lobby_presence :: "string \<Rightarrow> (string \<Rightarrow> json \<Rightarrow> anyhow + u16) \<Rightarrow> anyhow + unit" where
  "remove_lobby_presence client_id post = leave_presence client_id post"

definition publish_lobby_event ::
  "string \<Rightarrow> string \<Rightarrow> json \<Rightarrow> (string \<Rightarrow> json \<Rightarrow> anyhow + u16) \<Rightarrow> anyhow + unit" where
  "publish_lobby_event channel event data post = publish_event channel event data post"

section \<open>The listing\<close>

definition response_messages :: "(u16 \<times> json list option) option \<Rightarrow> json list" where
  "response_messages response =
     (case response of
        Some (code, Some data) \<Rightarrow> if is_success code then data else []
      | _ \<Rightarrow> [])"

definition add_client :: "json \<Rightarrow> (string \<times> json) list \<Rightarrow> json" where
  "add_client msg obj =
     JObject (case json_get ''clientId'' msg of
                Some client_id \<Rightarrow> obj_insert ''peer_id'' client_id (obj_insert ''client_id'' client_id obj)
              | None \<Rightarrow> obj)"

definition server_of :: "(string \<Rightarrow> json option) \<Rightarrow> json \<Rightarrow> json option" where
  "server_of from_str msg =
     (if (case get_str ''name'' msg of Some name \<Rightarrow> name \<noteq> ''host-presence'' | None \<Rightarrow> False) then None
      else case json_get ''data'' msg of
          Some (JObject obj) \<Rightarrow> Some (add_client msg obj)
        | Some (JString s) \<Rightarrow>
            (case from_str s of Some (JObject obj) \<Rightarrow> Some (add_client msg obj) | _ \<Rightarrow> None)
        | _ \<Rightarrow> None)"

text \<open>The rooms by peer id; the order of the resulting vector is the hash map's.\<close>

definition unique_servers :: "json list \<Rightarrow> (string \<rightharpoonup> json)" where
  "unique_servers servers =
     fold (\<lambda>server m. case get_str ''peer_id'' server of
             Some peer_id \<Rightarrow> entry_or_insert peer_id server m
           | None \<Rightarrow> m) servers Map.empty"

definition fetch_presence ::
  "(string \<Rightarrow> json option) \<Rightarrow> (u16 \<times> json list option) option \<Rightarrow> (u16 \<times> json list option) option \<Rightarrow>
     (string \<rightharpoonup> json)" where
  "fetch_presence from_str presence messages =
     unique_servers (List.map_filter (server_of from_str)
       (response_messages presence @ response_messages messages))"

text \<open>\<open>refresh_lobby\<close>: on a host, the rooms but one's own.\<close>

definition own_peer_id :: "network_status \<Rightarrow> string option" where
  "own_peer_id s = (if ns_mode s = ModeHost then ns_room_code s else None)"

definition foreign_room :: "string \<Rightarrow> json \<Rightarrow> bool" where
  "foreign_room own_id p =
     (case get_str ''client_id'' p of
        Some client_id \<Rightarrow> client_id \<noteq> own_id
      | None \<Rightarrow> (case get_str ''peer_id'' p of Some peer_id \<Rightarrow> peer_id \<noteq> own_id | None \<Rightarrow> True))"

definition refresh_lobby :: "network_status \<Rightarrow> (string \<rightharpoonup> json) \<Rightarrow> (string \<rightharpoonup> json)" where
  "refresh_lobby s presence =
     (case own_peer_id s of
        Some own_id \<Rightarrow> (\<lambda>p. case presence p of
             Some server \<Rightarrow> if foreign_room own_id server then Some server else None
           | None \<Rightarrow> None)
      | None \<Rightarrow> presence)"

section \<open>The announcement\<close>

definition base_announcement ::
  "string \<Rightarrow> string \<Rightarrow> string option \<Rightarrow> string option \<Rightarrow> bool \<Rightarrow> json" where
  "base_announcement peer_id room_name nickname fallback_version has_password =
     JObject (obj_of
       [(''peer_id'', JString peer_id), (''id'', JString peer_id),
        (''room_name'', JString room_name),
        (''host_name'', JString (case nickname of Some n \<Rightarrow> n | None \<Rightarrow> ''Minecraft Host'')),
        (''slots'', JPosInt 0), (''maxPlayers'', JPosInt 0), (''motd'', JString room_name),
        (''has_password'', JBool has_password),
        (''game_version'', JString (case fallback_version of Some v \<Rightarrow> v | None \<Rightarrow> ''Unknown'')),
        (''platform'', JString ''desktop''), (''protocol_version'', JPosInt 0),
        (''game_type'', JString ''survival'')])"

definition host_announcement ::
  "string \<Rightarrow> string \<Rightarrow> string option \<Rightarrow> string option \<Rightarrow> bool \<Rightarrow> string option \<Rightarrow> string option \<Rightarrow>
     external_server_probe option \<Rightarrow> json" where
  "host_announcement peer_id room_name nickname fallback_version has_password public_udp_addr
     local_udp_addr probe =
     (let data = base_announcement peer_id room_name nickname fallback_version has_password;
          data = (case public_udp_addr of
            Some a \<Rightarrow> set_field ''endpoint'' (JString a) (set_field ''public_join_address'' (JString a) data)
          | None \<Rightarrow> data);
          data = (case local_udp_addr of
            Some a \<Rightarrow> set_field ''local_ip'' (JString a)
                       (set_field ''listen_addrs'' (JArray (map JString (split_on CHR '','' a))) data)
          | None \<Rightarrow> data)
      in case probe of
           None \<Rightarrow> data
         | Some p \<Rightarrow>
             let data = (if ep_room_name p \<noteq> [] then set_field ''motd'' (JString (ep_room_name p)) data
                         else data);
                 data = set_field ''maxPlayers'' (JPosInt (ucast (ep_max_players p)))
                          (set_field ''slots'' (JPosInt (ucast (ep_online_players p))) data)
             in case ep_version p of Some v \<Rightarrow> set_field ''game_version'' (JString v) data
                | None \<Rightarrow> data)"

text \<open>One tick of the loop: what is posted and what the probe writes to the status.\<close>

definition lobby_tick ::
  "string \<Rightarrow> string \<Rightarrow> string option \<Rightarrow> string option \<Rightarrow> bool \<Rightarrow> string option \<Rightarrow> string option \<Rightarrow>
     anyhow + external_server_probe \<Rightarrow> network_status \<Rightarrow> json \<times> network_status" where
  "lobby_tick peer_id room_name nickname fallback_version has_password public_udp_addr
     local_udp_addr probe s =
     (case probe of
        Inl _ \<Rightarrow> (host_announcement peer_id room_name nickname fallback_version has_password
                   public_udp_addr local_udp_addr None, s)
      | Inr p \<Rightarrow> (host_announcement peer_id room_name nickname fallback_version has_password
                   public_udp_addr local_udp_addr (Some p),
                  set_probe_result (ep_max_players p) (ep_version p) s))"

section \<open>The event subscription\<close>

datatype sse_event = SseOpen | SseMessage string string | SseError

text \<open>
  \<open>subscribe_lobby_events\<close>: the inner loop over the events of one connection, with the
  events handed to the interface and the delay it leaves; the outer loop sleeps for the
  delay and doubles it. The list of connections ends when the task is cancelled.
\<close>

fun sse_connection ::
  "(string \<Rightarrow> json option) \<Rightarrow> string \<Rightarrow> nat \<Rightarrow> sse_event list \<Rightarrow> (string \<times> json) list \<times> nat" where
  "sse_connection from_str channel retry_delay [] = ([], retry_delay)"
| "sse_connection from_str channel retry_delay (e # es) =
     (case e of
        SseOpen \<Rightarrow> sse_connection from_str channel 500 es
      | SseError \<Rightarrow> ([], retry_delay)
      | SseMessage event text \<Rightarrow>
          let (emitted, delay) = sse_connection from_str channel retry_delay es
          in ((case from_str text of
                 None \<Rightarrow> []
               | Some parsed \<Rightarrow>
                   if event = ''message'' \<or> event = ''lobby-event'' \<or> event = [] then
                     [(''lobby-event'', JObject (obj_of [(''channel'', JString channel), (''data'', parsed)]))]
                   else [(event, JObject (obj_of [(''channel'', JString channel), (''payload'', parsed)]))])
              @ emitted, delay))"

fun subscribe_lobby_events ::
  "(string \<Rightarrow> json option) \<Rightarrow> string \<Rightarrow> nat \<Rightarrow> sse_event list list \<Rightarrow> (string \<times> json) list \<times> nat list" where
  "subscribe_lobby_events from_str channel retry_delay [] = ([], [])"
| "subscribe_lobby_events from_str channel retry_delay (c # cs) =
     (let (emitted, slept) = sse_connection from_str channel retry_delay c;
          (emitted', delays) = subscribe_lobby_events from_str channel (min (slept * 2) 10000) cs
      in (emitted @ emitted', slept # delays))"

section \<open>Lemmas on the listing\<close>

lemma fold_unique:
  "fold (\<lambda>server m. case get_str ''peer_id'' server of
       Some peer_id \<Rightarrow> entry_or_insert peer_id server m | None \<Rightarrow> m) servers m p =
     (case m p of Some server \<Rightarrow> Some server
      | None \<Rightarrow> find (\<lambda>server. get_str ''peer_id'' server = Some p) servers)"
  by (induction servers arbitrary: m) (auto simp: entry_or_insert_def split: option.split)

lemma unique_servers_find:
  "unique_servers servers p = find (\<lambda>server. get_str ''peer_id'' server = Some p) servers"
  by (simp add: unique_servers_def fold_unique)

lemma map_filter_append [simp]:
  "List.map_filter f (xs @ ys) = List.map_filter f xs @ List.map_filter f ys"
  by (induction xs) (simp_all add: map_filter_simps split: option.split)

lemma find_append: "find q (xs @ ys) = (case find q xs of Some x \<Rightarrow> Some x | None \<Rightarrow> find q ys)"
  by (induction xs) auto

lemma find_map_filter:
  "find q (List.map_filter f xs) = Option.bind (find (\<lambda>x. \<exists>y. f x = Some y \<and> q y) xs) f"
  by (induction xs) (auto simp: map_filter_simps split: option.split)

lemma response_messages_ok [simp]:
  "is_success code \<Longrightarrow> response_messages (Some (code, Some data)) = data"
  by (simp add: response_messages_def)

lemma server_of_leave [simp]: "server_of from_str (leave_message p) = None"
  by (simp add: server_of_def leave_message_def map_of_obj_of)

lemma server_of_presence [simp]:
  "server_of from_str (presence_message p (JObject obj)) =
     Some (JObject (obj_insert ''peer_id'' (JString p) (obj_insert ''client_id'' (JString p) obj)))"
  by (simp add: server_of_def presence_message_def map_of_obj_of add_client_def)

lemma server_of_SomeD:
  assumes "server_of from_str msg = Some server" and "json_get ''clientId'' msg = Some i"
  shows "json_get ''peer_id'' server = Some i \<and> json_get ''client_id'' server = Some i"
  using assms by (auto simp: server_of_def add_client_def split: option.splits json.splits if_splits)

text \<open>
  C19: the listing holds, for a peer id, the first announcement of that peer, those of the
  presence request before those of the messages request, and nothing else. A request that
  failed, was refused (a status outside 200 to 299) or had an answer that is no list counts as
  an empty answer. An announcement has the name of a host's presence or none, and where it
  names the client that posted it, that is both ids of the room, whatever the room says.
\<close>

theorem lobby_listing:
  "fetch_presence from_str presence messages p =
     Option.bind
       (find (\<lambda>msg. \<exists>server. server_of from_str msg = Some server \<and> get_str ''peer_id'' server = Some p)
         ((case presence of Some (code, Some data) \<Rightarrow> if 200 \<le> code \<and> code \<le> 299 then data else [] | _ \<Rightarrow> [])
          @ (case messages of Some (code, Some data) \<Rightarrow> if 200 \<le> code \<and> code \<le> 299 then data else [] | _ \<Rightarrow> [])))
       (server_of from_str)
   \<and> (\<forall>msg name. get_str ''name'' msg = Some name \<longrightarrow> name \<noteq> ''host-presence'' \<longrightarrow> server_of from_str msg = None)
   \<and> (\<forall>msg server i. server_of from_str msg = Some server \<longrightarrow> json_get ''clientId'' msg = Some i \<longrightarrow>
        json_get ''peer_id'' server = Some i \<and> json_get ''client_id'' server = Some i)"
proof (intro conjI allI impI)
  have le: "code \<le> 299 \<longleftrightarrow> code < 300" for code :: u16
    by (simp add: word_le_nat_alt word_less_nat_alt) arith
  have r: "(case response of Some (code, Some data) \<Rightarrow> if 200 \<le> code \<and> code \<le> 299 then data else [] | _ \<Rightarrow> [])
      = response_messages response" for response
    by (simp add: response_messages_def is_success_def le split: option.split)
  show "fetch_presence from_str presence messages p =
     Option.bind
       (find (\<lambda>msg. \<exists>server. server_of from_str msg = Some server \<and> get_str ''peer_id'' server = Some p)
         ((case presence of Some (code, Some data) \<Rightarrow> if 200 \<le> code \<and> code \<le> 299 then data else [] | _ \<Rightarrow> [])
          @ (case messages of Some (code, Some data) \<Rightarrow> if 200 \<le> code \<and> code \<le> 299 then data else [] | _ \<Rightarrow> [])))
       (server_of from_str)"
    unfolding r by (simp add: fetch_presence_def unique_servers_find find_map_filter del: map_filter_append)
  show "server_of from_str msg = None" if "get_str ''name'' msg = Some name" "name \<noteq> ''host-presence''" for msg name
    using that by (simp add: server_of_def)
qed (simp_all add: server_of_SomeD)

theorem lobby_listing_witness:
  "server_of (\<lambda>_. None) (JObject [(''name'', JString ''host-leave''), (''data'', JObject [])]) = None
   \<and> fetch_presence (\<lambda>_. None) (Some (503, Some [presence_message ''id'' (JObject [])])) None ''id'' = None"
proof
  have "get_str ''name'' (JObject [(''name'', JString ''host-leave''), (''data'', JObject [])]) = Some ''host-leave''"
    by simp
  then show "server_of (\<lambda>_. None) (JObject [(''name'', JString ''host-leave''), (''data'', JObject [])]) = None"
    using lobby_listing [of "\<lambda>_. None" None None "''id''"] by fastforce
  show "fetch_presence (\<lambda>_. None) (Some (503, Some [presence_message ''id'' (JObject [])])) None ''id'' = None"
    using lobby_listing [of "\<lambda>_. None" "Some (503, Some [presence_message ''id'' (JObject [])])" None "''id''"]
    by simp
qed

text \<open>
  a room that was left stays in the lobby. The message \<open>leave_presence\<close> posts has no effect
  on the listing, wherever it stands among the messages: as long as one announcement of the
  host is among the messages of the channel, every client still sees the room.
\<close>

theorem left_room_stays_listed:
  "fetch_presence from_str presence (Some (code, Some (older @ leave_message p # newer))) =
     fetch_presence from_str presence (Some (code, Some (older @ newer)))"
  by (rule ext) (simp add: fetch_presence_def unique_servers_find response_messages_def map_filter_simps)

section \<open>The announcement, read back\<close>

lemma base_fields:
  obtains b where "base_announcement p room nick version has_password = JObject b"
    and "map_of b ''room_name'' = Some (JString room)"
    and "map_of b ''has_password'' = Some (JBool has_password)"
    and "map_of b ''endpoint'' = None" and "map_of b ''local_ip'' = None"
    and "map_of b ''host_name'' = Some (JString (case nick of Some n \<Rightarrow> n | None \<Rightarrow> ''Minecraft Host''))"
    and "map_of b ''slots'' = Some (JPosInt 0)" and "map_of b ''maxPlayers'' = Some (JPosInt 0)"
    and "map_of b ''game_version'' = Some (JString (case version of Some v \<Rightarrow> v | None \<Rightarrow> ''Unknown''))"
  by (rule that [of "obj_of _"], rule base_announcement_def) (simp_all add: map_of_obj_of)

definition with_addresses :: "string option \<Rightarrow> string option \<Rightarrow> (string \<times> json) list \<Rightarrow> (string \<times> json) list" where
  "with_addresses endpoint addrs b =
     (let b = (case endpoint of Some a \<Rightarrow>
             obj_insert ''endpoint'' (JString a) (obj_insert ''public_join_address'' (JString a) b)
           | None \<Rightarrow> b)
      in case addrs of Some a \<Rightarrow> obj_insert ''local_ip'' (JString a)
             (obj_insert ''listen_addrs'' (JArray (map JString (split_on CHR '','' a))) b)
         | None \<Rightarrow> b)"

definition with_probe :: "external_server_probe option \<Rightarrow> (string \<times> json) list \<Rightarrow> (string \<times> json) list" where
  "with_probe probe b =
     (case probe of None \<Rightarrow> b
      | Some q \<Rightarrow>
          let b = (if ep_room_name q \<noteq> [] then obj_insert ''motd'' (JString (ep_room_name q)) b else b);
              b = obj_insert ''maxPlayers'' (JPosInt (ucast (ep_max_players q)))
                    (obj_insert ''slots'' (JPosInt (ucast (ep_online_players q))) b)
          in case ep_version q of Some v \<Rightarrow> obj_insert ''game_version'' (JString v) b | None \<Rightarrow> b)"

lemma announcement_object:
  "base_announcement p room nick version has_password = JObject b \<Longrightarrow>
     host_announcement p room nick version has_password endpoint addrs probe =
       JObject (with_probe probe (with_addresses endpoint addrs b))"
  by (simp add: host_announcement_def with_probe_def with_addresses_def Let_def split: option.split)

lemma with_addresses_fields:
  "map_of b ''endpoint'' = None \<Longrightarrow> map_of (with_addresses e l b) ''endpoint'' = map_option JString e"
  "map_of b ''local_ip'' = None \<Longrightarrow> map_of (with_addresses e l b) ''local_ip'' = map_option JString l"
  "k \<notin> {''endpoint'', ''public_join_address'', ''local_ip'', ''listen_addrs''} \<Longrightarrow>
     map_of (with_addresses e l b) k = map_of b k"
  by (simp_all add: with_addresses_def Let_def split: option.split)

lemma with_probe_fields:
  "map_of b ''slots'' = Some (JPosInt 0) \<Longrightarrow> map_of (with_probe probe b) ''slots'' =
     Some (JPosInt (case probe of Some q \<Rightarrow> ucast (ep_online_players q) | None \<Rightarrow> 0))"
  "map_of b ''maxPlayers'' = Some (JPosInt 0) \<Longrightarrow> map_of (with_probe probe b) ''maxPlayers'' =
     Some (JPosInt (case probe of Some q \<Rightarrow> ucast (ep_max_players q) | None \<Rightarrow> 0))"
  "map_of b ''game_version'' = Some (JString v0) \<Longrightarrow> map_of (with_probe probe b) ''game_version'' =
     Some (JString (case Option.bind probe ep_version of Some v \<Rightarrow> v | None \<Rightarrow> v0))"
  "k \<notin> {''motd'', ''slots'', ''maxPlayers'', ''game_version''} \<Longrightarrow> map_of (with_probe probe b) k = map_of b k"
  by (simp_all add: with_probe_def Let_def split: option.split)

text \<open>The listing of a message that is the first the channel holds for its peer.\<close>

lemma announcement_listed:
  assumes "is_success code"
    and "\<forall>msg \<in> set (response_messages presence @ older).
       \<forall>server. server_of from_str msg = Some server \<longrightarrow> get_str ''peer_id'' server \<noteq> Some p"
  obtains b where "fetch_presence from_str presence (Some (code, Some (older
      @ presence_message p (host_announcement p room nick version has_password endpoint addrs probe) # newer))) p
      = Some (JObject (obj_insert ''peer_id'' (JString p) (obj_insert ''client_id'' (JString p)
          (with_probe probe (with_addresses endpoint addrs b)))))"
    and "map_of b ''room_name'' = Some (JString room)"
    and "map_of b ''has_password'' = Some (JBool has_password)"
    and "map_of b ''endpoint'' = None" and "map_of b ''local_ip'' = None"
    and "map_of b ''host_name'' = Some (JString (case nick of Some n \<Rightarrow> n | None \<Rightarrow> ''Minecraft Host''))"
    and "map_of b ''slots'' = Some (JPosInt 0)" and "map_of b ''maxPlayers'' = Some (JPosInt 0)"
    and "map_of b ''game_version'' = Some (JString (case version of Some v \<Rightarrow> v | None \<Rightarrow> ''Unknown''))"
proof -
  let ?a = "host_announcement p room nick version has_password endpoint addrs probe"
  obtain b where b: "base_announcement p room nick version has_password = JObject b"
      "map_of b ''room_name'' = Some (JString room)"
      "map_of b ''has_password'' = Some (JBool has_password)"
      "map_of b ''endpoint'' = None" "map_of b ''local_ip'' = None"
      "map_of b ''host_name'' = Some (JString (case nick of Some n \<Rightarrow> n | None \<Rightarrow> ''Minecraft Host''))"
      "map_of b ''slots'' = Some (JPosInt 0)" "map_of b ''maxPlayers'' = Some (JPosInt 0)"
      "map_of b ''game_version'' = Some (JString (case version of Some v \<Rightarrow> v | None \<Rightarrow> ''Unknown''))"
    by (rule base_fields)
  have obj: "?a = JObject (with_probe probe (with_addresses endpoint addrs b))"
    by (rule announcement_object) (rule b)
  have "find (\<lambda>msg. \<exists>server. server_of from_str msg = Some server \<and> get_str ''peer_id'' server = Some p)
      (response_messages presence @ older) = None"
    using assms(2) by (auto simp: find_None_iff)
  then have "fetch_presence from_str presence (Some (code, Some (older @ presence_message p ?a # newer))) p
      = Some (JObject (obj_insert ''peer_id'' (JString p) (obj_insert ''client_id'' (JString p)
          (with_probe probe (with_addresses endpoint addrs b)))))"
    using assms(1)
    by (simp add: fetch_presence_def unique_servers_find find_map_filter obj find_append
        del: map_filter_append split: option.splits)
  then show thesis using that b(2-) by blast
qed

text \<open>
  C18: what a host announces is what others list. When a message posted by \<open>enter_presence\<close> is the
  first the channel holds for its peer, the listing has a room for that peer with its id in
  both id fields, with the announced room name and password flag, with the endpoint iff the
  host knows its public address, and with the version and the player counts of the probe.
\<close>

theorem announcement_round_trip:
  assumes "is_success code"
    and "\<forall>msg \<in> set (response_messages presence @ older).
       \<forall>server. server_of from_str msg = Some server \<longrightarrow> get_str ''peer_id'' server \<noteq> Some p"
  shows "\<exists>server.
    fetch_presence from_str presence (Some (code, Some (older
      @ presence_message p (host_announcement p room nick version has_password endpoint addrs probe) # newer)))
      p = Some server
    \<and> get_str ''peer_id'' server = Some p \<and> get_str ''client_id'' server = Some p
    \<and> get_str ''room_name'' server = Some room
    \<and> json_get ''has_password'' server = Some (JBool has_password)
    \<and> get_str ''endpoint'' server = endpoint \<and> get_str ''local_ip'' server = addrs
    \<and> get_str ''host_name'' server = Some (case nick of Some n \<Rightarrow> n | None \<Rightarrow> ''Minecraft Host'')
    \<and> json_get ''slots'' server = Some (JPosInt (case probe of Some q \<Rightarrow> ucast (ep_online_players q) | None \<Rightarrow> 0))
    \<and> json_get ''maxPlayers'' server = Some (JPosInt (case probe of Some q \<Rightarrow> ucast (ep_max_players q) | None \<Rightarrow> 0))
    \<and> get_str ''game_version'' server = Some (case Option.bind probe ep_version of Some v \<Rightarrow> v
         | None \<Rightarrow> (case version of Some v \<Rightarrow> v | None \<Rightarrow> ''Unknown''))"
proof -
  obtain b where l: "fetch_presence from_str presence (Some (code, Some (older
      @ presence_message p (host_announcement p room nick version has_password endpoint addrs probe) # newer))) p
      = Some (JObject (obj_insert ''peer_id'' (JString p) (obj_insert ''client_id'' (JString p)
          (with_probe probe (with_addresses endpoint addrs b)))))"
    and b: "map_of b ''room_name'' = Some (JString room)"
      "map_of b ''has_password'' = Some (JBool has_password)"
      "map_of b ''endpoint'' = None" "map_of b ''local_ip'' = None"
      "map_of b ''host_name'' = Some (JString (case nick of Some n \<Rightarrow> n | None \<Rightarrow> ''Minecraft Host''))"
      "map_of b ''slots'' = Some (JPosInt 0)" "map_of b ''maxPlayers'' = Some (JPosInt 0)"
      "map_of b ''game_version'' = Some (JString (case version of Some v \<Rightarrow> v | None \<Rightarrow> ''Unknown''))"
    by (rule announcement_listed [OF assms])
  have "Option.bind (map_option JString x) as_str = x" for x by (cases x) simp_all
  with l b show ?thesis by (simp add: with_probe_fields with_addresses_fields)
qed

theorem announcement_round_trip_witness:
  "\<exists>server. fetch_presence (\<lambda>_. None) None (Some (200, Some
      [presence_message ''id'' (host_announcement ''id'' ''room'' None None True (Some ''192.0.2.1:5'') None None)]))
      ''id'' = Some server \<and> get_str ''room_name'' server = Some ''room''
      \<and> get_str ''endpoint'' server = Some ''192.0.2.1:5''"
proof -
  have "response_messages None = []" by (simp add: response_messages_def)
  then show ?thesis
    using announcement_round_trip [of 200 None "[]" "\<lambda>_. None" "''id''" "''room''" None None True
        "Some ''192.0.2.1:5''" None None "[]"]
    by (auto simp: is_success_def)
qed

section \<open>The own room\<close>

lemma started_host_status:
  "start_hosting e room pw port e4 ver fd m = (Inr r, m') \<Longrightarrow>
     ns_mode (mg_status m') = ModeHost \<and> ns_room_code (mg_status m') = Some (trim room)"
  by (auto simp: start_hosting_def start_hosting_inner_def install_host_def mgr_prim_defs
      host_active_status_def Let_def split: if_splits prod.splits sum.splits)

text \<open>
  The writers of the status that leave the mode and the room alone: all but the overwriting
  ones, with which a session begins, fails or is cleared, and the two of a client.
\<close>

fun keeps_room :: "status_op \<Rightarrow> bool" where
  "keeps_room (OpOverwrite _) = False"
| "keeps_room OpClientStarting = False"
| "keeps_room (OpHandshakeConfirmed _) = False"
| "keeps_room _ = True"

lemma keeps_room_step:
  "keeps_room op \<Longrightarrow> ns_mode (status_step op s) = ns_mode s \<and> ns_room_code (status_step op s) = ns_room_code s"
  by (cases op) (simp_all add: status_defs Let_def split: option.split)

lemma keeps_room_steps:
  "list_all keeps_room ops \<Longrightarrow> ns_mode (fold status_step ops s) = ns_mode s
     \<and> ns_room_code (fold status_step ops s) = ns_room_code s"
  by (induction ops arbitrary: s) (simp_all add: keeps_room_step)

lemma started_host_control:
  assumes "start_hosting e room pw port e4 ver fd m = (Inr r, m')"
  obtains rt host where "mg_session m' = Some rt" and "sr_control rt = CHost host"
    and "hc_peer_id host = he_uuid e" and "hc_room_name host = trim room"
proof -
  obtain rt host where "mg_session m' = Some rt \<and> sr_control rt = CHost host
      \<and> hc_peer_id host = he_uuid e \<and> hc_room_name host = trim room"
    using assms by (fastforce simp: start_hosting_def start_hosting_inner_def install_host_def mgr_prim_defs Let_def
        split: if_splits prod.splits sum.splits)
  then show thesis using that by blast
qed

lemma tick_announcement:
  "\<exists>q. fst (lobby_tick p room nick ver pw endpoint addrs probe s) =
     host_announcement p room nick ver pw endpoint addrs q"
  by (auto simp: lobby_tick_def split: sum.split)

text \<open>
  C20: a host sees its own room in its lobby. \<open>refresh_lobby\<close> means to leave it out but takes the
  room's name for the host's id, while the host announces itself under the identifier drawn
  when it started. As long as nothing overwrites the status or makes it a client's - through
  every sequence of the other writes - what the host's lobby loop announces, listed like any
  room, passes its own filter, unless that identifier happens to be the room's name; and
  what the filter does leave out is the room of any peer whose id is the name of this room.
\<close>

theorem own_room_not_hidden:
  assumes "start_hosting e room pw port e4 ver fd m = (Inr r, m')" and "he_uuid e \<noteq> trim room"
    and "list_all keeps_room ops" and "is_success code"
    and "\<forall>msg \<in> set (response_messages presence @ older).
       \<forall>server. server_of from_str msg = Some server \<longrightarrow> get_str ''peer_id'' server \<noteq> Some (he_uuid e)"
  shows "\<exists>rt host server. mg_session m' = Some rt \<and> sr_control rt = CHost host \<and> hc_peer_id host = he_uuid e
    \<and> refresh_lobby (fold status_step ops (mg_status m'))
        (fetch_presence from_str presence (Some (code, Some (older
           @ presence_message (hc_peer_id host) (fst (lobby_tick (hc_peer_id host) (hc_room_name host) nick version
               has_password endpoint addrs probe s)) # newer)))) (he_uuid e) = Some server
    \<and> get_str ''room_name'' server = Some (trim room)
    \<and> (\<forall>listing p other. listing p = Some other \<longrightarrow> get_str ''client_id'' other = Some p \<longrightarrow>
         refresh_lobby (fold status_step ops (mg_status m')) listing p =
           (if p = trim room then None else Some other))"
proof -
  obtain rt host where host: "mg_session m' = Some rt" "sr_control rt = CHost host"
    "hc_peer_id host = he_uuid e" "hc_room_name host = trim room"
    by (rule started_host_control [OF assms(1)])
  let ?s = "fold status_step ops (mg_status m')"
  have own: "own_peer_id ?s = Some (trim room)"
    using started_host_status [OF assms(1)] keeps_room_steps [OF assms(3)] by (simp add: own_peer_id_def)
  have filtered: "refresh_lobby ?s listing p = (if p = trim room then None else Some other)"
    if "listing p = Some other" "get_str ''client_id'' other = Some p" for listing p other
    using that by (simp add: refresh_lobby_def own foreign_room_def)
  obtain q where q: "fst (lobby_tick (he_uuid e) (trim room) nick version has_password endpoint addrs probe s) =
      host_announcement (he_uuid e) (trim room) nick version has_password endpoint addrs q"
    using tick_announcement by blast
  obtain b where listed: "fetch_presence from_str presence (Some (code, Some (older
      @ presence_message (he_uuid e) (host_announcement (he_uuid e) (trim room) nick version has_password
          endpoint addrs q) # newer))) (he_uuid e)
      = Some (JObject (obj_insert ''peer_id'' (JString (he_uuid e)) (obj_insert ''client_id'' (JString (he_uuid e))
          (with_probe q (with_addresses endpoint addrs b)))))"
    and b: "map_of b ''room_name'' = Some (JString (trim room))"
    by (rule announcement_listed [OF assms(4,5)])
  let ?server = "JObject (obj_insert ''peer_id'' (JString (he_uuid e)) (obj_insert ''client_id'' (JString (he_uuid e))
          (with_probe q (with_addresses endpoint addrs b))))"
  have "get_str ''client_id'' ?server = Some (he_uuid e)" "get_str ''room_name'' ?server = Some (trim room)"
    using b by (simp_all add: with_probe_fields with_addresses_fields)
  then have "refresh_lobby ?s (fetch_presence from_str presence (Some (code, Some (older
      @ presence_message (he_uuid e) (host_announcement (he_uuid e) (trim room) nick version has_password
          endpoint addrs q) # newer)))) (he_uuid e) = Some ?server"
    and "get_str ''room_name'' ?server = Some (trim room)"
    using filtered [where p = "he_uuid e"] listed assms(2) by auto
  then show ?thesis
    using host q filtered by (intro exI [of _ rt] exI [of _ host] exI [of _ ?server]) auto
qed

theorem own_room_not_hidden_witness:
  "\<exists>server. refresh_lobby
      (push_log (Lit ''later'') (mg_status (snd (start_hosting sample_host_env ''room'' None 25565 True None False new_manager))))
      (fetch_presence (\<lambda>_. None) None (Some (200, Some [presence_message ''h''
         (fst (lobby_tick ''h'' ''room'' None None False None None (Inl []) initial_status))]))) ''h'' = Some server
    \<and> get_str ''room_name'' server = Some ''room''"
proof -
  obtain r m' where run: "start_hosting sample_host_env ''room'' None 25565 True None False new_manager = (Inr r, m')"
    by (simp add: trim_room run_manager_defs)
  have h: "he_uuid sample_host_env = ''h''" by (simp add: sample_host_env_def)
  obtain rt host where host: "mg_session m' = Some rt" "sr_control rt = CHost host"
    "hc_peer_id host = he_uuid sample_host_env" "hc_room_name host = trim ''room''"
    by (rule started_host_control [OF run])
  have c: "is_success 200" "response_messages None = []" by (simp_all add: is_success_def response_messages_def)
  show ?thesis
    using own_room_not_hidden [OF run, of "[OpPushLog (Lit ''later'')]" 200 None "[]" "\<lambda>_. None" None None False None None
        "Inl []" initial_status "[]"] host c
    by (auto simp: run trim_room h)
qed

section \<open>Reconnection\<close>

lemma sse_delay: "snd (sse_connection from_str channel d es) \<in> {d, 500}"
  by (induction es arbitrary: d)
    (auto split: sse_event.split prod.split simp: Let_def, metis insertE singletonD snd_conv)

text \<open>
  the delay before a reconnection never leaves the range from half a second to ten
  seconds.
\<close>

theorem sse_delays_bounded:
  assumes "500 \<le> d" and "d \<le> 10000"
  shows "\<forall>t \<in> set (snd (subscribe_lobby_events from_str channel d cs)). 500 \<le> t \<and> t \<le> 10000"
  using assms
proof (induction cs arbitrary: d)
  case (Cons c cs)
  obtain em s where c: "sse_connection from_str channel d c = (em, s)" by fastforce
  have s: "s = d \<or> s = 500" using sse_delay [of from_str channel d c] c by simp
  then have "\<forall>t \<in> set (snd (subscribe_lobby_events from_str channel (min (s * 2) 10000) cs)).
      500 \<le> t \<and> t \<le> 10000"
    using Cons.prems by (intro Cons.IH) auto
  then show ?case using s Cons.prems by (auto simp: c split: prod.split)
qed simp

theorem sse_delays_bounded_witness:
  "snd (subscribe_lobby_events (\<lambda>_. None) ''lobby:id'' 500 [[], [SseError], [SseOpen, SseError]]) = [500, 1000, 500]
   \<and> length (filter (\<lambda>t. 10000 < t) (snd (subscribe_lobby_events (\<lambda>_. None) ''lobby:id'' 500
        [[], [SseError], [SseOpen, SseError]]))) = 0"
proof
  show "snd (subscribe_lobby_events (\<lambda>_. None) ''lobby:id'' 500 [[], [SseError], [SseOpen, SseError]]) =
      [500, 1000, 500]" by simp
  show "length (filter (\<lambda>t. 10000 < t) (snd (subscribe_lobby_events (\<lambda>_. None) ''lobby:id'' 500
        [[], [SseError], [SseOpen, SseError]]))) = 0"
    using sse_delays_bounded [of 500 "\<lambda>_. None" "''lobby:id''" "[[], [SseError], [SseOpen, SseError]]"]
    by (auto simp: filter_empty_conv not_less)
qed

end
