(* ===== verification/Stun.thy ===== *)
theory Stun
  imports Net_Addr
begin

text \<open>
  STUN as the program speaks it: \<open>signaling.rs\<close> (the request, the response parser with its
  two address decoders, the discovery loop, the hole-punching targets) and \<open>stun.rs\<close> (a
  second request and parser, and the classification of the NAT). The transaction id, the
  DNS answers, the clock and the datagrams received are arguments.
\<close>

section \<open>Wire format\<close>

definition STUN_MAGIC :: u32 where [wire_consts]: "STUN_MAGIC = 0x2112A442"
definition STUN_BINDING_REQUEST :: u16 where [wire_consts]: "STUN_BINDING_REQUEST = 0x0001"
definition STUN_BINDING_RESPONSE :: u16 where [wire_consts]: "STUN_BINDING_RESPONSE = 0x0101"
definition STUN_ATTR_XOR_MAPPED :: u16 where [wire_consts]: "STUN_ATTR_XOR_MAPPED = 0x0020"
definition STUN_ATTR_MAPPED :: u16 where [wire_consts]: "STUN_ATTR_MAPPED = 0x0001"

text \<open>\<open>u16::from_be_bytes([p[i], p[i + 1]])\<close>.\<close>

definition u16_at :: "bytes \<Rightarrow> nat \<Rightarrow> u16" where
  "u16_at p i = from_be [p ! i, p ! (i + 1)]"

text \<open>\<open>[u8; 20]\<close> filled in place: type, zero length, cookie, transaction id.\<close>

definition build_stun_binding_request :: "bytes \<Rightarrow> bytes" where
  "build_stun_binding_request uuid =
     (let request = (replicate 20 0)[0 := 0, 1 := 1];
          request = take 4 request @ to_be (0x2112A442 :: u32) @ drop 8 request
      in take 8 request @ take 12 uuid)"

definition stun_packet :: "bytes \<Rightarrow> bytes" where
  "stun_packet uuid =
     to_be STUN_BINDING_REQUEST @ to_be (0 :: u16) @ to_be STUN_MAGIC @ take 12 uuid"

section \<open>The parser of \<open>signaling.rs\<close>\<close>

definition parse_xor_mapped_address :: "bytes \<Rightarrow> sock_addr option" where
  "parse_xor_mapped_address v =
     (if length v < 8 \<or> v ! 1 \<noteq> 1 then None
      else
        let port = from_be [v ! 2, v ! 3] XOR ucast (drop_bit 16 (0x2112A442 :: u32));
            cookie = to_be (0x2112A442 :: u32)
        in Some (SockV4 (v ! 4 XOR cookie ! 0) (v ! 5 XOR cookie ! 1) (v ! 6 XOR cookie ! 2)
                   (v ! 7 XOR cookie ! 3) port))"

definition parse_mapped_address :: "bytes \<Rightarrow> sock_addr option" where
  "parse_mapped_address v =
     (if length v < 8 \<or> v ! 1 \<noteq> 1 then None
      else Some (SockV4 (v ! 4) (v ! 5) (v ! 6) (v ! 7) (from_be [v ! 2, v ! 3])))"

function parse_attributes :: "bytes \<Rightarrow> nat \<Rightarrow> sock_addr option" where
  "parse_attributes payload offset =
     (if offset + 4 \<le> length payload then
        let attr_type = u16_at payload offset;
            attr_len = unat (u16_at payload (offset + 2));
            value_start = offset + 4;
            value_end = value_start + attr_len;
            next = next_multiple_of value_end 4
        in if value_end > length payload then None
           else
             let value = take attr_len (drop value_start payload);
                 found = (if attr_type = 0x0020 then parse_xor_mapped_address value
                          else if attr_type = 0x0001 then parse_mapped_address value
                          else None)
             in case found of Some addr \<Rightarrow> Some addr | None \<Rightarrow> parse_attributes payload next
      else None)"
  by pat_completeness auto
termination
  by (relation "measure (\<lambda>(p, i). length p + 4 - i)")
    (auto simp: Let_def intro!: diff_less_mono2 less_le_trans [OF _ next_multiple_of_ge])

definition parse_stun_binding_response :: "bytes \<Rightarrow> bytes \<Rightarrow> anyhow + sock_addr" where
  "parse_stun_binding_response request payload =
     (if length payload < 20 then Inl [''short STUN response'']
      else if u16_at payload 0 \<noteq> 0x0101 then Inl [''unexpected STUN response type'']
      else if take 12 (drop 8 payload) \<noteq> take 12 (drop 8 request)
        then Inl [''STUN transaction id mismatch'']
      else case parse_attributes payload 20 of
          Some addr \<Rightarrow> Inr addr
        | None \<Rightarrow> Inl [''no mapped address in STUN response''])"

section \<open>The parser of \<open>stun.rs\<close>\<close>

definition ipv4_of_u32 :: "u32 \<Rightarrow> u16 \<Rightarrow> sock_addr" where
  "ipv4_of_u32 ip port = (let octet = to_be ip in SockV4 (octet ! 0) (octet ! 1) (octet ! 2) (octet ! 3) port)"

function scan_attributes :: "bytes \<Rightarrow> nat \<Rightarrow> nat \<Rightarrow> sock_addr option" where
  "scan_attributes buf attrs_end offset =
     (if offset + 4 \<le> attrs_end then
        let attr_type = u16_at buf offset;
            attr_len = unat (u16_at buf (offset + 2));
            attr_start = offset + 4;
            attr_end = attr_start + attr_len
        in if attr_end > attrs_end then None
           else if attr_type = STUN_ATTR_XOR_MAPPED \<and> attr_len \<ge> 8 \<and> buf ! (attr_start + 1) = 1 then
             Some (ipv4_of_u32
               (from_be [buf ! (attr_start + 4), buf ! (attr_start + 5), buf ! (attr_start + 6),
                         buf ! (attr_start + 7)] XOR STUN_MAGIC)
               (u16_at buf (attr_start + 2) XOR ucast (drop_bit 16 STUN_MAGIC)))
           else if attr_type = STUN_ATTR_MAPPED \<and> attr_len \<ge> 8 \<and> buf ! (attr_start + 1) = 1 then
             Some (SockV4 (buf ! (attr_start + 4)) (buf ! (attr_start + 5)) (buf ! (attr_start + 6))
                     (buf ! (attr_start + 7)) (u16_at buf (attr_start + 2)))
           else scan_attributes buf attrs_end (attr_end + (4 - attr_len mod 4) mod 4)
      else None)"
  by pat_completeness auto
termination
  by (relation "measure (\<lambda>(b, e, i). e + 4 - i)") auto

text \<open>\<open>format!("{:04x}")\<close>.\<close>

definition hex4 :: "nat \<Rightarrow> string" where
  "hex4 n = (let s = show_hex n in replicate (4 - length s) (CHR ''0'') @ s)"

text \<open>What \<open>stun_binding_request\<close> makes of the datagram it received into its 512 bytes.\<close>

definition read_binding_response :: "bytes \<Rightarrow> bytes \<Rightarrow> anyhow + sock_addr" where
  "read_binding_response tx_id datagram =
     (let buf = take 512 datagram; len = length buf
      in if len < 20 then Inl [''STUN response too short'']
         else if u16_at buf 0 \<noteq> STUN_BINDING_RESPONSE
           then Inl [''unexpected STUN message type: 0x'' @ hex4 (unat (u16_at buf 0))]
         else if take 12 (drop 8 buf) \<noteq> tx_id then Inl [''STUN transaction ID mismatch'']
         else
           let attrs_len = unat (u16_at buf 2); attrs_end = min (20 + attrs_len) len
           in case scan_attributes buf attrs_end 20 of
                Some addr \<Rightarrow> Inr addr
              | None \<Rightarrow> Inl [''no MAPPED-ADDRESS in STUN response''])"

text \<open>
  \<open>stun_binding_request\<close>: the request goes to the first address the server resolves to; the
  answer is none when three seconds pass, and \<open>uuid\<close> gives the transaction id.
\<close>

definition rand_tx_id :: "bytes \<Rightarrow> bytes" where
  "rand_tx_id uuid_bytes = take 12 uuid_bytes"

definition stun_binding_request ::
  "string \<Rightarrow> anyhow + sock_addr list \<Rightarrow> bytes \<Rightarrow> (bytes \<Rightarrow> sock_addr \<Rightarrow> anyhow + unit) \<Rightarrow>
     (anyhow + bytes) option \<Rightarrow> anyhow + sock_addr" where
  "stun_binding_request server lookup uuid send_to answer =
     and_then (with_context ''DNS lookup STUN server failed'' lookup) (\<lambda>resolved.
       case resolved of
         [] \<Rightarrow> Inl [''STUN server '' @ server @ '' does not resolve'']
       | server_addr # _ \<Rightarrow>
           and_then (send_to (stun_packet uuid) server_addr) (\<lambda>_.
             case answer of
               None \<Rightarrow> Inl [''STUN timeout'', ''deadline has elapsed'']
             | Some received \<Rightarrow>
                 and_then (with_context ''STUN recv failed'' received) (\<lambda>datagram.
                   read_binding_response (rand_tx_id uuid) datagram)))"

declare parse_attributes.simps [simp del] scan_attributes.simps [simp del]

section \<open>NAT classification\<close>

record nat_type_result =
  nt_nat_type :: string
  nt_public_ip :: "string option"
  nt_public_port :: "u16 option"
  nt_mapped_addresses :: "string list"
  nt_note :: string

definition STUN_SERVERS :: "string list" where
  "STUN_SERVERS = [''stun.yandex.ru:3478'', ''stun.sipnet.net:3478'', ''stun.l.google.com:19302'',
     ''stun1.l.google.com:19302'', ''stun.cloudflare.com:3478'']"

definition nat_failure :: "string \<Rightarrow> string \<Rightarrow> nat_type_result" where
  "nat_failure t note = \<lparr>nt_nat_type = t, nt_public_ip = None, nt_public_port = None,
                    nt_mapped_addresses = [], nt_note = note\<rparr>"

text \<open>
  \<open>detect_nat_type\<close> over the result of the bind and of the binding requests to the servers of
  the list, of which the first two are asked; \<open>{e}\<close> shows the outermost context.
\<close>

fun answers :: "(anyhow + sock_addr) list \<Rightarrow> sock_addr list" where
  "answers [] = []"
| "answers (Inr a # rs) = a # answers rs"
| "answers (Inl e # rs) = answers rs"

fun request_errors :: "(string \<times> (anyhow + sock_addr)) list \<Rightarrow> string list" where
  "request_errors [] = []"
| "request_errors ((server, Inr a) # rs) = request_errors rs"
| "request_errors ((server, Inl e) # rs) = (server @ '': '' @ alt_format (take 1 e)) # request_errors rs"

definition nat_note :: "string \<Rightarrow> sock_addr list \<Rightarrow> string" where
  "nat_note nat_type mapped =
     (if nat_type = ''open'' then
        ''NAT type: Open / Full Cone. Public address: '' @ show_addr (mapped ! 0) @ ''. P2P works very well.''
      else if nat_type = ''symmetric'' then
        ''NAT type: Symmetric. The port changes for every connection ('' @ show_addr (mapped ! 0)
          @ '' vs '' @ show_addr (mapped ! 1)
          @ ''). P2P QUIC hole-punching may not work. The WSS relay is recommended.''
      else if nat_type = ''multiple_ips'' then
        ''Several public IPs found ('' @ show_addr (mapped ! 0) @ '' and '' @ show_addr (mapped ! 1)
          @ ''). There may be a load balancer or several layers of NAT.''
      else [])"

definition detect_nat_type :: "string + unit \<Rightarrow> (anyhow + sock_addr) list \<Rightarrow> nat_type_result" where
  "detect_nat_type bound results =
     (case bound of
        Inl e \<Rightarrow> nat_failure ''error'' (''Failed to bind UDP socket to 0.0.0.0:0: '' @ e)
      | Inr _ \<Rightarrow>
          let asked = take 2 (zip STUN_SERVERS results);
              mapped = answers (map snd asked)
          in if mapped = [] then
               nat_failure ''blocked''
                 (''No STUN server is available. UDP is most likely blocked. Errors: ''
                   @ join ''; '' (request_errors asked))
             else
               let public_ip = Some (show_ip (sa_ip (mapped ! 0)));
                   public_port = Some (sa_port (mapped ! 0));
                   mapped_strs = map show_addr mapped
               in if length mapped = 1 then
                    \<lparr>nt_nat_type = ''restricted'', nt_public_ip = public_ip,
                     nt_public_port = public_port, nt_mapped_addresses = mapped_strs,
                     nt_note = ''One STUN server answered ('' @ show_addr (mapped ! 0)
                       @ ''), the other is not available. The NAT is most likely Restricted or Port-Restricted. P2P is possible with hole-punching.''\<rparr>
                  else
                    let same_ip = (sa_ip (mapped ! 0) = sa_ip (mapped ! 1));
                        same_port = (sa_port (mapped ! 0) = sa_port (mapped ! 1));
                        nat_type = (if same_ip \<and> same_port then ''open''
                                    else if same_ip \<and> \<not> same_port then ''symmetric''
                                    else ''multiple_ips'')
                    in \<lparr>nt_nat_type = nat_type, nt_public_ip = public_ip,
                        nt_public_port = public_port, nt_mapped_addresses = mapped_strs,
                        nt_note = nat_note nat_type mapped\<rparr>)"

text \<open>The bind test of a local TCP port; \<open>try_bind\<close> gives the error of the operating system.\<close>

definition preflight_port_check :: "(string \<Rightarrow> string + unit) \<Rightarrow> u16 \<Rightarrow> anyhow + unit" where
  "preflight_port_check try_bind port =
     (case try_bind (''127.0.0.1:'' @ show_word port) of
        Inr _ \<Rightarrow> Inr ()
      | Inl e \<Rightarrow> Inl [''Port '' @ show_word port @ '' on 127.0.0.1 is already used by another process: '' @ e
          @ ''. Close the application that uses this port or choose another one.''])"

section \<open>Discovery\<close>

definition DEFAULT_STUN_SERVERS :: string where
  "DEFAULT_STUN_SERVERS =
     ''stun.cloudflare.com:3478,stun.l.google.com:19302,stun.yandex.ru:3478,stun.sipnet.net:3478''"

definition stun_from_env :: "string option \<Rightarrow> string list" where
  "stun_from_env var =
     filter (\<lambda>value. value \<noteq> []) (map trim (split_on (CHR '','')
       (case var of Some v \<Rightarrow> v | None \<Rightarrow> DEFAULT_STUN_SERVERS)))"

text \<open>
  One pass of the receive loop reads the clock twice (nanoseconds since the round began);
  then a datagram arrives in the remaining time, or not. \<open>Duration\<close> subtraction panics
  below zero.
\<close>

record receive =
  rc_elapsed1 :: nat
  rc_elapsed2 :: nat
  rc_datagram :: "bytes option"

datatype discovery = Panics | Found sock_addr | NotFound

definition ROUND_NS :: nat where
  "ROUND_NS = 900 * 1000000"

fun receive_round :: "bytes \<Rightarrow> receive list \<Rightarrow> discovery" where
  "receive_round request [] = NotFound"
| "receive_round request (r # rs) =
     (if rc_elapsed1 r < ROUND_NS then
        if ROUND_NS < rc_elapsed2 r then Panics
        else case rc_datagram r of
            Some d \<Rightarrow>
              (case parse_stun_binding_response request (take 1024 d) of
                 Inr addr \<Rightarrow> Found addr
               | Inl _ \<Rightarrow> receive_round request rs)
          | None \<Rightarrow> NotFound
      else NotFound)"

fun discover_rounds :: "bytes \<Rightarrow> receive list list \<Rightarrow> discovery" where
  "discover_rounds request [] = NotFound"
| "discover_rounds request (r # rs) =
     (case receive_round request r of
        NotFound \<Rightarrow> discover_rounds request rs
      | res \<Rightarrow> res)"

text \<open>\<open>addrs.find(SocketAddr::is_ipv4)\<close> of every server that resolves.\<close>

fun is_ipv4 :: "sock_addr \<Rightarrow> bool" where
  "is_ipv4 (SockV4 a b c d p) = True"
| "is_ipv4 (SockV6 w p s) = False"

fun resolve_servers :: "(anyhow + sock_addr list) list \<Rightarrow> sock_addr list" where
  "resolve_servers [] = []"
| "resolve_servers (r # rs) =
     (case r of Inr addrs \<Rightarrow> (case find is_ipv4 addrs of Some a \<Rightarrow> [a] | None \<Rightarrow> []) | Inl _ \<Rightarrow> [])
     @ resolve_servers rs"

definition discover_public_addr ::
  "string list \<Rightarrow> (string \<Rightarrow> anyhow + sock_addr list) \<Rightarrow> bytes \<Rightarrow> receive list list \<Rightarrow>
     anyhow + discovery" where
  "discover_public_addr stun_servers lookup_host uuid rounds =
     (if stun_servers = [] then Inl [''no STUN servers configured'']
      else if resolve_servers (map lookup_host stun_servers) = []
        then Inl [''failed to resolve any IPv4 STUN servers'']
      else case discover_rounds (build_stun_binding_request uuid) (take 4 rounds) of
          NotFound \<Rightarrow> Inl [''STUN requests to all servers timed out'']
        | res \<Rightarrow> Inr res)"

section \<open>Hole punching\<close>

definition PUNCH_FAST_BURST_PACKETS :: nat where "PUNCH_FAST_BURST_PACKETS = 150"
definition PUNCH_SUSTAIN_PACKETS :: nat where "PUNCH_SUSTAIN_PACKETS = 150"

definition punch_targets :: "sock_addr \<Rightarrow> sock_addr list" where
  "punch_targets remote =
     remote # concat (map (\<lambda>offset.
       (case checked_add (sa_port remote) offset of Some p \<Rightarrow> [set_port p remote] | None \<Rightarrow> []) @
       (case checked_sub (sa_port remote) offset of Some p \<Rightarrow> [set_port p remote] | None \<Rightarrow> []))
       (map word_of_nat [1..<101]))"

text \<open>The sends of one of the two loops, until the token is cancelled after \<open>n\<close> packets.\<close>

definition punch_loop :: "sock_addr \<Rightarrow> sock_addr list \<Rightarrow> nat \<Rightarrow> sock_addr list" where
  "punch_loop remote targets n =
     concat (map (\<lambda>i. let target = targets ! (i mod length targets)
                      in remote # (if target \<noteq> remote then [target] else [])) [0..<n])"

definition punch_remote :: "sock_addr \<Rightarrow> nat \<Rightarrow> nat \<Rightarrow> sock_addr list" where
  "punch_remote remote cancelled_in_burst cancelled_in_sustain =
     (let targets = punch_targets remote
      in punch_loop remote targets (min PUNCH_FAST_BURST_PACKETS cancelled_in_burst) @
         punch_loop remote targets (min PUNCH_SUSTAIN_PACKETS cancelled_in_sustain))"

definition punch_payload :: "string \<Rightarrow> string \<Rightarrow> bytes" where
  "punch_payload room_code peer_id =
     as_bytes (''MCP2P-PUNCH|'' @ room_code @ ''|'' @ peer_id)"

section \<open>Lemmas\<close>

lemma u16_at_append_be: "length xs = i \<Longrightarrow> u16_at (xs @ to_be w @ ys) i = w"
proof -
  assume i: "length xs = i"
  have l: "length (to_be w) = 2" by simp
  then have "[(xs @ to_be w @ ys) ! i, (xs @ to_be w @ ys) ! (i + 1)] = to_be w"
    using i by (cases "to_be w") (auto simp: nth_append length_Suc_conv numeral_2_eq_2)
  then show ?thesis by (simp add: u16_at_def)
qed

text \<open>Exclusive or, byte by byte and as a word.\<close>

lemma be32_parts: "[w0, w1, w2, w3] = to_be (from_be [w0, w1, w2, w3] :: u32)"
  by (simp add: be32.enc_dec)

lemma ipv4_of_xor:
  "ipv4_of_u32 (from_be [a, b, c, d] XOR m) p =
     (let k = to_be m in SockV4 (a XOR k ! 0) (b XOR k ! 1) (c XOR k ! 2) (d XOR k ! 3) p)"
proof -
  obtain k0 k1 k2 k3 where k: "to_be m = [k0, k1, k2, k3]"
    using nth4 [of "to_be m"] by auto
  have "to_be (from_be [a, b, c, d] XOR m) = [a XOR k0, b XOR k1, c XOR k2, d XOR k3]"
    by (simp add: to_be_xor be32_parts [symmetric] k)
  then show ?thesis by (simp add: ipv4_of_u32_def k)
qed

lemma next_multiple_of_4: "next_multiple_of n 4 = n + (4 - n mod 4) mod 4"
  by (auto simp: next_multiple_of_def)

lemma found_attribute:
  assumes "length v = l" and "\<And>i. i < l \<Longrightarrow> v ! i = buf ! (s + i)"
  shows "(if ty = 0x20 then parse_xor_mapped_address v
          else if ty = 1 then parse_mapped_address v else None) =
        (if ty = STUN_ATTR_XOR_MAPPED \<and> 8 \<le> l \<and> buf ! (s + 1) = 1 then
           Some (ipv4_of_u32 (from_be [buf ! (s + 4), buf ! (s + 5), buf ! (s + 6), buf ! (s + 7)]
               XOR STUN_MAGIC)
             (u16_at buf (s + 2) XOR ucast (drop_bit 16 STUN_MAGIC)))
         else if ty = STUN_ATTR_MAPPED \<and> 8 \<le> l \<and> buf ! (s + 1) = 1 then
           Some (SockV4 (buf ! (s + 4)) (buf ! (s + 5)) (buf ! (s + 6)) (buf ! (s + 7))
             (u16_at buf (s + 2)))
         else None)"
proof (cases "8 \<le> l")
  case True
  then have "v ! 1 = buf ! (s + 1)" "v ! 2 = buf ! (s + 2)" "v ! 3 = buf ! (s + 3)"
    "v ! 4 = buf ! (s + 4)" "v ! 5 = buf ! (s + 5)" "v ! 6 = buf ! (s + 6)" "v ! 7 = buf ! (s + 7)"
    using assms(2) [of 1] assms(2) [of 2] assms(2) [of 3] assms(2) [of 4] assms(2) [of 5]
      assms(2) [of 6] assms(2) [of 7] by simp_all
  moreover have "s + 3 = Suc (Suc (Suc s))" by simp
  ultimately show ?thesis
    using True assms(1)
    by (simp add: parse_xor_mapped_address_def parse_mapped_address_def ipv4_of_xor u16_at_def
        Let_def STUN_ATTR_XOR_MAPPED_def STUN_ATTR_MAPPED_def STUN_MAGIC_def add.assoc)
next
  case False
  then show ?thesis
    using assms(1) by (simp add: parse_xor_mapped_address_def parse_mapped_address_def)
qed

text \<open>The two attribute scanners agree on the attributes within \<open>attrs_end\<close>.\<close>

lemma scan_parse:
  assumes "n \<le> length buf" and "offset mod 4 = 0"
  shows "scan_attributes buf n offset = parse_attributes (take n buf) offset"
  using assms
proof (induction buf n offset rule: scan_attributes.induct)
  case (1 buf n offset)
  let ?l = "unat (u16_at buf (offset + 2))"
  let ?e = "offset + 4 + ?l"
  let ?v = "take ?l (drop (offset + 4) (take n buf))"
  show ?case
  proof (cases "offset + 4 \<le> n \<and> ?e \<le> n")
    case True
    have at: "u16_at (take n buf) i = u16_at buf i" if "i + 1 < n" for i
      using that by (simp add: u16_at_def)
    have v: "?v ! i = buf ! (offset + 4 + i)" if "i < ?l" for i
      using that True 1(2) by simp
    have len: "length ?v = ?l" using True 1(2) by (auto simp: min_def)
    have "?l mod 4 = ?e mod 4" using 1(3) by presburger
    then have nxt: "next_multiple_of ?e 4 = ?e + (4 - ?l mod 4) mod 4"
      by (simp only: next_multiple_of_4)
    have "next_multiple_of ?e 4 mod 4 = 0" by (rule next_multiple_of_mod) simp
    then have IH: "scan_attributes buf n (next_multiple_of ?e 4) =
        parse_attributes (take n buf) (next_multiple_of ?e 4)"
      if "\<not> (u16_at buf offset = STUN_ATTR_XOR_MAPPED \<and> 8 \<le> ?l \<and> buf ! (offset + 4 + 1) = 1)"
        "\<not> (u16_at buf offset = STUN_ATTR_MAPPED \<and> 8 \<le> ?l \<and> buf ! (offset + 4 + 1) = 1)"
    proof -
      have "next_multiple_of ?e 4 mod 4 = 0" by (rule next_multiple_of_mod) simp
      then show ?thesis
        unfolding nxt using that True 1(2)
        by (intro 1(1) [OF _ refl refl refl refl]) (simp_all only: not_less simp_thms)
    qed
    note found = found_attribute [OF len v, of "u16_at buf offset"]
    let ?A = "u16_at buf offset = STUN_ATTR_XOR_MAPPED \<and> 8 \<le> ?l \<and> buf ! (offset + 4 + 1) = 1"
    let ?B = "u16_at buf offset = STUN_ATTR_MAPPED \<and> 8 \<le> ?l \<and> buf ! (offset + 4 + 1) = 1"
    let ?X = "ipv4_of_u32 (from_be [buf ! (offset + 4 + 4), buf ! (offset + 4 + 5),
        buf ! (offset + 4 + 6), buf ! (offset + 4 + 7)] XOR STUN_MAGIC)
      (u16_at buf (offset + 4 + 2) XOR ucast (drop_bit 16 STUN_MAGIC))"
    let ?Y = "SockV4 (buf ! (offset + 4 + 4)) (buf ! (offset + 4 + 5)) (buf ! (offset + 4 + 6))
      (buf ! (offset + 4 + 7)) (u16_at buf (offset + 4 + 2))"
    have "scan_attributes buf n offset = (if ?A then Some ?X else if ?B then Some ?Y
        else scan_attributes buf n (next_multiple_of ?e 4))"
      unfolding nxt using True by (subst scan_attributes.simps) (simp add: Let_def)
    moreover have "parse_attributes (take n buf) offset = (case (if u16_at buf offset = 0x20
          then parse_xor_mapped_address ?v
          else if u16_at buf offset = 1 then parse_mapped_address ?v else None) of
        Some addr \<Rightarrow> Some addr | None \<Rightarrow> parse_attributes (take n buf) (next_multiple_of ?e 4))"
      using True 1(2) by (subst parse_attributes.simps) (simp add: Let_def at split: option.split)
    ultimately show ?thesis using IH by (simp only: found split: if_split option.split) blast
  next
    case False
    then show ?thesis
      using 1(2)
      by (auto simp: scan_attributes.simps [of buf n offset] parse_attributes.simps [of "take n buf" offset]
          Let_def u16_at_def)
  qed
qed

text \<open>A response as RFC 5389 builds it, with attributes padded to four bytes.\<close>

definition stun_attribute :: "u16 \<Rightarrow> bytes \<Rightarrow> bytes" where
  "stun_attribute ty v = to_be ty @ to_be (word_of_nat (length v) :: u16) @ v
     @ replicate ((4 - length v mod 4) mod 4) 0"

definition stun_body :: "(u16 \<times> bytes) list \<Rightarrow> bytes" where
  "stun_body attrs = concat (map (\<lambda>(ty, v). stun_attribute ty v) attrs)"

definition stun_response :: "bytes \<Rightarrow> (u16 \<times> bytes) list \<Rightarrow> bytes" where
  "stun_response tx attrs = to_be STUN_BINDING_RESPONSE
     @ to_be (word_of_nat (length (stun_body attrs)) :: u16) @ to_be STUN_MAGIC @ tx @ stun_body attrs"

fun xor_mapped_value :: "sock_addr \<Rightarrow> bytes" where
  "xor_mapped_value (SockV4 a b c d p) =
     [0, 1] @ to_be (p XOR ucast (drop_bit 16 STUN_MAGIC)) @ map2 (XOR) [a, b, c, d] (to_be STUN_MAGIC)"
| "xor_mapped_value (SockV6 w p s) = []"

lemma length_stun_attribute: "length (stun_attribute ty v) mod 4 = 0"
  "4 + length v \<le> length (stun_attribute ty v)"
proof -
  have "(length v + (4 - length v mod 4) mod 4) mod 4 = 0"
    using next_multiple_of_mod [of 4 "length v"] by (simp add: next_multiple_of_4)
  then have "(4 + (length v + (4 - length v mod 4) mod 4)) mod 4 = 0"
    by (simp only: mod_add_self1)
  then show "length (stun_attribute ty v) mod 4 = 0" "4 + length v \<le> length (stun_attribute ty v)"
    by (simp_all add: stun_attribute_def)
qed

lemma next_attribute:
  assumes "length pre mod 4 = 0"
  shows "next_multiple_of (length pre + 4 + length v) 4 = length pre + length (stun_attribute ty v)"
proof -
  have "(length pre + (4 + length v)) mod 4 = (0 + (4 + length v)) mod 4"
    by (rule mod_add_cong) (simp_all add: assms)
  then have "(length pre + 4 + length v) mod 4 = length v mod 4" by (simp add: add.assoc)
  then show ?thesis by (simp add: next_multiple_of_4 stun_attribute_def)
qed

lemma parse_attributes_step:
  fixes pre v rest :: bytes and ty :: u16
  assumes "length pre mod 4 = 0" and "length v < 65536"
  defines "p \<equiv> pre @ stun_attribute ty v @ rest"
  shows "parse_attributes p (length pre) =
    (case (if ty = 0x0020 then parse_xor_mapped_address v
           else if ty = 0x0001 then parse_mapped_address v else None) of
       Some addr \<Rightarrow> Some addr
     | None \<Rightarrow> parse_attributes p (length (pre @ stun_attribute ty v)))"
proof -
  let ?len = "word_of_nat (length v) :: u16"
  have ty: "u16_at p (length pre) = ty"
    using u16_at_append_be [of pre "length pre" ty] by (simp add: p_def stun_attribute_def)
  have u: "unat ?len = length v" using assms(2) by (simp add: unat_of_nat)
  have l: "u16_at p (Suc (Suc (length pre))) = ?len"
    using u16_at_append_be [of "pre @ to_be ty" "length pre + 2" ?len]
    by (simp add: p_def stun_attribute_def)
  have val: "take (length v) (drop (length pre + 4) p) = v"
    by (simp add: p_def stun_attribute_def)
  have bound: "length pre + 4 + length v \<le> length p" "length pre + 4 \<le> length p"
    using length_stun_attribute(2) [of v ty] by (simp_all add: p_def)
  show ?thesis
    using bound
    by (subst parse_attributes.simps)
      (simp add: ty l u val Let_def next_attribute [OF assms(1), of v ty] split: option.split)
qed

lemma parse_xor_mapped_value:
  "parse_xor_mapped_address (xor_mapped_value (SockV4 a b c d p)) = Some (SockV4 a b c d p)"
proof -
  obtain k0 k1 k2 k3 where k: "to_be STUN_MAGIC = [k0, k1, k2, k3]"
    using nth4 [of "to_be STUN_MAGIC"] by auto
  obtain q0 q1 where q: "to_be (p XOR ucast (drop_bit 16 STUN_MAGIC)) = [q0, q1]"
    using nth2 [of "to_be (p XOR ucast (drop_bit 16 STUN_MAGIC))"] by auto
  have x: "(y XOR z) XOR z = y" for y z :: "'a::len word"
    by (simp add: xor.assoc)
  have "from_be [q0, q1] = p XOR ucast (drop_bit 16 STUN_MAGIC)"
    by (simp only: q [symmetric] be16.dec_enc)
  then show ?thesis
    using k by (simp add: parse_xor_mapped_address_def q x Let_def STUN_MAGIC_def [symmetric])
qed

lemma parse_attributes_others:
  assumes "length pre mod 4 = 0" and "\<forall>(ty, v) \<in> set others. length v < 65536 \<and> (ty \<in> {0x0020, 0x0001} \<longrightarrow> length v < 8 \<or> v ! 1 \<noteq> 1)"
  shows "parse_attributes (pre @ stun_body others @ rest) (length pre) =
    parse_attributes (pre @ stun_body others @ rest) (length (pre @ stun_body others))"
  using assms
proof (induction others arbitrary: pre)
  case (Cons x xs)
  obtain ty v where x: "x = (ty, v)" by (cases x)
  have pre: "length (pre @ stun_attribute ty v) mod 4 = 0"
    using Cons.prems(1) length_stun_attribute(1) [of ty v] by simp presburger
  have "parse_attributes (pre @ stun_attribute ty v @ stun_body xs @ rest) (length pre) =
      parse_attributes (pre @ stun_attribute ty v @ stun_body xs @ rest)
        (length (pre @ stun_attribute ty v))"
    using parse_attributes_step [OF Cons.prems(1), of v ty "stun_body xs @ rest"] Cons.prems(2)
    by (auto simp: x parse_xor_mapped_address_def parse_mapped_address_def)
  also have "\<dots> = parse_attributes (pre @ stun_attribute ty v @ stun_body xs @ rest)
      (length ((pre @ stun_attribute ty v) @ stun_body xs))"
    using Cons.IH [OF pre] Cons.prems(2) by simp
  finally show ?case by (simp add: x stun_body_def)
qed (simp add: stun_body_def)

lemma stun_body_append: "stun_body (as @ bs) = stun_body as @ stun_body bs"
  by (simp add: stun_body_def)

lemma stun_body_mod: "length (stun_body attrs) mod 4 = 0"
proof (induction attrs)
  case (Cons x xs)
  then show ?case
    using length_stun_attribute(1) [of "fst x" "snd x"]
    by (simp add: stun_body_def split_beta) presburger
qed (simp add: stun_body_def)

lemma build_request_parts:
  assumes "12 \<le> length uuid"
  shows "build_stun_binding_request uuid = stun_packet uuid"
    and "length (build_stun_binding_request uuid) = 20"
    and "take 12 (drop 8 (build_stun_binding_request uuid)) = take 12 uuid"
proof -
  have "to_be (1 :: u16) = [0, 1]" "to_be (0 :: u16) = [0, 0]"
    by (simp_all add: to_be_def to_le_def numeral_2_eq_2)
  moreover have "take 4 ((replicate 20 (0 :: u8))[0 := 0, 1 := 1]) = [0, 1, 0, 0]"
    by (simp add: numeral_eq_Suc)
  then have "build_stun_binding_request uuid = [0, 1, 0, 0] @ to_be STUN_MAGIC @ take 12 uuid"
    by (simp only: build_stun_binding_request_def Let_def) (simp add: STUN_MAGIC_def)
  ultimately show p: "build_stun_binding_request uuid = stun_packet uuid"
    by (simp add: stun_packet_def STUN_BINDING_REQUEST_def)
  show "length (build_stun_binding_request uuid) = 20"
    "take 12 (drop 8 (build_stun_binding_request uuid)) = take 12 uuid"
    using assms by (simp_all add: p stun_packet_def)
qed

lemma parse_response:
  assumes "length tx = 12" and "take 12 (drop 8 request) = tx"
  shows "parse_stun_binding_response request (stun_response tx attrs) =
    (case parse_attributes (stun_response tx attrs) 20 of
       Some addr \<Rightarrow> Inr addr | None \<Rightarrow> Inl [''no mapped address in STUN response''])"
proof -
  have "u16_at (stun_response tx attrs) 0 = 0x0101"
    using u16_at_append_be [of "[]" 0 "0x0101 :: u16"]
    by (simp add: stun_response_def STUN_BINDING_RESPONSE_def)
  moreover have "take 12 (drop 8 (stun_response tx attrs)) = tx"
    using assms(1) by (simp add: stun_response_def)
  moreover have "20 \<le> length (stun_response tx attrs)"
    using assms(1) by (simp add: stun_response_def)
  ultimately show ?thesis
    using assms(2) by (simp add: parse_stun_binding_response_def)
qed

lemma parse_attributes_found:
  assumes "length head mod 4 = 0"
    and "\<forall>(ty, v) \<in> set others. length v < 65536 \<and> (ty \<in> {0x0020, 0x0001} \<longrightarrow> length v < 8 \<or> v ! 1 \<noteq> 1)"
    and "(if ty = 0x0020 then parse_xor_mapped_address v else if ty = 0x0001 then parse_mapped_address v
       else None) = Some a" and "length v < 65536"
  shows "parse_attributes (head @ stun_body others @ stun_attribute ty v @ rest) (length head)
    = Some a"
proof -
  have "length (head @ stun_body others) mod 4 = 0"
    using assms(1) stun_body_mod [of others] by (simp add: mod_add_eq [symmetric, of "length head"])
  from parse_attributes_step [OF this assms(4), where ty = ty and rest = rest] assms(3)
  have "parse_attributes (head @ stun_body others @ stun_attribute ty v @ rest)
      (length (head @ stun_body others)) = Some a"
    by simp
  then show ?thesis
    by (simp only: parse_attributes_others [OF assms(1,2)])
qed

lemma parse_attributes_ipv4: "parse_attributes p i = Some a \<Longrightarrow> is_ipv4 a"
proof (induction "length p + 4 - i" arbitrary: i rule: less_induct)
  case less
  let ?l = "unat (u16_at p (i + 2))"
  let ?v = "take ?l (drop (i + 4) p)"
  let ?j = "next_multiple_of (i + 4 + ?l) 4"
  have fit: "i + 4 \<le> length p" "i + 4 + ?l \<le> length p"
    using less.prems by (subst (asm) parse_attributes.simps, simp add: Let_def split: if_splits)+
  have "parse_attributes p i = (case (if u16_at p i = 0x20 then parse_xor_mapped_address ?v
      else if u16_at p i = 1 then parse_mapped_address ?v else None) of
        Some addr \<Rightarrow> Some addr | None \<Rightarrow> parse_attributes p ?j)"
    using fit by (subst parse_attributes.simps) (simp add: Let_def split: option.split)
  moreover have "length p + 4 - ?j < length p + 4 - i"
    using fit next_multiple_of_ge [of "i + 4 + ?l" 4] by linarith
  note less.hyps [OF this]
  ultimately show ?case
    using less.prems
    by (auto simp: parse_xor_mapped_address_def parse_mapped_address_def Let_def
        split: if_splits option.splits)
qed

section \<open>Properties\<close>

lemma parse_built_response:
  assumes "12 \<le> length uuid"
    and "\<forall>(ty, v) \<in> set others. length v < 65536 \<and> (ty \<in> {0x0020, 0x0001} \<longrightarrow> length v < 8 \<or> v ! 1 \<noteq> 1)"
    and "(if ty = 0x0020 then parse_xor_mapped_address v else if ty = 0x0001 then parse_mapped_address v
       else None) = Some addr" and "length v < 65536"
  shows "parse_stun_binding_response (build_stun_binding_request uuid)
      (stun_response (take 12 uuid) (others @ (ty, v) # later)) = Inr addr"
proof -
  have tx: "length (take 12 uuid) = 12" using assms(1) by simp
  obtain head where r: "stun_response (take 12 uuid) (others @ (ty, v) # later) =
      head @ stun_body others @ stun_attribute ty v @ stun_body later" and h: "length head = 20"
    using tx by (simp add: stun_response_def stun_body_def)
  from parse_attributes_found [OF _ assms(2,3,4), where head = head and rest = "stun_body later"] h
  have "parse_attributes (stun_response (take 12 uuid) (others @ (ty, v) # later)) 20 = Some addr"
    by (simp only: r) simp
  then show ?thesis
    by (simp only: parse_response [OF tx build_request_parts(3) [OF assms(1)]] option.case)
qed

fun mapped_value :: "sock_addr \<Rightarrow> bytes" where
  "mapped_value (SockV4 a b c d p) = [0, 1] @ to_be p @ [a, b, c, d]"
| "mapped_value (SockV6 w p s) = []"

lemma parse_mapped_value:
  "parse_mapped_address (mapped_value (SockV4 a b c d p)) = Some (SockV4 a b c d p)"
proof -
  obtain q0 q1 where q: "to_be p = [q0, q1]" using nth2 [of "to_be p"] by auto
  have "from_be [q0, q1] = p" by (simp only: q [symmetric] be16.dec_enc)
  then show ?thesis by (simp add: parse_mapped_address_def q)
qed

text \<open>
  C38: the parser reads back the address of a binding response: the first attribute that
  carries an IPv4 address, XOR-MAPPED-ADDRESS or MAPPED-ADDRESS, is the one returned, behind
  any attributes that carry none - of other types, of these types with an IPv6 address or
  too short a value - whatever their lengths, padded with zeros to four bytes as the response
  is built here, and whatever follows it. So a MAPPED-ADDRESS wins over an XOR-MAPPED-ADDRESS
  that stands behind it.
\<close>

theorem stun_round_trip:
  assumes "12 \<le> length uuid"
    and "\<forall>(ty, v) \<in> set others. length v < 65536 \<and> (ty \<in> {0x0020, 0x0001} \<longrightarrow> length v < 8 \<or> v ! 1 \<noteq> 1)"
  shows "parse_stun_binding_response (build_stun_binding_request uuid)
      (stun_response (take 12 uuid)
         (others @ (0x0020, xor_mapped_value (SockV4 a b c d p)) # later)) = Inr (SockV4 a b c d p)
    \<and> parse_stun_binding_response (build_stun_binding_request uuid)
      (stun_response (take 12 uuid)
         (others @ (0x0001, mapped_value (SockV4 a b c d p)) # later)) = Inr (SockV4 a b c d p)"
  using parse_built_response [OF assms, of "0x0020" "xor_mapped_value (SockV4 a b c d p)"]
    parse_built_response [OF assms, of "0x0001" "mapped_value (SockV4 a b c d p)"]
    parse_xor_mapped_value parse_mapped_value by simp

theorem stun_round_trip_witness:
  "parse_stun_binding_response (build_stun_binding_request (replicate 16 9))
     (stun_response (replicate 12 9) [(0x8022, [1, 2, 3]), (0x0001, 0 # 2 # replicate 18 7),
        (0x0020, xor_mapped_value (SockV4 203 0 113 7 40000))]) = Inr (SockV4 203 0 113 7 40000)"
  using stun_round_trip [of "replicate 16 9" "[(0x8022, [1, 2, 3]), (0x0001, 0 # 2 # replicate 18 7)]"
      203 0 113 7 40000 "[]"] by simp

text \<open>
  a response is accepted only if it is a binding response of at least 20 bytes that
  echoes the transaction id of the request.
\<close>

theorem stun_checks_transaction:
  assumes "parse_stun_binding_response request payload = Inr addr"
  shows "20 \<le> length payload \<and> u16_at payload 0 = 0x0101
    \<and> take 12 (drop 8 payload) = take 12 (drop 8 request) \<and> is_ipv4 addr"
proof -
  show ?thesis
    using assms parse_attributes_ipv4
    by (auto simp: parse_stun_binding_response_def split: if_splits option.splits)
qed

theorem stun_checks_transaction_witness:
  "is_ipv4 (SockV4 203 0 113 7 40000)"
  using stun_checks_transaction [OF parse_built_response [of "replicate 16 9" "[]" "0x0020"
      "xor_mapped_value (SockV4 203 0 113 7 40000)" "SockV4 203 0 113 7 40000" "[]"]]
    parse_xor_mapped_value by simp

text \<open>
  C39: the two STUN implementations of the program agree: on a datagram that fits both
  buffers and whose header announces at least the attributes it carries, they accept the
  same responses and read the same address.
\<close>

theorem stun_parsers_agree:
  assumes "length payload \<le> 512" and "length payload \<le> 20 + unat (u16_at payload 2)"
    and "length request = 20"
  shows "read_binding_response (drop 8 request) payload = Inr addr
     \<longleftrightarrow> parse_stun_binding_response request payload = Inr addr"
proof -
  have "scan_attributes payload (length payload) 20 = parse_attributes payload 20"
    using scan_parse [of "length payload" payload 20] by simp
  then show ?thesis
    using assms
    by (simp add: read_binding_response_def parse_stun_binding_response_def Let_def
        STUN_BINDING_RESPONSE_def split: option.split)
qed

text \<open>A response without attributes, to instantiate the agreement.\<close>

lemma u16_at_2: "u16_at (a @ to_be w @ rest) (length a) = w"
  by (rule u16_at_append_be) simp

theorem stun_parsers_agree_witness:
  "read_binding_response (replicate 12 9) (stun_response (replicate 12 9)
        [(0x0020, xor_mapped_value (SockV4 203 0 113 7 40000))]) = Inr (SockV4 203 0 113 7 40000)"
proof -
  let ?r = "build_stun_binding_request (replicate 12 9)"
  let ?p = "stun_response (replicate 12 9) [(0x0020, xor_mapped_value (SockV4 203 0 113 7 40000))]"
  have "length ?p = 32" by (simp add: stun_response_def stun_body_def stun_attribute_def)
  moreover have "u16_at ?p 2 = 12"
    using u16_at_append_be [of "to_be STUN_BINDING_RESPONSE" 2 12]
    by (simp add: stun_response_def stun_body_def stun_attribute_def)
  moreover have "drop 8 ?r = replicate 12 9"
    using build_request_parts(3) [of "replicate 12 9"] build_request_parts(2) [of "replicate 12 9"]
    by simp
  ultimately show ?thesis
    using stun_parsers_agree [of ?p ?r "SockV4 203 0 113 7 40000"]
      build_request_parts(2) [of "replicate 12 9"]
      parse_built_response [of "replicate 12 9" "[]" "0x0020" "xor_mapped_value (SockV4 203 0 113 7 40000)"
        "SockV4 203 0 113 7 40000" "[]"] parse_xor_mapped_value
    by simp
qed

text \<open>
  the NAT type reported for the first two servers: "open" when both see the same
  address, "symmetric" when they see one host address with different ports, "multiple_ips"
  when the host addresses differ, "restricted" when one server answers and "blocked" when
  none does; the public address reported is the first one seen.
\<close>

theorem nat_type_of_two_servers:
  "nt_nat_type (detect_nat_type (Inr ()) [r1, r2]) =
     (case (r1, r2) of
        (Inr a, Inr b) \<Rightarrow> if a = b \<or> sa_ip a = sa_ip b \<and> sa_port a = sa_port b then ''open''
                          else if sa_ip a = sa_ip b then ''symmetric'' else ''multiple_ips''
      | (Inl e, Inl e') \<Rightarrow> ''blocked''
      | _ \<Rightarrow> ''restricted'')
   \<and> nt_public_port (detect_nat_type (Inr ()) [r1, r2]) =
     (case answers [r1, r2] of [] \<Rightarrow> None | a # _ \<Rightarrow> Some (sa_port a))"
  by (cases r1; cases r2) (auto simp: detect_nat_type_def nat_failure_def STUN_SERVERS_def Let_def)

text \<open>
  a binding request over a fresh id accepts exactly the answers of \<open>read_binding_response\<close>, and
  only when the server resolves, the packet is sent and something arrives in time.
\<close>

theorem binding_request_outcome:
  "stun_binding_request server lookup uuid send_to answer = Inr a \<longleftrightarrow>
     (\<exists>server_addr rest datagram. lookup = Inr (server_addr # rest)
        \<and> send_to (stun_packet uuid) server_addr = Inr () \<and> answer = Some (Inr datagram)
        \<and> read_binding_response (take 12 uuid) datagram = Inr a)"
proof (cases lookup)
  case (Inr addrs)
  then show ?thesis
    by (cases addrs)
      (auto simp: stun_binding_request_def rand_tx_id_def and_then_eq_Inr split: option.split)
qed (simp add: stun_binding_request_def)

lemma receive_round_found:
  "receive_round request rs = Found a \<Longrightarrow>
     \<exists>r \<in> set rs. \<exists>d. rc_datagram r = Some d \<and>
       parse_stun_binding_response request (take 1024 d) = Inr a"
  by (induction request rs rule: receive_round.induct)
    (auto split: if_splits option.splits sum.splits)

lemma receive_round_panics:
  "receive_round request rs = Panics \<Longrightarrow>
     \<exists>r \<in> set rs. rc_elapsed1 r < ROUND_NS \<and> ROUND_NS < rc_elapsed2 r"
  by (induction request rs rule: receive_round.induct)
    (auto split: if_splits option.splits sum.splits)

lemma discover_rounds_cases:
  "discover_rounds request rounds = Found a \<Longrightarrow> \<exists>rs \<in> set rounds. receive_round request rs = Found a"
  "discover_rounds request rounds = Panics \<Longrightarrow> \<exists>rs \<in> set rounds. receive_round request rs = Panics"
  by (induction rounds) (auto split: discovery.splits)

text \<open>
  the discovery returns an address only from a datagram that answers its own request,
  received in one of at most four rounds; it panics only if the round's 900 ms run out
  between its two readings of the clock.
\<close>

theorem discovery_outcomes:
  assumes "discover_public_addr servers dns uuid rounds = Inr res"
  shows "case res of
      Found a \<Rightarrow> \<exists>rs \<in> set (take 4 rounds). \<exists>r \<in> set rs. \<exists>d. rc_datagram r = Some d \<and>
        parse_stun_binding_response (build_stun_binding_request uuid) (take 1024 d) = Inr a
    | Panics \<Rightarrow> \<exists>rs \<in> set (take 4 rounds). \<exists>r \<in> set rs.
        rc_elapsed1 r < ROUND_NS \<and> ROUND_NS < rc_elapsed2 r
    | NotFound \<Rightarrow> False"
proof -
  from assms have res: "discover_rounds (build_stun_binding_request uuid) (take 4 rounds) = res"
    and "res \<noteq> NotFound"
    by (auto simp: discover_public_addr_def split: if_splits discovery.splits)
  show ?thesis
  proof (cases res)
    case Panics
    with res discover_rounds_cases(2) receive_round_panics show ?thesis by (simp, blast)
  next
    case (Found a)
    with res discover_rounds_cases(1) receive_round_found show ?thesis by (simp, blast)
  next
    case NotFound
    with \<open>res \<noteq> NotFound\<close> show ?thesis by simp
  qed
qed

theorem discovery_outcomes_witness:
  "\<exists>rs \<in> set (take 4 [[\<lparr>rc_elapsed1 = 899999999, rc_elapsed2 = 900000001, rc_datagram = None\<rparr>]]).
     \<exists>r \<in> set rs. rc_elapsed1 r < ROUND_NS \<and> ROUND_NS < rc_elapsed2 r"
proof -
  have "discover_public_addr [''s''] (\<lambda>_. Inr [SockV4 1 2 3 4 5]) (replicate 16 0)
      [[\<lparr>rc_elapsed1 = 899999999, rc_elapsed2 = 900000001, rc_datagram = None\<rparr>]] = Inr Panics"
    by (simp add: discover_public_addr_def ROUND_NS_def)
  from discovery_outcomes [OF this] show ?thesis by simp
qed

section \<open>Hole punching targets\<close>

definition around :: "sock_addr \<Rightarrow> nat \<Rightarrow> sock_addr list" where
  "around remote n = [set_port (sa_port remote + word_of_nat n) remote,
                      set_port (sa_port remote - word_of_nat n) remote]"

lemma punch_targets_inner:
  assumes "100 \<le> unat (sa_port remote)" and "unat (sa_port remote) \<le> 65435"
  shows "punch_targets remote = remote # concat (map (around remote) [1..<101])"
proof -
  have "(case checked_add (sa_port remote) (word_of_nat n) of
            Some p \<Rightarrow> [set_port p remote] | None \<Rightarrow> []) @
        (case checked_sub (sa_port remote) (word_of_nat n) of
            Some p \<Rightarrow> [set_port p remote] | None \<Rightarrow> []) = around remote n"
    if "n \<in> set [1..<101]" for n
  proof -
    have "unat (word_of_nat n :: u16) = n" using that by (simp add: unat_of_nat)
    then show ?thesis
      using that assms by (simp add: checked_add_def checked_sub_def word_le_nat_alt around_def)
  qed
  then show ?thesis
    by (simp only: punch_targets_def map_map comp_def cong: map_cong)
qed

lemma length_around: "length (concat (map (around remote) xs)) = 2 * length xs"
  by (induction xs) (simp_all add: around_def)

lemma punch_loop_set:
  assumes "n \<le> length targets" and "0 < n" and "targets \<noteq> []" and "hd targets = remote"
  shows "set (punch_loop remote targets n) = set (take n targets)"
proof -
  have "set (punch_loop remote targets n) = insert remote (set (map ((!) targets) [0..<n]))"
    using assms(1,2) by (auto simp: punch_loop_def Let_def)
  also have "map ((!) targets) [0..<n] = take n targets"
    by (rule nth_equalityI) (use assms(1) in simp_all)
  also have "insert remote (set (take n targets)) = set (take n targets)"
    using assms by (cases targets; cases n) auto
  finally show ?thesis .
qed

lemma take_targets:
  assumes "100 \<le> unat (sa_port remote)" and "unat (sa_port remote) \<le> 65435"
  shows "take 150 (punch_targets remote) =
    remote # concat (map (around remote) [1..<75]) @ [set_port (sa_port remote + 75) remote]"
proof -
  have split: "[1..<101] = [1..<75] @ 75 # [76..<101]"
    using upt_add_eq_append [of 1 75 26] upt_conv_Cons [of 75 101] by simp
  have l: "length (concat (map (around remote) [1..<75])) = 148"
    by (simp only: length_around) simp
  show ?thesis
    unfolding punch_targets_inner [OF assms] split
    using l by (simp add: around_def)
qed

text \<open>
  an uncancelled punch sends only to the host of the remote address, and, for a remote
  port at least 100 away from both ends of the port range, exactly to the ports from 74
  below to 75 above it: the two loops never get past the first 150 of their 201 targets.
\<close>

theorem punched_ports:
  assumes "100 \<le> unat (sa_port remote)" and "unat (sa_port remote) \<le> 65435"
    and "150 \<le> n" and "150 \<le> m"
  shows "(\<forall>a \<in> set (punch_remote remote n m). sa_ip a = sa_ip remote)
    \<and> (\<lambda>a. unat (sa_port a)) ` set (punch_remote remote n m)
        = {unat (sa_port remote) - 74 .. unat (sa_port remote) + 75}"
proof -
  let ?b = "unat (sa_port remote)"
  let ?t = "punch_targets remote"
  have len: "length ?t = 201"
    by (simp only: punch_targets_inner [OF assms(1,2)] list.size(4) length_around) simp
  have "set (punch_remote remote n m) = set (take 150 ?t)"
    using punch_loop_set [of 150 ?t remote] len assms(3,4)
    by (simp add: punch_remote_def PUNCH_FAST_BURST_PACKETS_def PUNCH_SUSTAIN_PACKETS_def
        punch_targets_def Let_def)
  then have set: "set (punch_remote remote n m) =
      {set_port (sa_port remote + 75) remote, remote} \<union> (\<Union>i \<in> {1..<75}. set (around remote i))"
    by (simp only: take_targets [OF assms(1,2)]) auto
  have plus: "unat (sa_port remote + word_of_nat i) = ?b + i"
    and minus: "unat (sa_port remote - word_of_nat i) = ?b - i" if "i < 76" for i
  proof -
    have i: "unat (word_of_nat i :: u16) = i" using that by (simp add: unat_of_nat)
    show "unat (sa_port remote + word_of_nat i) = ?b + i"
      using that assms(2) i by (simp add: unat_add_lem [THEN iffD1])
    show "unat (sa_port remote - word_of_nat i) = ?b - i"
      using that assms(1) i by (simp add: unat_sub word_le_nat_alt)
  qed
  have "(\<lambda>a. unat (sa_port a)) ` set (punch_remote remote n m) =
      {?b + 75, ?b} \<union> (\<Union>i \<in> {1..<75}. {?b + i, ?b - i})"
    using plus [of 75] by (auto simp: set around_def plus minus image_UN)
  also have "\<dots> = {?b - 74 .. ?b + 75}"
  proof (intro equalityI subsetI)
    fix p assume p: "p \<in> {?b - 74 .. ?b + 75}"
    show "p \<in> {?b + 75, ?b} \<union> (\<Union>i \<in> {1..<75}. {?b + i, ?b - i})"
    proof (cases "p \<le> ?b")
      case True
      then have "p = ?b \<or> p = ?b - (?b - p) \<and> ?b - p \<in> {1..<75}" using p assms(1) by auto
      then show ?thesis by blast
    next
      case False
      then have "p = ?b + 75 \<or> p = ?b + (p - ?b) \<and> p - ?b \<in> {1..<75}" using p by auto
      then show ?thesis by blast
    qed
  qed auto
  finally have "(\<lambda>a. unat (sa_port a)) ` set (punch_remote remote n m) = {?b - 74 .. ?b + 75}" .
  moreover have "\<forall>a \<in> set (punch_remote remote n m). sa_ip a = sa_ip remote"
    by (auto simp: set around_def)
  ultimately show ?thesis by blast
qed

theorem punched_ports_witness:
  "(\<lambda>a. unat (sa_port a)) ` set (punch_remote (SockV4 203 0 113 7 40000) 150 150) = {39926 .. 40075}"
  using punched_ports [of "SockV4 203 0 113 7 40000" 150 150] by simp

text \<open>
  every configured STUN server is a trimmed, non-empty entry of the variable or of the
  built-in list.
\<close>

theorem stun_from_env_entries:
  "set (stun_from_env var) =
     {trim e | e. e \<in> set (split_on (CHR '','') (case var of Some v \<Rightarrow> v | None \<Rightarrow> DEFAULT_STUN_SERVERS))
        \<and> trim e \<noteq> []}"
  by (auto simp: stun_from_env_def)

end
