(* ===== verification/Discovery.thy ===== *)
theory Discovery
  imports Models
begin

text \<open>
  LAN discovery of Bedrock Edition: the RakNet pong (\<open>bedrock_broadcaster.rs\<close> builds it;
  \<open>discovery.rs\<close>, \<open>minecraft.rs\<close> and \<open>bin/scan_bedrock.rs\<close> read it) and the encrypted
  NetherNet response (\<open>broadcaster.rs\<close> and \<open>nethernet_broadcaster.rs\<close> build it,
  \<open>discovery.rs\<close> reads it). AES, HMAC and hexadecimal coding are parameters.
\<close>

definition RAKNET_MAGIC :: bytes where
  "RAKNET_MAGIC = [0x00, 0xff, 0xff, 0x00, 0xfe, 0xfe, 0xfe, 0xfe, 0xfd, 0xfd, 0xfd, 0xfd,
                   0x12, 0x34, 0x56, 0x78]"

record server_info =
  si_name :: string
  si_host_name :: string
  si_mc_version :: string
  si_players :: u32
  si_max_players :: u32
  si_port :: u16

text \<open>\<open>parse().unwrap_or(d)\<close> for the unsigned types.\<close>

definition parse_word_or :: "'a::len word \<Rightarrow> string \<Rightarrow> 'a word" where
  "parse_word_or d s =
     (case parse_unsigned (2 ^ LENGTH('a)) s of Some n \<Rightarrow> word_of_nat n | None \<Rightarrow> d)"

definition part :: "string list \<Rightarrow> nat \<Rightarrow> string \<Rightarrow> string" where
  "part parts i d = (if i < length parts then parts ! i else d)"

section \<open>RakNet\<close>

definition parse_raknet_pong :: "bytes \<Rightarrow> u16 \<Rightarrow> server_info option" where
  "parse_raknet_pong buf default_port =
     (if 35 < length buf \<and> buf ! 0 = 0x1c then
        let parts = split_on (CHR '';'') (utf8_lossy (drop 35 buf))
        in if 6 \<le> length parts then
             let parsed_port = (if 10 < length parts then parse_word_or default_port (parts ! 10)
                                else default_port);
                 host_name = part parts 1 [];
                 name = part parts 7 [];
                 name = (if name = [] then host_name else name)
             in Some \<lparr>si_name = name, si_host_name = host_name, si_mc_version = part parts 3 [],
                      si_players = parse_word_or 0 (part parts 4 ''0''),
                      si_max_players = parse_word_or 0 (part parts 5 ''0''), si_port = parsed_port\<rparr>
           else None
      else None)"

text \<open>\<open>slots.split('/')\<close> as the broadcaster reads it.\<close>

definition bedrock_slots :: "string \<Rightarrow> string \<times> string" where
  "bedrock_slots slots =
     (let parts = split_on (CHR ''/'') slots
      in if length parts = 2 then (parts ! 0, parts ! 1) else (''0'', ''30''))"

definition bedrock_motd :: "string \<Rightarrow> string \<Rightarrow> string \<Rightarrow> string \<Rightarrow> u16 \<Rightarrow> string" where
  "bedrock_motd room_name host_name mc_version slots proxy_port =
     (case bedrock_slots slots of (players, max_players) \<Rightarrow>
        ''MCPE;'' @ room_name @ '';776;'' @ mc_version @ '';'' @ players @ '';'' @ max_players
        @ '';1234567890;'' @ host_name @ '';Survival;1;'' @ show_word proxy_port @ '';19133;'')"

definition bedrock_pong ::
  "string \<Rightarrow> string \<Rightarrow> string \<Rightarrow> string \<Rightarrow> u16 \<Rightarrow> bytes \<Rightarrow> bytes option" where
  "bedrock_pong room_name host_name mc_version slots proxy_port ping =
     (if 17 < length ping \<and> (ping ! 0 = 0x01 \<or> ping ! 0 = 0x02) then
        let ping_time = take 8 (drop 1 ping);
            motd = bedrock_motd room_name host_name mc_version slots proxy_port
        in Some ([0x1c] @ ping_time @ to_be (1234567890 :: u64) @ RAKNET_MAGIC
                 @ to_be (word_of_nat (length motd) :: u16) @ as_bytes motd)
      else None)"

text \<open>The unconnected ping of \<open>discovery.rs\<close> and \<open>minecraft.rs\<close>.\<close>

definition unconnected_ping :: "u64 \<Rightarrow> bytes" where
  "unconnected_ping time = [0x01] @ to_be time @ RAKNET_MAGIC @ replicate 8 0"

text \<open>\<open>probe_bedrock_server_sync\<close>: the reading of the datagram received.\<close>

definition read_bedrock_pong :: "bytes \<Rightarrow> u64 \<Rightarrow> anyhow + external_server_probe" where
  "read_bedrock_pong datagram elapsed =
     (let buf = take 1024 datagram; len = length buf
      in if 35 < len \<and> buf ! 0 = 0x1C then
           let str_len = unat (from_be [buf ! 33, buf ! 34] :: u16)
           in if 35 + str_len \<le> len then
                let parts = split_on (CHR '';'') (utf8_lossy (take str_len (drop 35 buf)))
                in if 6 \<le> length parts then
                     Inr \<lparr>ep_room_name = parts ! 1, ep_host_name = parts ! 1,
                          ep_version = Some (parts ! 3),
                          ep_online_players = parse_word_or 0 (parts ! 4),
                          ep_max_players = parse_word_or 0 (parts ! 5),
                          ep_ping_ms = Some elapsed\<rparr>
                   else Inl [''Invalid or no Bedrock response'']
              else Inl [''Invalid or no Bedrock response'']
         else Inl [''Invalid or no Bedrock response''])"

text \<open>What \<open>scan_bedrock\<close> prints of a datagram: the text of the announcement.\<close>

definition scan_bedrock :: "bytes \<Rightarrow> string option" where
  "scan_bedrock datagram =
     (let buf = take 1024 datagram @ replicate (1024 - length datagram) 0;
          size = min 1024 (length datagram)
      in if buf ! 0 = 0x1C then
           let len = unat (from_be (take 2 (drop 25 buf)) :: u16)
           in if 27 + len \<le> size then Some (utf8_lossy (take len (drop 27 buf))) else None
         else None)"

section \<open>NetherNet\<close>

record crypto =
  aes_encrypt :: "bytes \<Rightarrow> bytes \<Rightarrow> bytes" \<comment> \<open>key, block of 16\<close>
  aes_decrypt :: "bytes \<Rightarrow> bytes \<Rightarrow> bytes"
  hmac_sha256 :: "bytes \<Rightarrow> bytes \<Rightarrow> bytes"
  hex_encode :: "bytes \<Rightarrow> bytes"
  hex_decode :: "bytes \<Rightarrow> bytes option"

function chunks16 :: "bytes \<Rightarrow> bytes list" where
  "chunks16 xs = (if xs = [] then [] else take 16 xs # chunks16 (drop 16 xs))"
  by pat_completeness auto
termination by (relation "measure length") auto

declare chunks16.simps [simp del]

definition ecb :: "(bytes \<Rightarrow> bytes) \<Rightarrow> bytes \<Rightarrow> bytes" where
  "ecb block xs = concat (map block (chunks16 xs))"

definition pad16 :: "bytes \<Rightarrow> bytes" where
  "pad16 payload =
     (let pad_len = 16 - length payload mod 16
      in payload @ replicate pad_len (word_of_nat pad_len))"

text \<open>\<open>parts[i].parse::<i32>().unwrap_or(d)\<close> as the four bytes sent.\<close>

definition parse_i32_or :: "int \<Rightarrow> string \<Rightarrow> i32" where
  "parse_i32_or d s = (case parse_i32 s of Some i \<Rightarrow> word_of_int i | None \<Rightarrow> word_of_int d)"

definition nethernet_server_data :: "string \<Rightarrow> string \<Rightarrow> string \<Rightarrow> bytes" where
  "nethernet_server_data room_name host_name slots =
     (let parts = split_on (CHR ''/'') slots;
          (players, max_players) =
            (if length parts = 2 then (parse_i32_or 0 (parts ! 0), parse_i32_or 30 (parts ! 1))
             else (0, 30))
      in [4] @ [word_of_nat (length room_name)] @ as_bytes room_name
         @ [word_of_nat (length host_name)] @ as_bytes host_name
         @ [0] @ to_le (players :: i32) @ to_le (max_players :: i32) @ [0, 0, 4, 8])"

definition nethernet_datagram :: "crypto \<Rightarrow> bytes \<Rightarrow> u64 \<Rightarrow> bytes \<Rightarrow> bytes" where
  "nethernet_datagram cr key sender_id server_data =
     (let hex_data = hex_encode cr server_data;
          app_data_buf = to_le (word_of_nat (length hex_data) :: u32) @ hex_data;
          packet_buf = to_le (1 :: u16) @ to_le sender_id @ replicate 8 0 @ app_data_buf;
          payload = to_le (word_of_nat (length packet_buf) :: u16) @ packet_buf
      in hmac_sha256 cr key payload @ ecb (aes_encrypt cr key) (pad16 payload))"

definition build_response_packet ::
  "crypto \<Rightarrow> bytes \<Rightarrow> u64 \<Rightarrow> string \<Rightarrow> string \<Rightarrow> string \<Rightarrow> bytes" where
  "build_response_packet cr key sender_id room_name host_name slots =
     nethernet_datagram cr key sender_id (nethernet_server_data room_name host_name slots)"

definition take_bytes :: "nat \<Rightarrow> bytes \<Rightarrow> (bytes \<times> bytes) option" where
  "take_bytes n bs = (if n \<le> length bs then Some (take n bs, drop n bs) else None)"

text \<open>The application data: version, two names with 16-bit lengths, game type, counters.\<close>

definition parse_app_data :: "bytes \<Rightarrow> (u8 \<times> string \<times> string \<times> u32 \<times> u32) option" where
  "parse_app_data app_data = do {
     (v, bs) \<leftarrow> take_bytes 1 app_data;
     (n, bs) \<leftarrow> take_bytes 2 bs;
     (sn, bs) \<leftarrow> take_bytes (unat (from_le n :: u16)) bs;
     (n, bs) \<leftarrow> take_bytes 2 bs;
     (ln, bs) \<leftarrow> take_bytes (unat (from_le n :: u16)) bs;
     (_, bs) \<leftarrow> take_bytes 1 bs;
     (players, bs) \<leftarrow> take_bytes 4 bs;
     (max_players, bs) \<leftarrow> take_bytes 4 bs;
     Some (v ! 0, utf8_lossy sn, utf8_lossy ln, from_le players, from_le max_players)
   }"

datatype nn_result = NnPanics | NnIgnored | NnServer server_info

definition parse_nethernet :: "crypto \<Rightarrow> bytes \<Rightarrow> u16 \<Rightarrow> bytes \<Rightarrow> nn_result" where
  "parse_nethernet cr key port buf =
     (if length buf < 48 then NnIgnored
      else if (length buf - 32) mod 16 \<noteq> 0 then NnPanics
      else
        let decrypted = ecb (aes_decrypt cr key) (drop 32 buf);
            payload_len = unat (from_le (take 2 decrypted) :: u16)
        in if length decrypted < payload_len + 2 then NnIgnored
           else
             let payload = take (payload_len + 2) decrypted
             in if hmac_sha256 cr key payload \<noteq> take 32 buf then NnIgnored
                else if length payload < 4 then NnPanics
                else if (from_le (take 2 (drop 2 payload)) :: u16) \<noteq> 1 then NnIgnored
                else if length payload < 24 then NnIgnored
                else
                  let app_data_len = unat (from_le (take 4 (drop 20 payload)) :: u32)
                  in if length payload < 24 + app_data_len then NnIgnored
                     else case hex_decode cr (take app_data_len (drop 24 payload)) of
                         None \<Rightarrow> NnIgnored
                       | Some app_data \<Rightarrow>
                           (case parse_app_data app_data of
                              None \<Rightarrow> NnIgnored
                            | Some (version, host_name, level_name, players, max_players) \<Rightarrow>
                                NnServer
                                  \<lparr>si_name = (if level_name = [] then host_name else level_name),
                                   si_host_name = host_name,
                                   si_mc_version = ''Bedrock v1.20.50+ (v'' @ show_word version @ '')'',
                                   si_players = players, si_max_players = max_players,
                                   si_port = port\<rparr>))"

text \<open>
  The receive loop of \<open>discover_server_on_port\<close> over the datagrams that arrive before the
  timeout (2048 bytes each at most).
\<close>

fun discover_loop :: "crypto \<Rightarrow> bytes \<Rightarrow> u16 \<Rightarrow> bytes list \<Rightarrow> nn_result" where
  "discover_loop cr key port [] = NnIgnored"
| "discover_loop cr key port (d # ds) =
     (let buf = take 2048 d
      in case parse_raknet_pong buf port of
           Some info \<Rightarrow> NnServer info
         | None \<Rightarrow>
             (case parse_nethernet cr key port buf of
                NnIgnored \<Rightarrow> discover_loop cr key port ds
              | r \<Rightarrow> r))"

section \<open>Lemmas\<close>

lemma length_magic [simp]: "length RAKNET_MAGIC = 16"
  by (simp add: RAKNET_MAGIC_def)

text \<open>The shape of every pong: kind, time, server id, magic, text with its length.\<close>

definition raknet_pong :: "bytes \<Rightarrow> bytes \<Rightarrow> bytes \<Rightarrow> bytes" where
  "raknet_pong time guid motd =
     [0x1c] @ time @ guid @ RAKNET_MAGIC @ to_be (word_of_nat (length motd) :: u16) @ motd"

lemma raknet_pong_parts:
  assumes "length time = 8" and "length guid = 8"
  shows "length (raknet_pong time guid motd) = 35 + length motd"
    and "raknet_pong time guid motd ! 0 = 0x1c"
    and "drop 35 (raknet_pong time guid motd) = motd"
    and "take 2 (drop 25 (raknet_pong time guid motd)) = [0xfd, 0xfd]"
    and "[raknet_pong time guid motd ! 33, raknet_pong time guid motd ! 34] =
      to_be (word_of_nat (length motd) :: u16)"
proof -
  let ?l = "to_be (word_of_nat (length motd) :: u16)"
  show "length (raknet_pong time guid motd) = 35 + length motd"
    "raknet_pong time guid motd ! 0 = 0x1c" "drop 35 (raknet_pong time guid motd) = motd"
    using assms by (simp_all add: raknet_pong_def)
  have "take 2 (drop 8 (RAKNET_MAGIC @ ?l @ motd)) = [0xfd, 0xfd]"
    by (simp add: RAKNET_MAGIC_def)
  then show "take 2 (drop 25 (raknet_pong time guid motd)) = [0xfd, 0xfd]"
    using assms by (simp add: raknet_pong_def)
  obtain a b where l: "?l = [a, b]"
    using nth2 [of ?l] by auto
  show "[raknet_pong time guid motd ! 33, raknet_pong time guid motd ! 34] = ?l"
    using assms unfolding raknet_pong_def l by (simp add: nth_append)
qed

lemma bedrock_pong_shape:
  assumes "17 < length ping" and "ping ! 0 = 1 \<or> ping ! 0 = 2"
  shows "bedrock_pong room host version slots port ping = Some (raknet_pong (take 8 (drop 1 ping))
    (to_be (1234567890 :: u64)) (as_bytes (bedrock_motd room host version slots port)))"
  using assms by (simp add: bedrock_pong_def raknet_pong_def Let_def)

text \<open>Fields of the announcement text.\<close>

lemma digits_no_sep: "is_digit c \<Longrightarrow> c \<noteq> CHR '';'' \<and> c \<noteq> CHR ''/''"
  by (auto simp: is_digit_def)

definition field_text :: "string \<Rightarrow> bool" where
  "field_text s \<longleftrightarrow> is_str s \<and> CHR '';'' \<notin> set s"

lemma field_show: "field_text (show_nat n)"
  using show_nat_set digits_no_sep by (auto simp: field_text_def show_nat_str)

lemma field_ascii: "\<forall>c \<in> set s. of_char c < (0x80 :: nat) \<and> c \<noteq> CHR '';'' \<Longrightarrow> field_text s"
  by (auto simp: field_text_def is_str_ascii)

lemma split_fields:
  assumes "field_text s"
  shows "split_on (CHR '';'') (s @ CHR '';'' # t) = s # split_on (CHR '';'') t"
  using assms by (simp add: field_text_def split_on_append)

lemma motd_fields:
  assumes "field_text room" and "field_text host" and "field_text version"
    and "bedrock_slots slots = (players, max_players)" and "field_text players" and "field_text max_players"
  shows "split_on (CHR '';'') (bedrock_motd room host version slots port) =
      [''MCPE'', room, ''776'', version, players, max_players, ''1234567890'', host, ''Survival'',
       ''1'', show_word port, ''19133'', []]"
    and "is_str (bedrock_motd room host version slots port)"
proof -
  have c: "field_text ''MCPE''" "field_text ''776''" "field_text ''1234567890''"
    "field_text ''Survival''" "field_text ''1''" "field_text ''19133''"
    by (simp_all add: field_ascii)
  have p: "field_text (show_word port)" by (simp add: show_word_def field_show)
  have m: "bedrock_motd room host version slots port =
      ''MCPE'' @ CHR '';'' # room @ CHR '';'' # ''776'' @ CHR '';'' # version @ CHR '';'' #
      players @ CHR '';'' # max_players @ CHR '';'' # ''1234567890'' @ CHR '';'' # host @
      CHR '';'' # ''Survival'' @ CHR '';'' # ''1'' @ CHR '';'' # show_word port @ CHR '';'' #
      ''19133'' @ [CHR '';'']"
    by (simp add: bedrock_motd_def assms(4))
  show "split_on (CHR '';'') (bedrock_motd room host version slots port) =
      [''MCPE'', room, ''776'', version, players, max_players, ''1234567890'', host, ''Survival'',
       ''1'', show_word port, ''19133'', []]"
    unfolding m
    by (simp only: split_fields c p assms(1-3,5,6)) simp
  have sep: "is_str (CHR '';'' # s)" if "is_str s" for s
    using is_str_append [OF is_str_ascii [of "[CHR '';'']"] that] by simp
  show "is_str (bedrock_motd room host version slots port)"
    unfolding m using c p assms
    by (intro is_str_append sep) (simp_all add: field_text_def is_str_ascii)
qed

lemma parse_show_word [simp]: "parse_word_or d (show_word w) = w"
proof -
  have "unat w < 2 ^ LENGTH('a)" for w :: "'a::len word" by (rule unsigned_less)
  then show ?thesis by (simp add: parse_word_or_def show_word_def parse_show_nat)
qed

lemma parse_pong:
  assumes "length time = 8" and "length guid = 8" and "is_str motd"
    and "split_on (CHR '';'') motd = [a0, host, a2, version, show_word players, show_word slots, a6,
           name, a8, a9, show_word port, a11, a12]"
  shows "parse_raknet_pong (raknet_pong time guid (as_bytes motd)) default_port = Some
    \<lparr>si_name = (if name = [] then host else name), si_host_name = host, si_mc_version = version,
     si_players = players, si_max_players = slots, si_port = port\<rparr>"
proof -
  have "motd \<noteq> []" using assms(4) by auto
  then show ?thesis
    using raknet_pong_parts(1-3) [OF assms(1,2), of "as_bytes motd"] assms(4)
    by (simp add: parse_raknet_pong_def utf8_lossy_as_bytes [OF assms(3)] part_def Let_def)
qed

section \<open>Properties of the RakNet announcement\<close>

text \<open>
  discovery reads the pong of the program's own broadcaster, but with the two names
  exchanged: the room's name arrives as the host's name and the host's name, unless empty,
  as the server's name. Version, player counters and port arrive unchanged.
\<close>

theorem raknet_announcement:
  assumes "17 < length ping" and "ping ! 0 = 1 \<or> ping ! 0 = 2"
    and "field_text room" and "field_text host" and "field_text version"
    and "bedrock_slots slots = (show_word players, show_word max_players)"
  shows "\<exists>pong. bedrock_pong room host version slots port ping = Some pong
    \<and> parse_raknet_pong pong default_port = Some
        \<lparr>si_name = (if host = [] then room else host), si_host_name = room,
         si_mc_version = version, si_players = players, si_max_players = max_players,
         si_port = port\<rparr>"
proof -
  let ?motd = "bedrock_motd room host version slots port"
  let ?pong = "raknet_pong (take 8 (drop 1 ping)) (to_be (1234567890 :: u64)) (as_bytes ?motd)"
  have l: "length (take 8 (drop 1 ping)) = 8" "length (to_be (1234567890 :: u64)) = 8"
    using assms(1) by simp_all
  have f: "field_text (show_word players)" "field_text (show_word max_players)"
    by (simp_all add: show_word_def field_show)
  note m = motd_fields [OF assms(3-6) f, of port]
  have "parse_raknet_pong ?pong default_port = Some
      \<lparr>si_name = (if host = [] then room else host), si_host_name = room,
       si_mc_version = version, si_players = players, si_max_players = max_players, si_port = port\<rparr>"
    by (rule parse_pong [OF l m(2,1)])
  then show ?thesis using bedrock_pong_shape [OF assms(1,2)] by blast
qed

theorem raknet_announcement_witness:
  "\<exists>pong. bedrock_pong ''room'' ''host'' ''1.21'' ''3/10'' 19140 (unconnected_ping 5) = Some pong
    \<and> parse_raknet_pong pong 19132 = Some
        \<lparr>si_name = ''host'', si_host_name = ''room'', si_mc_version = ''1.21'', si_players = 3,
         si_max_players = 10, si_port = 19140\<rparr>"
proof -
  have "show_word (3 :: u32) = ''3''" "show_word (10 :: u32) = ''10''"
    by code_simp+
  then have "bedrock_slots ''3/10'' = (show_word (3 :: u32), show_word (10 :: u32))"
    by (simp add: bedrock_slots_def)
  from raknet_announcement [OF _ _ _ _ _ this, of "unconnected_ping 5" "''room''" "''host''" "''1.21''"
      19140 19132]
  show ?thesis by (simp add: unconnected_ping_def field_ascii)
qed

text \<open>The announcement of a room whose name has one semicolon: every field is one place further.\<close>

lemma motd_semicolon:
  assumes "field_text r1" and "field_text r2" and "field_text host" and "field_text version"
    and "bedrock_slots slots = (players, max_players)" and "field_text players" and "field_text max_players"
  shows "split_on (CHR '';'') (bedrock_motd (r1 @ CHR '';'' # r2) host version slots port) =
      [''MCPE'', r1, r2, ''776'', version, players, max_players, ''1234567890'', host, ''Survival'',
       ''1'', show_word port, ''19133'', []]"
    and "is_str (bedrock_motd (r1 @ CHR '';'' # r2) host version slots port)"
proof -
  have c: "field_text ''MCPE''" "field_text ''776''" "field_text ''1234567890''"
    "field_text ''Survival''" "field_text ''1''" "field_text ''19133''"
    by (simp_all add: field_ascii)
  have p: "field_text (show_word port)" by (simp add: show_word_def field_show)
  have m: "bedrock_motd (r1 @ CHR '';'' # r2) host version slots port =
      ''MCPE'' @ CHR '';'' # r1 @ CHR '';'' # r2 @ CHR '';'' # ''776'' @ CHR '';'' # version @ CHR '';'' #
      players @ CHR '';'' # max_players @ CHR '';'' # ''1234567890'' @ CHR '';'' # host @
      CHR '';'' # ''Survival'' @ CHR '';'' # ''1'' @ CHR '';'' # show_word port @ CHR '';'' #
      ''19133'' @ [CHR '';'']"
    by (simp add: bedrock_motd_def assms(5))
  show "split_on (CHR '';'') (bedrock_motd (r1 @ CHR '';'' # r2) host version slots port) =
      [''MCPE'', r1, r2, ''776'', version, players, max_players, ''1234567890'', host, ''Survival'',
       ''1'', show_word port, ''19133'', []]"
    unfolding m
    by (simp only: split_fields c p assms(1-4,6,7)) simp
  have sep: "is_str (CHR '';'' # s)" if "is_str s" for s
    using is_str_append [OF is_str_ascii [of "[CHR '';'']"] that] by simp
  show "is_str (bedrock_motd (r1 @ CHR '';'' # r2) host version slots port)"
    unfolding m using c p assms
    by (intro is_str_append sep) (simp_all add: field_text_def is_str_ascii)
qed

text \<open>
  the Bedrock broadcaster does not escape what it announces. A room whose name contains one
  semicolon is announced with every later field one place too far, and discovery reads it so:
  the room is listed under the server id as its name, with the protocol number as its
  version, with the version read as the number of players, and with port 1, whatever port
  the room has; nothing can join it by what is listed.
\<close>

theorem semicolon_shifts_fields:
  assumes "17 < length ping" and "ping ! 0 = 1 \<or> ping ! 0 = 2"
    and "field_text r1" and "field_text r2" and "field_text host" and "field_text version"
    and "bedrock_slots slots = (show_word players, show_word max_players)"
  shows "\<exists>pong. bedrock_pong (r1 @ CHR '';'' # r2) host version slots port ping = Some pong
    \<and> parse_raknet_pong pong default_port = Some
        \<lparr>si_name = ''1234567890'', si_host_name = r1, si_mc_version = ''776'',
         si_players = parse_word_or 0 version, si_max_players = players, si_port = 1\<rparr>"
proof -
  let ?motd = "bedrock_motd (r1 @ CHR '';'' # r2) host version slots port"
  let ?pong = "raknet_pong (take 8 (drop 1 ping)) (to_be (1234567890 :: u64)) (as_bytes ?motd)"
  have l: "length (take 8 (drop 1 ping)) = 8" "length (to_be (1234567890 :: u64)) = 8"
    using assms(1) by simp_all
  have f: "field_text (show_word players)" "field_text (show_word max_players)"
    by (simp_all add: show_word_def field_show)
  note m = motd_semicolon [OF assms(3-7) f, of port]
  have "show_word (1 :: u16) = ''1''" by code_simp
  then have one: "parse_word_or default_port ''1'' = (1 :: u16)"
    using parse_show_word [of default_port "1 :: u16"] by simp
  have "?motd \<noteq> []" using m(1) by auto
  then have "parse_raknet_pong ?pong default_port = Some
      \<lparr>si_name = ''1234567890'', si_host_name = r1, si_mc_version = ''776'',
       si_players = parse_word_or 0 version, si_max_players = players, si_port = 1\<rparr>"
    using raknet_pong_parts(1-3) [OF l, of "as_bytes ?motd"] m(1) one
    by (simp add: parse_raknet_pong_def utf8_lossy_as_bytes [OF m(2)] part_def Let_def)
  then show ?thesis using bedrock_pong_shape [OF assms(1,2)] by blast
qed

theorem semicolon_shifts_fields_witness:
  "\<exists>pong info. bedrock_pong ''a;b'' ''host'' ''1.21'' ''3/10'' 19140 (unconnected_ping 5) = Some pong
    \<and> parse_raknet_pong pong 19132 = Some info \<and> si_port info = 1"
proof -
  have "show_word (3 :: u32) = ''3''" "show_word (10 :: u32) = ''10''"
    by code_simp+
  then have "bedrock_slots ''3/10'' = (show_word (3 :: u32), show_word (10 :: u32))"
    by (simp add: bedrock_slots_def)
  from semicolon_shifts_fields [OF _ _ _ _ _ _ this, of "unconnected_ping 5" "''a''" "''b''" "''host''" "''1.21''"
      19140 19132]
  show ?thesis by (fastforce simp: unconnected_ping_def field_ascii)
qed

text \<open>
  the direct probe of a Bedrock server reads the announcement of any pong whose text fits
  the 1024 bytes it receives; the server's name is used for both the room and the host.
\<close>

theorem raknet_probe:
  assumes "length time = 8" and "length guid = 8" and "is_str motd" and "length motd \<le> 989"
    and "split_on (CHR '';'') motd = a # name # b # version # show_word players # show_word slots # tail"
  shows "read_bedrock_pong (raknet_pong time guid (as_bytes motd)) elapsed = Inr
    \<lparr>ep_room_name = name, ep_host_name = name, ep_version = Some version,
     ep_online_players = players, ep_max_players = slots, ep_ping_ms = Some elapsed\<rparr>"
proof -
  note p = raknet_pong_parts [OF assms(1,2), of "as_bytes motd"]
  have "motd \<noteq> []" using assms(5) by auto
  moreover have "unat (word_of_nat (length motd) :: u16) = length motd"
    using assms(4) by (simp add: unat_of_nat)
  ultimately show ?thesis
    using assms(4) p utf8_lossy_as_bytes [OF assms(3)] assms(5)
    by (simp add: read_bedrock_pong_def Let_def)
qed

theorem raknet_probe_witness:
  "read_bedrock_pong (raknet_pong (replicate 8 0) (replicate 8 1)
      (as_bytes (''MCPE;srv;776;1.21;'' @ show_word (2 :: u32) @ '';'' @ show_word (8 :: u32)))) 30 = Inr
    \<lparr>ep_room_name = ''srv'', ep_host_name = ''srv'', ep_version = Some ''1.21'',
     ep_online_players = 2, ep_max_players = 8, ep_ping_ms = Some 30\<rparr>"
proof (rule raknet_probe)
  have "show_word (2 :: u32) = ''2''" "show_word (8 :: u32) = ''8''" by code_simp+
  then show "split_on (CHR '';'') (''MCPE;srv;776;1.21;'' @ show_word (2 :: u32) @ '';'' @ show_word (8 :: u32))
      = ''MCPE'' # ''srv'' # ''776'' # ''1.21'' # show_word (2 :: u32) # show_word (8 :: u32) # []"
    "is_str (''MCPE;srv;776;1.21;'' @ show_word (2 :: u32) @ '';'' @ show_word (8 :: u32))"
    "length (''MCPE;srv;776;1.21;'' @ show_word (2 :: u32) @ '';'' @ show_word (8 :: u32)) \<le> 989"
    by (simp_all add: is_str_ascii)
qed simp_all

text \<open>
  the scanner tool never reports a RakNet server: it takes the length of the text from
  inside the magic, and that is longer than any datagram it receives.
\<close>

theorem scan_finds_nothing:
  assumes "length time = 8" and "length guid = 8"
  shows "scan_bedrock (raknet_pong time guid motd) = None"
proof -
  let ?d = "raknet_pong time guid motd"
  have "35 \<le> length ?d" using raknet_pong_parts(1) [OF assms] by simp
  then have "take 2 (drop 25 (take 1024 ?d @ replicate (1024 - length ?d) 0)) = take 2 (drop 25 ?d)"
    by (simp add: drop_take)
  moreover have "unat (from_be [0xfd, 0xfd] :: u16) = 65021" by (simp add: from_be_def)
  ultimately show ?thesis
    by (simp add: scan_bedrock_def raknet_pong_parts(4) [OF assms] Let_def)
qed

theorem scan_finds_nothing_witness:
  "scan_bedrock (raknet_pong (replicate 8 0) (replicate 8 1) (as_bytes ''MCPE;a;b;c;1;2;'')) = None"
  by (rule scan_finds_nothing) simp_all

section \<open>Properties of the NetherNet response\<close>

text \<open>What the crypto libraries promise: block decryption undoes encryption, sizes, hex.\<close>

definition crypto_ok :: "crypto \<Rightarrow> bytes \<Rightarrow> bool" where
  "crypto_ok cr key \<longleftrightarrow>
     (\<forall>b. length b = 16 \<longrightarrow> length (aes_encrypt cr key b) = 16 \<and>
        aes_decrypt cr key (aes_encrypt cr key b) = b) \<and>
     (\<forall>m. length (hmac_sha256 cr key m) = 32) \<and>
     (\<forall>d. length (hex_encode cr d) = 2 * length d \<and> hex_decode cr (hex_encode cr d) = Some d)"

lemma chunks16_append:
  assumes "length a = 16"
  shows "chunks16 (a @ xs) = a # chunks16 xs"
proof -
  have "a @ xs \<noteq> []" using assms by auto
  then show ?thesis using assms by (subst chunks16.simps) simp
qed

lemma chunks16_Nil [simp]: "chunks16 [] = []"
  by (subst chunks16.simps) simp

lemma ecb_round_trip:
  assumes "crypto_ok cr key" and "length xs mod 16 = 0"
  shows "ecb (aes_decrypt cr key) (ecb (aes_encrypt cr key) xs) = xs
    \<and> length (ecb (aes_encrypt cr key) xs) = length xs"
  using assms(2)
proof (induction xs rule: chunks16.induct)
  case (1 xs)
  show ?case
  proof (cases "xs = []")
    case False
    with 1(2) have l: "16 \<le> length xs" "length (drop 16 xs) mod 16 = 0"
      by (auto simp: dvd_imp_le mod_eq_0_iff_dvd)
    let ?e = "aes_encrypt cr key (take 16 xs)"
    have e: "length ?e = 16" "aes_decrypt cr key ?e = take 16 xs"
      using assms(1) l(1) by (simp_all add: crypto_ok_def)
    have "ecb (aes_encrypt cr key) xs = ?e @ ecb (aes_encrypt cr key) (drop 16 xs)"
      using False by (simp add: ecb_def chunks16.simps [of xs])
    then show ?thesis
      using 1(1) [OF False l(2)] e l(1) by (simp add: ecb_def chunks16_append)
  qed (simp add: ecb_def)
qed

lemma pad16_length: "length (pad16 p) mod 16 = 0" "length p < length (pad16 p)"
proof -
  have "length p mod 16 < 16" by simp
  then show "length p < length (pad16 p)" by (simp add: pad16_def Let_def)
  have "length p + (16 - length p mod 16) = 16 * Suc (length p div 16)"
    using mult_div_mod_eq [of 16 "length p"] \<open>length p mod 16 < 16\<close>
    unfolding mult_Suc_right by linarith
  then have "length (pad16 p) = 16 * Suc (length p div 16)"
    by (simp only: pad16_def Let_def length_append length_replicate)
  then show "length (pad16 p) mod 16 = 0" by (simp only: mod_mult_self1_is_0)
qed

text \<open>What the parser makes of a datagram built from any server data.\<close>

lemma parse_datagram:
  assumes "crypto_ok cr key" and "length server_data \<le> 30000"
  shows "parse_nethernet cr key port (nethernet_datagram cr key sender server_data) =
    (case parse_app_data server_data of
       None \<Rightarrow> NnIgnored
     | Some (version, host_name, level_name, players, max_players) \<Rightarrow>
         NnServer \<lparr>si_name = (if level_name = [] then host_name else level_name),
           si_host_name = host_name,
           si_mc_version = ''Bedrock v1.20.50+ (v'' @ show_word version @ '')'',
           si_players = players, si_max_players = max_players, si_port = port\<rparr>)"
proof -
  let ?hex = "hex_encode cr server_data"
  let ?packet = "to_le (1 :: u16) @ to_le sender @ replicate 8 0
      @ to_le (word_of_nat (length ?hex) :: u32) @ ?hex"
  let ?payload = "to_le (word_of_nat (length ?packet) :: u16) @ ?packet"
  let ?mac = "hmac_sha256 cr key ?payload"
  let ?d = "?mac @ ecb (aes_encrypt cr key) (pad16 ?payload)"
  have d: "nethernet_datagram cr key sender server_data = ?d"
    by (simp add: nethernet_datagram_def Let_def)
  have hex: "length ?hex = 2 * length server_data" "hex_decode cr ?hex = Some server_data"
    and mac: "length ?mac = 32"
    using assms(1) by (simp_all add: crypto_ok_def)
  have packet: "length ?packet = 22 + 2 * length server_data" by (simp add: hex(1))
  have n16: "unat (word_of_nat (length ?packet) :: u16) = length ?packet"
    unfolding packet using assms(2) by (subst unat_of_nat) simp
  have n32: "unat (word_of_nat (length ?hex) :: u32) = length ?hex"
    unfolding hex(1) using assms(2) by (subst unat_of_nat) simp
  note e = ecb_round_trip [OF assms(1) pad16_length(1) [of ?payload]]
  have pl: "length ?payload = length ?packet + 2" by simp
  have pad: "take 2 (pad16 ?payload) = to_le (word_of_nat (length ?packet) :: u16)"
    "take (length ?packet + 2) (pad16 ?payload) = ?payload"
    "length ?packet + 2 \<le> length (pad16 ?payload)"
    using pad16_length(2) [of ?payload] pl by (simp_all add: pad16_def Let_def)
  have fields: "take 2 (drop 2 ?payload) = to_le (1 :: u16)"
    "take 4 (drop 20 ?payload) = to_le (word_of_nat (length ?hex) :: u32)"
    "drop 24 ?payload = ?hex"
    by simp_all
  have len: "\<not> length ?d < 48" "(length ?d - 32) mod 16 = 0" "\<not> length ?payload < 24"
    "drop 32 ?d = ecb (aes_encrypt cr key) (pad16 ?payload)" "take 32 ?d = ?mac"
    using e mac pad(3) packet pad16_length(1) [of ?payload] by simp_all
  have fit: "\<not> length ?payload < 24 + length ?hex"
    by (simp add: hex(1))
  show ?thesis
    unfolding d parse_nethernet_def Let_def len(4,5) e [THEN conjunct1] pad(1)
      le16.dec_enc n16 pad(2) fields le32.dec_enc n32
    using len(1-3) pad(3) fit hex(2)
    by (simp del: length_append length_replicate add: not_less split: option.split)
qed

text \<open>A cipher, a code and a hexadecimal coder to instantiate the parameters.\<close>

fun undouble :: "bytes \<Rightarrow> bytes option" where
  "undouble [] = Some []"
| "undouble [x] = None"
| "undouble (x # y # xs) = (if x = y then map_option ((#) x) (undouble xs) else None)"

definition mirror_crypto :: crypto where
  "mirror_crypto = \<lparr>aes_encrypt = (\<lambda>k b. rev b), aes_decrypt = (\<lambda>k b. rev b),
     hmac_sha256 = (\<lambda>k m. take 32 (m @ replicate 32 0)),
     hex_encode = (\<lambda>d. concat (map (\<lambda>b. [b, b]) d)), hex_decode = undouble\<rparr>"

lemma mirror_crypto_ok: "crypto_ok mirror_crypto key"
proof -
  have "length (concat (map (\<lambda>b. [b, b]) d)) = 2 * length d
      \<and> undouble (concat (map (\<lambda>b. [b, b]) d)) = Some d" for d :: bytes
    by (induction d) simp_all
  then show ?thesis by (auto simp: crypto_ok_def mirror_crypto_def min_def)
qed

text \<open>The server data the parser expects: names with 16-bit lengths.\<close>

definition wide_server_data :: "u8 \<Rightarrow> string \<Rightarrow> string \<Rightarrow> u8 \<Rightarrow> u32 \<Rightarrow> u32 \<Rightarrow> bytes \<Rightarrow> bytes" where
  "wide_server_data version host_name level_name game_type players max_players tail =
     [version] @ to_le (word_of_nat (length host_name) :: u16) @ as_bytes host_name
     @ to_le (word_of_nat (length level_name) :: u16) @ as_bytes level_name
     @ [game_type] @ to_le players @ to_le max_players @ tail"

lemma take_bytes_append: "length xs = n \<Longrightarrow> take_bytes n (xs @ ys) = Some (xs, ys)"
  by (simp add: take_bytes_def)

lemma parse_wide_data:
  assumes "is_str host_name" and "is_str level_name"
    and "length host_name < 65536" and "length level_name < 65536"
  shows "parse_app_data (wide_server_data v host_name level_name g players max_players tail) =
    Some (v, host_name, level_name, players, max_players)"
proof -
  have n: "unat (word_of_nat (length host_name) :: u16) = length host_name"
    "unat (word_of_nat (length level_name) :: u16) = length level_name"
    using assms(3,4) by (simp_all add: unat_of_nat)
  show ?thesis
    by (simp add: parse_app_data_def wide_server_data_def take_bytes_append [of "[_]", simplified]
        take_bytes_append n utf8_lossy_as_bytes assms(1,2))
qed

text \<open>
  discovery reads the NetherNet response of a server that shares the key: names,
  counters and version arrive as sent, with the level's name as the server's name unless it
  is empty, and the port asked for.
\<close>

theorem nethernet_round_trip:
  assumes "crypto_ok cr key" and "is_str host_name" and "is_str level_name"
    and "length host_name + length level_name + length tail \<le> 29000"
  shows "parse_nethernet cr key port (nethernet_datagram cr key sender
      (wide_server_data v host_name level_name g players max_players tail)) = NnServer
    \<lparr>si_name = (if level_name = [] then host_name else level_name), si_host_name = host_name,
     si_mc_version = ''Bedrock v1.20.50+ (v'' @ show_word v @ '')'',
     si_players = players, si_max_players = max_players, si_port = port\<rparr>"
proof -
  have "length (wide_server_data v host_name level_name g players max_players tail) \<le> 30000"
    using assms(4) by (simp add: wide_server_data_def)
  then show ?thesis
    using assms by (simp add: parse_datagram parse_wide_data)
qed

theorem nethernet_round_trip_witness:
  "parse_nethernet mirror_crypto [] 19132 (nethernet_datagram mirror_crypto [] 7
      (wide_server_data 4 ''host'' ''world'' 0 2 10 [])) = NnServer
    \<lparr>si_name = ''world'', si_host_name = ''host'', si_mc_version = ''Bedrock v1.20.50+ (v'' @ show_word (4 :: u8) @ '')'',
     si_players = 2, si_max_players = 10, si_port = 19132\<rparr>"
  using nethernet_round_trip [OF mirror_crypto_ok, of "''host''" "''world''" "[]"]
  by (simp add: is_str_ascii)

lemma parse_own_data:
  assumes "room \<noteq> []" and "length room \<le> 255" and "length host \<le> 255" and "3 \<le> (of_char (hd room) :: nat)"
  shows "parse_app_data (nethernet_server_data room host slots) = None"
proof -
  obtain c cs where room: "room = c # cs" using assms(1) by (cases room) auto
  obtain rest where d: "nethernet_server_data room host slots =
      [4] @ [word_of_nat (length room), of_char c] @ rest" and r: "length rest \<le> 524"
  proof -
    let ?parts = "split_on (CHR ''/'') slots"
    obtain pl mx where pm: "(if length ?parts = 2 then (parse_i32_or 0 (?parts ! 0),
        parse_i32_or 30 (?parts ! 1)) else (0, 30)) = (pl, mx)"
      by (meson surj_pair)
    show ?thesis
      by (rule that [of "as_bytes cs @ [word_of_nat (length host)] @ as_bytes host @ [0] @ to_le pl
            @ to_le mx @ [0, 0, 4, 8]"])
        (use assms(2,3) in \<open>simp_all add: nethernet_server_data_def room as_bytes_def pm Let_def\<close>)
  qed
  let ?n = "from_le [word_of_nat (length room), of_char c] :: u16"
  have l: "unat (word_of_nat (length room) :: u8) = length room"
    using assms(2) by (simp add: unat_of_nat)
  have c: "(of_char c :: nat) < 256" using unat_u8_lt [of "of_char c"] by simp
  have "le_nat [word_of_nat (length room), of_char c] = length room + 256 * of_char c"
    using l by simp
  moreover have "length room + 256 * of_char c < 65536"
    using c assms(2) by linarith
  ultimately have "unat ?n = length room + 256 * of_char c"
    unfolding from_le_def by (subst unat_of_nat) simp
  then have "length rest < unat ?n" using r assms(4) room by simp
  then show ?thesis
    unfolding d parse_app_data_def
    by (simp add: take_bytes_def)
qed

text \<open>
  discovery does not recognise the NetherNet response of the program's own
  broadcasters, even with the same key: they write one-byte name lengths where the parser
  reads two bytes, so for every ordinary room name the response is ignored.
\<close>

theorem own_broadcast_unreadable:
  assumes "crypto_ok cr key" and "room \<noteq> []" and "length room \<le> 255" and "length host \<le> 255"
    and "3 \<le> (of_char (hd room) :: nat)"
  shows "parse_nethernet cr key port (build_response_packet cr key sender room host slots) = NnIgnored"
proof -
  have "length (nethernet_server_data room host slots) \<le> 30000"
    using assms(3,4) by (simp add: nethernet_server_data_def Let_def split: prod.split)
  then show ?thesis
    by (simp add: build_response_packet_def parse_datagram [OF assms(1)] parse_own_data [OF assms(2-5)])
qed

theorem own_broadcast_unreadable_witness:
  "parse_nethernet mirror_crypto [] 19132 (build_response_packet mirror_crypto [] 7 ''room'' ''host'' ''1/10'')
     = NnIgnored"
  by (rule own_broadcast_unreadable [OF mirror_crypto_ok]) simp_all

text \<open>
  one datagram of 48 bytes or more whose length past the first 32 bytes is not a multiple
  of 16 makes the discovery panic, whatever it contains, unless it is a RakNet pong.
\<close>

theorem discovery_panics_on_odd_datagram:
  assumes "48 \<le> length d" and "length d \<le> 2048" and "(length d - 32) mod 16 \<noteq> 0"
    and "d ! 0 \<noteq> 0x1c"
  shows "discover_loop cr key port (d # ds) = NnPanics"
  using assms by (simp add: parse_raknet_pong_def parse_nethernet_def)

theorem discovery_panics_on_odd_datagram_witness:
  "discover_loop mirror_crypto [] 19132 [replicate 49 0] = NnPanics"
  by (rule discovery_panics_on_odd_datagram) simp_all

end
