(* ===== verification/Lan_Broadcast.thy ===== *)
theory Lan_Broadcast
  imports Discovery
begin

text \<open>
  The two ends of LAN discovery around the datagrams of \<open>Discovery\<close>: the probes
  \<open>discovery.rs\<close> sends and the race of its two listeners, and the answering loops of
  \<open>bedrock_broadcaster.rs\<close>, \<open>nethernet_broadcaster.rs\<close> and \<open>broadcaster.rs\<close>. What the sockets
  receive before a cancellation or a time-out is an argument.
\<close>

section \<open>Sending the probes\<close>






text \<open>The probes of the scanner \<open>bin/scan_bedrock.rs\<close>.\<close>

definition scan_probes :: "(bytes \<times> string) list" where
  "scan_probes =
     map (Pair (unconnected_ping 0)) [''255.255.255.255:7551'', ''[::1]:7551'', ''192.168.31.124:7551'']"

text \<open>\<open>probe_bedrock_server_sync\<close> of \<open>minecraft.rs\<close>: one ping to one server, one answer.\<close>

definition probe_bedrock_server_sync ::
  "anyhow + unit \<Rightarrow> anyhow + unit \<Rightarrow> (bytes \<Rightarrow> string \<Rightarrow> anyhow + unit) \<Rightarrow> anyhow + bytes \<Rightarrow>
     string \<Rightarrow> u16 \<Rightarrow> u64 \<Rightarrow> u64 \<Rightarrow> anyhow + external_server_probe" where
  "probe_bedrock_server_sync bound timeouts_set send answer host port time elapsed =
     and_then (with_context ''Failed to bind UDP socket'' bound) (\<lambda>_.
     and_then timeouts_set (\<lambda>_.
     and_then (with_context ''Failed to send UDP ping''
         (send (unconnected_ping time) (host @ '':'' @ show_word port))) (\<lambda>_.
     and_then (with_context ''UDP read timeout or fail'' answer) (\<lambda>datagram.
       read_bedrock_pong datagram elapsed))))"

section \<open>Listening\<close>


fun listen_loop :: "u16 \<Rightarrow> bytes list \<Rightarrow> nn_result" where
  "listen_loop port [] = NnIgnored"
| "listen_loop port (d # ds) =
     (case parse_raknet_pong (take 2048 d) port of
        Some info \<Rightarrow> NnServer info
      | None \<Rightarrow> listen_loop port ds)"

definition listen_for_broadcasts :: "bool \<Rightarrow> u16 \<Rightarrow> bytes list \<Rightarrow> nn_result" where
  "listen_for_broadcasts ready port datagrams =
     (if ready then listen_loop port datagrams else NnIgnored)"

text \<open>
  The \<open>select!\<close> of \<open>discover_local_server\<close>: each listener with the time it returns at and what it
  returns. A listener without a result leaves the race, of several branches that are ready at
  the same time any one may be taken; the list holds the possible outcomes.
\<close>

definition discover_local_server :: "nat \<Rightarrow> nat \<times> nn_result \<Rightarrow> nat \<times> nn_result \<Rightarrow> nn_result list" where
  "discover_local_server timeout active passive =
     (let branches = filter (\<lambda>(t, r). r \<noteq> NnIgnored) [active, passive] @ [(timeout, NnIgnored)];
          first = Min (fst ` set branches)
      in map snd (filter (\<lambda>(t, r). t = first) branches))"

text \<open>\<open>discover_server\<close> of \<open>lib.rs\<close>, with its three seconds in milliseconds.\<close>

definition discover_server :: "nat \<times> nn_result \<Rightarrow> nat \<times> nn_result \<Rightarrow> nn_result list" where
  "discover_server active passive = discover_local_server 3000 active passive"

section \<open>Answering\<close>

datatype bc_event = BcDatagram bytes sock_addr | BcError | BcCancelled

fun answer_loop :: "(bytes \<Rightarrow> bytes option) \<Rightarrow> bc_event list \<Rightarrow> (bytes \<times> sock_addr) list" where
  "answer_loop answer [] = []"
| "answer_loop answer (BcDatagram d addr # es) =
     (case answer (take 1024 d) of
        Some response \<Rightarrow> (response, addr) # answer_loop answer es
      | None \<Rightarrow> answer_loop answer es)"
| "answer_loop answer (BcError # es) = answer_loop answer es"
| "answer_loop answer (BcCancelled # es) = []"

text \<open>The preferred port, or any other one; a socket that is bound has a local address.\<close>

definition bind_or_any :: "anyhow + sock_addr \<Rightarrow> anyhow + sock_addr \<Rightarrow> anyhow + sock_addr" where
  "bind_or_any preferred any_port = (case preferred of Inr a \<Rightarrow> Inr a | Inl _ \<Rightarrow> any_port)"


definition compute_key :: "(bytes \<Rightarrow> bytes) \<Rightarrow> bytes" where
  "compute_key sha256 = sha256 (to_le (0xdeadbeef :: u64))"

text \<open>
  \<open>nethernet_broadcaster.rs\<close> has a copy of \<open>broadcaster.rs\<close>' packet builder; it is translated on its
  own, buffer by buffer, and the two are proved to agree.
\<close>

definition nethernet_response_packet ::
  "crypto \<Rightarrow> bytes \<Rightarrow> u64 \<Rightarrow> string \<Rightarrow> string \<Rightarrow> string \<Rightarrow> bytes" where
  "nethernet_response_packet cr key sender_id room_name host_name slots =
     (let server_data = [4];
          server_name_bytes = as_bytes room_name;
          server_data = server_data @ [word_of_nat (length server_name_bytes)];
          server_data = server_data @ server_name_bytes;
          level_name_bytes = as_bytes host_name;
          server_data = server_data @ [word_of_nat (length level_name_bytes)];
          server_data = server_data @ level_name_bytes;
          parts = split_on (CHR ''/'') slots;
          (players, max_players) =
            (if length parts = 2 then (parse_i32_or 0 (parts ! 0), parse_i32_or 30 (parts ! 1))
             else (0, 30));
          server_data = server_data @ [0];
          server_data = server_data @ to_le players;
          server_data = server_data @ to_le max_players;
          server_data = server_data @ [0] @ [0] @ [4] @ [8];
          hex_data = hex_encode cr server_data;
          app_data_buf = to_le (word_of_nat (length hex_data) :: u32) @ hex_data;
          packet_buf = to_le (1 :: u16) @ to_le sender_id @ replicate 8 0 @ app_data_buf;
          payload = to_le (word_of_nat (length packet_buf) :: u16) @ packet_buf;
          hmac_result = hmac_sha256 cr key payload;
          pos = length payload;
          pad_len = 16 - pos mod 16;
          encrypted = payload @ replicate pad_len (word_of_nat pad_len)
      in hmac_result @ ecb (aes_encrypt cr key) encrypted)"

lemma nethernet_builders_agree:
  "nethernet_response_packet cr key sender_id room_name host_name slots =
     build_response_packet cr key sender_id room_name host_name slots"
  by (simp add: nethernet_response_packet_def build_response_packet_def nethernet_datagram_def
      nethernet_server_data_def pad16_def Let_def case_prod_beta)

definition nethernet_broadcaster_answer ::
  "crypto \<Rightarrow> bytes \<Rightarrow> u64 \<Rightarrow> string \<Rightarrow> string \<Rightarrow> string \<Rightarrow> bytes \<Rightarrow> bytes option" where
  "nethernet_broadcaster_answer cr key server_id room_name host_name slots datagram =
     (if 32 \<le> length datagram then
        Some (nethernet_response_packet cr key server_id room_name host_name slots)
      else None)"

definition nethernet_answer ::
  "crypto \<Rightarrow> bytes \<Rightarrow> u64 \<Rightarrow> string \<Rightarrow> string \<Rightarrow> string \<Rightarrow> bytes \<Rightarrow> bytes option" where
  "nethernet_answer cr key server_id room_name host_name slots datagram =
     (if 32 \<le> length datagram then
        Some (build_response_packet cr key server_id room_name host_name slots)
      else None)"

definition nethernet_start ::
  "crypto \<Rightarrow> (bytes \<Rightarrow> bytes) \<Rightarrow> anyhow + sock_addr \<Rightarrow> anyhow + sock_addr \<Rightarrow> u64 \<Rightarrow> string \<Rightarrow>
     string \<Rightarrow> string \<Rightarrow> bc_event list \<Rightarrow> anyhow + (bytes \<times> sock_addr) list" where
  "nethernet_start cr sha256 preferred any_port server_id room_name host_name slots events =
     and_then (bind_or_any preferred any_port) (\<lambda>_.
       Inr (answer_loop
         (nethernet_broadcaster_answer cr (compute_key sha256) server_id room_name host_name slots) events))"

text \<open>\<open>Broadcasters::start\<close> binds inside its task: without a port the task just ends.\<close>

definition broadcasters_task ::
  "crypto \<Rightarrow> (bytes \<Rightarrow> bytes) \<Rightarrow> anyhow + sock_addr \<Rightarrow> anyhow + sock_addr \<Rightarrow> u64 \<Rightarrow> string \<Rightarrow>
     string \<Rightarrow> string \<Rightarrow> bc_event list \<Rightarrow> (bytes \<times> sock_addr) list" where
  "broadcasters_task cr sha256 preferred any_port server_id room_name host_name slots events =
     (case bind_or_any preferred any_port of
        Inl _ \<Rightarrow> []
      | Inr _ \<Rightarrow> answer_loop
          (nethernet_answer cr (compute_key sha256) server_id room_name host_name slots) events)"

text \<open>\<open>start_broadcasters\<close> of \<open>lib.rs\<close>: the task gets a token nobody holds, so it is never cancelled.\<close>

definition start_broadcasters ::
  "crypto \<Rightarrow> (bytes \<Rightarrow> bytes) \<Rightarrow> anyhow + sock_addr \<Rightarrow> anyhow + sock_addr \<Rightarrow> u64 \<Rightarrow> string \<Rightarrow>
     string \<Rightarrow> string \<Rightarrow> bc_event list \<Rightarrow> (bytes \<times> sock_addr) list" where
  "start_broadcasters cr sha256 preferred any_port server_id room_name host_name slots events =
     broadcasters_task cr sha256 preferred any_port server_id room_name host_name slots
       (filter (\<lambda>e. e \<noteq> BcCancelled) events)"

section \<open>Lemmas\<close>

definition before_cancel :: "bc_event list \<Rightarrow> bc_event list" where
  "before_cancel events = takeWhile (\<lambda>e. e \<noteq> BcCancelled) events"

lemma before_cancel_simps [simp]:
  "before_cancel [] = []" "before_cancel (BcDatagram d a # es) = BcDatagram d a # before_cancel es"
  "before_cancel (BcError # es) = BcError # before_cancel es" "before_cancel (BcCancelled # es) = []"
  by (simp_all add: before_cancel_def)

lemma answer_loop_set:
  "set (answer_loop f events) =
     {(r, a). \<exists>d. BcDatagram d a \<in> set (before_cancel events) \<and> f (take 1024 d) = Some r}"
  by (induction f events rule: answer_loop.induct) (auto split: option.splits)

text \<open>Both listeners end with the first datagram that means something to them.\<close>

definition nn_found :: "nn_result \<Rightarrow> nn_result option" where
  "nn_found r = (if r = NnIgnored then None else Some r)"

definition read_pong :: "u16 \<Rightarrow> bytes \<Rightarrow> nn_result option" where
  "read_pong port d = map_option NnServer (parse_raknet_pong (take 2048 d) port)"


interpretation pongs: first_found "read_pong port" "\<lambda>ds. nn_found (listen_loop port ds)" for port
  by unfold_locales (simp_all add: nn_found_def read_pong_def split: option.split)








section \<open>Properties\<close>


text \<open>
  \<open>discover_local_server\<close> gives up only at its time-out: the outcome is a server exactly one
  of the listeners found, no later than the time-out and no later than what the other found;
  it is nothing only if no listener has found one before the time-out.
\<close>

theorem local_discovery_outcomes:
  "(NnServer info \<in> set (discover_local_server timeout (t1, r1) (t2, r2)) \<longleftrightarrow>
      r1 = NnServer info \<and> t1 \<le> timeout \<and> (r2 = NnIgnored \<or> t1 \<le> t2)
      \<or> r2 = NnServer info \<and> t2 \<le> timeout \<and> (r1 = NnIgnored \<or> t2 \<le> t1))
   \<and> (NnIgnored \<in> set (discover_local_server timeout (t1, r1) (t2, r2)) \<longleftrightarrow>
      (r1 = NnIgnored \<or> timeout \<le> t1) \<and> (r2 = NnIgnored \<or> timeout \<le> t2))"
  by (cases "r1 = NnIgnored"; cases "r2 = NnIgnored")
    (auto simp: discover_local_server_def Let_def image_iff min_def)

text \<open>
  the NetherNet broadcasters answer anybody: every datagram of at least 32 bytes that
  arrives before the cancellation, whatever it holds, gets the same announcement, and
  shorter ones get nothing; the port that was asked for has no part in it.
\<close>

theorem nethernet_answers_anything:
  "set (broadcasters_task cr sha256 (Inr a) any_port sid room host slots events) =
     (\<lambda>addr. (build_response_packet cr (compute_key sha256) sid room host slots, addr)) `
       {addr. \<exists>d. BcDatagram d addr \<in> set (before_cancel events) \<and> 32 \<le> length d}"
  by (auto simp: broadcasters_task_def bind_or_any_def answer_loop_set nethernet_answer_def)

lemma answers_agree:
  "nethernet_broadcaster_answer cr key server_id room_name host_name slots =
     nethernet_answer cr key server_id room_name host_name slots"
  by (simp add: fun_eq_iff nethernet_broadcaster_answer_def nethernet_answer_def
      nethernet_builders_agree)

text \<open>The two NetherNet broadcasters give the same answers.\<close>

theorem nethernet_broadcasters_agree:
  "nethernet_start cr sha256 preferred any_port sid room host slots events = Inr replies \<Longrightarrow>
     broadcasters_task cr sha256 preferred any_port sid room host slots events = replies"
  by (auto simp: nethernet_start_def broadcasters_task_def and_then_eq_Inr answers_agree)


end
