(* ===== verification/Cert.thy ===== *)
theory Cert
  imports P2P_Prelude
begin

text \<open>
  The TLS and QUIC configuration of \<open>cert.rs\<close>: the self-signed certificate of a host, the
  certificate verifier of a client, and the transport both use. Certificate generation
  (\<open>rcgen\<close>), the configuration builders of \<open>rustls\<close> and \<open>quinn\<close> and the verification of
  handshake signatures are parameters.
\<close>

section \<open>The transport\<close>

record transport_config =
  tc_max_uni_streams :: nat
  tc_keep_alive_ms :: "nat option"
  tc_max_idle_ms :: "nat option"
  tc_stream_receive_window :: u32
  tc_receive_window :: u32
  tc_send_window :: u64
  tc_congestion :: string

definition tuned_transport :: transport_config where
  "tuned_transport =
     \<lparr>tc_max_uni_streams = 0, tc_keep_alive_ms = Some 2000, tc_max_idle_ms = Some 20000,
      tc_stream_receive_window = 2 * 1024 * 1024, tc_receive_window = 8 * 1024 * 1024,
      tc_send_window = 8 * 1024 * 1024, tc_congestion = ''bbr''\<rparr>"

section \<open>The host\<close>

record server_config =
  sc_chain :: "bytes list"
  sc_key :: bytes
  sc_transport :: transport_config

definition CERT_NAMES :: "string list" where
  "CERT_NAMES = [''localhost'', ''mc-p2p.local'']"

text \<open>\<open>generate\<close> gives the certificate and its private key, \<open>usable\<close> is the check of \<open>with_single_cert\<close>.\<close>

definition build_server_config ::
  "(string list \<Rightarrow> anyhow + (bytes \<times> bytes)) \<Rightarrow> (bytes list \<Rightarrow> bytes \<Rightarrow> anyhow + unit) \<Rightarrow>
     anyhow + (server_config \<times> bytes)" where
  "build_server_config generate usable =
     and_then (generate CERT_NAMES) (\<lambda>(cert_der, private_key).
     and_then (usable [cert_der] private_key) (\<lambda>_.
       Inr (\<lparr>sc_chain = [cert_der], sc_key = private_key, sc_transport = tuned_transport\<rparr>, cert_der)))"

section \<open>The client\<close>

text \<open>\<open>SkipServerVerification\<close>: the answer to a certificate, and to the signature of a handshake.\<close>

definition verify_server_cert :: "bytes \<Rightarrow> bytes list \<Rightarrow> string \<Rightarrow> bytes \<Rightarrow> nat \<Rightarrow> anyhow + unit" where
  "verify_server_cert end_entity intermediates server_name ocsp_response now = Inr ()"

definition verify_tls_signature ::
  "(bytes \<Rightarrow> bytes \<Rightarrow> bytes \<Rightarrow> anyhow + 'v) \<Rightarrow> bytes \<Rightarrow> bytes \<Rightarrow> bytes \<Rightarrow> anyhow + unit" where
  "verify_tls_signature verify message cert dss = map_sum id (\<lambda>_. ()) (verify message cert dss)"

record client_config =
  cc_alpn :: "bytes list"
  cc_client_cert :: bool
  cc_transport :: transport_config

definition build_insecure_client_config_with_alpn ::
  "anyhow + unit \<Rightarrow> anyhow + unit \<Rightarrow> bytes list \<Rightarrow> anyhow + client_config" where
  "build_insecure_client_config_with_alpn versions quic alpn_protocols =
     and_then versions (\<lambda>_. and_then quic (\<lambda>_.
       Inr \<lparr>cc_alpn = alpn_protocols, cc_client_cert = False, cc_transport = tuned_transport\<rparr>))"

definition build_insecure_client_config :: "anyhow + unit \<Rightarrow> anyhow + unit \<Rightarrow> anyhow + client_config" where
  "build_insecure_client_config versions quic = build_insecure_client_config_with_alpn versions quic []"

text \<open>The two checks of a handshake, in the order \<open>rustls\<close> makes them.\<close>

definition server_accepted ::
  "(bytes \<Rightarrow> bytes \<Rightarrow> bytes \<Rightarrow> anyhow + 'v) \<Rightarrow> bytes \<Rightarrow> bytes list \<Rightarrow> string \<Rightarrow> bytes \<Rightarrow> nat \<Rightarrow>
     bytes \<Rightarrow> bytes \<Rightarrow> bool" where
  "server_accepted verify end_entity intermediates server_name ocsp now message dss \<longleftrightarrow>
     \<not> isl (verify_server_cert end_entity intermediates server_name ocsp now)
     \<and> \<not> isl (verify_tls_signature verify message end_entity dss)"

section \<open>Properties\<close>

text \<open>
  A client accepts every server that holds the key of the certificate it presents, whoever
  issued it, whatever name it is for and whether or not it is still valid: only the signature
  of the handshake, checked with the presented certificate itself, can refuse it. The
  direct connection is therefore encrypted, but the host is not authenticated.
\<close>

theorem host_not_authenticated:
  "server_accepted verify cert intermediates name ocsp now message dss \<longleftrightarrow> \<not> isl (verify message cert dss)"
  by (cases "verify message cert dss")
    (simp_all add: server_accepted_def verify_server_cert_def verify_tls_signature_def)

text \<open>Both ends of a connection use the same transport, which keeps it alive well within its idle limit.\<close>

theorem same_transport:
  assumes "build_server_config generate usable = Inr (sc, cert)"
    and "build_insecure_client_config_with_alpn versions quic alpn = Inr cc"
  shows "sc_transport sc = cc_transport cc \<and> sc_chain sc = [cert]
    \<and> (\<exists>k i. tc_keep_alive_ms (sc_transport sc) = Some k \<and> tc_max_idle_ms (cc_transport cc) = Some i \<and> 10 * k \<le> i)"
  using assms
  by (auto simp: build_server_config_def build_insecure_client_config_with_alpn_def and_then_eq_Inr
      tuned_transport_def split: prod.splits)

theorem same_transport_witness:
  "\<exists>sc cert. build_server_config (\<lambda>_. Inr ([1], [2])) (\<lambda>_ _. Inr ()) = Inr (sc, cert)
     \<and> tc_max_idle_ms (sc_transport sc) = Some 20000"
proof -
  have s: "build_server_config (\<lambda>_. Inr ([1], [2])) (\<lambda>_ _. Inr ()) =
      Inr (\<lparr>sc_chain = [[1]], sc_key = [2], sc_transport = tuned_transport\<rparr>, [1])"
    and c: "build_insecure_client_config_with_alpn (Inr ()) (Inr ()) [] =
      Inr \<lparr>cc_alpn = [], cc_client_cert = False, cc_transport = tuned_transport\<rparr>"
    by (simp_all add: build_server_config_def build_insecure_client_config_with_alpn_def)
  show ?thesis using same_transport [OF s c] s by (auto simp: tuned_transport_def)
qed

end
