(* ===== verification/Rust_Text.thy ===== *)
theory Rust_Text
  imports Rust_Str
begin

text \<open>
  More of Rust's \<open>str\<close>, as the readers of command output, log files and configuration use it:
  \<open>lines\<close>, \<open>split_whitespace\<close>, \<open>split_once\<close>, \<open>rsplit_once\<close>, \<open>get(n..)\<close>, \<open>trim_matches\<close>,
  \<open>eq_ignore_ascii_case\<close> and \<open>parse\<close> into machine integers.
\<close>

definition starts_with :: "string \<Rightarrow> string \<Rightarrow> bool" where
  "starts_with s pat \<longleftrightarrow> take (length pat) s = pat"

definition ends_with :: "string \<Rightarrow> string \<Rightarrow> bool" where
  "ends_with s pat \<longleftrightarrow> length pat \<le> length s \<and> drop (length s - length pat) s = pat"

definition strip_cr :: "string \<Rightarrow> string" where
  "strip_cr s = (if s \<noteq> [] \<and> last s = char_of (13 :: nat) then butlast s else s)"

definition str_lines :: "string \<Rightarrow> string list" where
  "str_lines s =
     (let ps = split_on (char_of (10 :: nat)) s
      in map strip_cr (butlast ps) @ (if last ps = [] then [] else [last ps]))"

fun until_ws :: "string \<Rightarrow> string" where
  "until_ws [] = []"
| "until_ws (c # cs) = (if ws_prefix (codes (c # cs)) = 0 then c # until_ws cs else [])"

lemma length_until_ws: "length (until_ws s) \<le> length s"
  by (induction s) auto

lemma length_trim_start: "length (trim_start s) \<le> length s"
proof (induction s rule: trim_start.induct)
  case (1 s)
  then show ?case
    by (subst trim_start.simps) (auto simp: Let_def intro: order_trans)
qed

lemma until_ws_pos: "trim_start s \<noteq> [] \<Longrightarrow> until_ws (trim_start s) \<noteq> []"
  using trim_start_done [of s] by (cases "trim_start s") auto

function split_whitespace :: "string \<Rightarrow> string list" where
  "split_whitespace s =
     (let t = trim_start s in
      if t = [] then [] else until_ws t # split_whitespace (drop (length (until_ws t)) t))"
  by pat_completeness auto
termination
proof (relation "measure length", goal_cases)
  case (2 s t)
  then have "0 < length (until_ws t)" using until_ws_pos [of s] by simp
  moreover have "0 < length t" using 2 by simp
  ultimately have "length t - length (until_ws t) < length t" by simp
  then show ?case
    using 2 length_trim_start [of s] by (simp del: length_greater_0_conv)
qed simp

declare split_whitespace.simps [simp del]

section \<open>Evaluation\<close>

definition visible :: "char \<Rightarrow> bool" where
  "visible c \<longleftrightarrow> 32 < (of_char c :: nat) \<and> (of_char c :: nat) < 128"

lemma ws_prefix_visible: "visible c \<Longrightarrow> ws_prefix (codes (c # cs)) = 0"
  by (simp add: visible_def codes_def)

lemma ws_prefix_blank: "ws_prefix (codes (CHR '' '' # cs)) = 1"
  by (simp add: codes_def)

lemma trim_start_visible: "visible c \<Longrightarrow> trim_start (c # cs) = c # cs"
  by (simp add: trim_start_id ws_prefix_visible)

lemma trim_start_blank: "trim_start (CHR '' '' # cs) = trim_start cs"
  by (subst trim_start.simps) (simp only: Let_def ws_prefix_blank, simp)

lemma split_whitespace_Nil: "split_whitespace [] = []"
  by (subst split_whitespace.simps) (simp add: codes_def trim_start_id)

lemma until_ws_visible: "visible c \<Longrightarrow> until_ws (c # cs) = c # until_ws cs"
  by (simp only: until_ws.simps ws_prefix_visible simp_thms if_True)

lemma until_ws_blank: "until_ws (CHR '' '' # cs) = []"
  by (simp only: until_ws.simps ws_prefix_blank, simp)

lemma split_whitespace_visible:
  "visible c \<Longrightarrow> split_whitespace (c # cs) =
     (c # until_ws cs) # split_whitespace (drop (length (until_ws cs)) cs)"
  by (subst split_whitespace.simps) (simp add: Let_def trim_start_visible until_ws_visible del: until_ws.simps)

lemma split_whitespace_blank: "split_whitespace (CHR '' '' # cs) = split_whitespace cs"
  by (subst (1 2) split_whitespace.simps) (simp only: trim_start_blank)

text \<open>Evaluation on ASCII texts, one character at a time.\<close>

lemmas ascii_eval = trim_start_visible trim_start_blank until_ws_visible until_ws_blank
  split_whitespace_Nil split_whitespace_visible split_whitespace_blank visible_def

lemma ws_prefix_tail:
  "0 < n \<Longrightarrow> n \<le> length s \<Longrightarrow> \<forall>c \<in> set s. visible c \<Longrightarrow> ws_prefix (drop (length s - n) (codes s)) = 0"
proof -
  assume n: "0 < n" "n \<le> length s" and v: "\<forall>c \<in> set s. visible c"
  then obtain c cs where c: "drop (length s - n) s = c # cs" by (cases "drop (length s - n) s") auto
  then have "visible c" using v by (metis in_set_dropD list.set_intros(1))
  then show ?thesis using ws_prefix_visible [of c cs] c by (metis codes_def drop_map)
qed

lemma trim_visible: "\<forall>c \<in> set s. visible c \<Longrightarrow> trim s = s"
proof -
  assume v: "\<forall>c \<in> set s. visible c"
  have l: "length (codes s) = length s" by (simp add: codes_def)
  have "ws_suffix (codes s) = 0"
    using ws_prefix_tail [OF _ _ v, of 1] ws_prefix_tail [OF _ _ v, of 2] ws_prefix_tail [OF _ _ v, of 3]
    by (auto simp: ws_suffix_def Let_def l)
  moreover have "ws_prefix (codes s) = 0"
    using v ws_prefix_visible by (cases s) (auto simp: codes_def)
  ultimately show ?thesis by (simp add: trim_def trim_start_id trim_end_id)
qed

lemma visible_digit: "is_digit c \<Longrightarrow> visible c"
  by (auto simp: is_digit_def visible_def Let_def)

lemma visible_show_nat: "\<forall>c \<in> set (show_nat n). visible c"
  using show_nat_digits [of n] visible_digit by (auto simp: list_all_iff)

section \<open>Splitting and parsing\<close>

text \<open>\<open>split_once\<close> with a string, \<open>rsplit_once\<close> with a character.\<close>

definition split_once :: "string \<Rightarrow> string \<Rightarrow> (string \<times> string) option" where
  "split_once pat s = map_option (\<lambda>i. (take i s, drop (i + length pat) s)) (find_sub pat s)"

definition rsplit_once :: "char \<Rightarrow> string \<Rightarrow> (string \<times> string) option" where
  "rsplit_once c s =
     (if c \<in> set s then
        Some (rev (tl (dropWhile (\<lambda>d. d \<noteq> c) (rev s))), rev (takeWhile (\<lambda>d. d \<noteq> c) (rev s)))
      else None)"

text \<open>\<open>get(n..)\<close>: none past the end or inside a character.\<close>

definition get_from :: "nat \<Rightarrow> string \<Rightarrow> string option" where
  "get_from n s =
     (if n = length s \<or> n < length s \<and> \<not> is_cont (of_char (s ! n)) then Some (drop n s) else None)"

definition trim_matches :: "(char \<Rightarrow> bool) \<Rightarrow> string \<Rightarrow> string" where
  "trim_matches p s = rev (dropWhile p (rev (dropWhile p s)))"

definition eq_ignore_ascii_case :: "string \<Rightarrow> string \<Rightarrow> bool" where
  "eq_ignore_ascii_case s t \<longleftrightarrow> to_ascii_lowercase s = to_ascii_lowercase t"

definition parse_u16 :: "string \<Rightarrow> 16 word option" where
  "parse_u16 s = map_option word_of_nat (parse_unsigned (2 ^ 16) s)"

definition parse_u32 :: "string \<Rightarrow> 32 word option" where
  "parse_u32 s = map_option word_of_nat (parse_unsigned (2 ^ 32) s)"

definition show_int :: "int \<Rightarrow> string" where
  "show_int i = (if i < 0 then ''-'' @ show_nat (nat (- i)) else show_nat (nat i))"

section \<open>Facts\<close>

lemma split_once_first:
  "find_sub pat s = Some i \<Longrightarrow> s = take i s @ pat @ drop (i + length pat) s"
proof (induction s arbitrary: i)
  case Nil
  then show ?case by (auto split: if_splits)
next
  case (Cons c cs)
  show ?case
  proof (cases "take (length pat) (c # cs) = pat")
    case True
    then show ?thesis using Cons.prems by (metis add_0 append_Nil append_take_drop_id find_sub.simps(2) option.sel take0)
  next
    case False
    then show ?thesis using Cons by (cases i) auto
  qed
qed

lemma split_onceD: "split_once pat s = Some (a, b) \<Longrightarrow> s = a @ pat @ b"
  using split_once_first [of pat s] by (auto simp: split_once_def)

lemma rsplit_once_append: "c \<notin> set b \<Longrightarrow> rsplit_once c (a @ c # b) = Some (a, b)"
  by (auto simp: rsplit_once_def dropWhile_append takeWhile_append)

lemma rsplit_onceD: "rsplit_once c s = Some (a, b) \<Longrightarrow> s = a @ c # b \<and> c \<notin> set b"
proof -
  assume r: "rsplit_once c s = Some (a, b)"
  then have "c \<in> set s" by (auto simp: rsplit_once_def split: if_splits)
  then obtain x y where "s = x @ c # y" "c \<notin> set y" by (metis split_list_last)
  then show ?thesis using r by (simp add: rsplit_once_append)
qed

end
