(* ===== verification/Game_Ports.thy ===== *)
theory Game_Ports
  imports Rust_Text Net_Addr
begin

text \<open>
  Finding the local game by the ports it listens on (\<open>minecraft.rs\<close>): the rows of \<open>netstat\<close>
  are matched with the Java and Bedrock processes, scored, sorted and offered to the user.
  The output of the commands, the process list and the files are arguments, and so is
  \<open>lower\<close>, the Unicode \<open>to_lowercase\<close> of \<open>std\<close>.
\<close>

section \<open>Rows\<close>

definition split_host_port_label :: "string \<Rightarrow> (string \<times> u16) option" where
  "split_host_port_label value =
     (if value = [] then None
      else if starts_with value ''['' then
        Option.bind (find_sub '']'' value) (\<lambda>close.
        Option.bind (Option.bind (get_from (close + 2) value) parse_u16) (\<lambda>port.
          Some (drop 1 (take close value), port)))
      else Option.bind (rsplit_once CHR '':'' value) (\<lambda>(host, port).
        map_option (Pair host) (parse_u16 port)))"

definition is_local_bind_host :: "string \<Rightarrow> bool" where
  "is_local_bind_host host =
     (to_ascii_lowercase (trim_matches (\<lambda>c. c = CHR ''['' \<or> c = CHR '']'') (trim host))
        \<in> {''127.0.0.1'', ''0.0.0.0'', ''::1'', ''::'', ''*'', ''localhost''})"

record java_process =
  jp_pid :: u32
  jp_command_line :: string
  jp_working_dir :: "string option"
  jp_server_port :: "u16 option"

record candidate =
  cd_priority :: int
  cd_port :: u16
  cd_pid :: u32
  cd_local :: string
  cd_proto :: string

definition mc_related :: "string \<Rightarrow> bool" where
  "mc_related cmd =
     list_ex (contains cmd) [''minecraft'', ''.minecraft'', ''fabric-loader'', ''forge'', ''quilt'',
       ''net.minecraft'', ''server.jar'', ''papermc'', ''spigot'']"

definition tcp_priority :: "string \<Rightarrow> u16 option \<Rightarrow> u16 \<Rightarrow> int" where
  "tcp_priority cmd server_port port =
     (let is_mc_related = mc_related cmd; is_javaw = contains cmd ''javaw''
      in (if \<not> is_mc_related \<and> \<not> is_javaw then - 500 else if is_mc_related then 150 else 10)
         + (if port = 25565 then 100 else 0)
         + (case server_port of Some target \<Rightarrow> if port = target then 250 else 0 | None \<Rightarrow> 0)
         + (if list_ex (contains cmd) [''purpur'', ''paper'', ''spigot'', ''velocity'', ''waterfall'']
            then 100 else 0)
         + (if is_mc_related \<and> (contains cmd ''minecraft.applet''
                \<or> contains cmd ''net.minecraft.client.main.main'')
            then 80 + (if 49151 < port then 70 else 0) else 0))"

definition udp_priority :: "string \<Rightarrow> u16 \<Rightarrow> int" where
  "udp_priority host port =
     200 + (if port = 19132 \<or> port = 19133 then 300 else if port = 7551 then 250
            else if 49151 < port then 50 else 0)
         + (if host = ''0.0.0.0'' \<or> host = ''::'' \<or> host = ''0'' then 100 else 0)"

text \<open>The part both loops share: the label, the pid and the port filter.\<close>

definition row_port :: "string \<Rightarrow> string \<Rightarrow> (u32 \<times> string \<times> u16) option" where
  "row_port local pid_column =
     Option.bind (parse_u32 pid_column) (\<lambda>pid.
     Option.bind (split_host_port_label local) (\<lambda>(host, port).
       if port = 0 \<or> port < 1024 \<or> \<not> is_local_bind_host host then None else Some (pid, host, port)))"

definition tcp_row :: "(string \<Rightarrow> string) \<Rightarrow> (u32 \<rightharpoonup> java_process) \<Rightarrow> string \<Rightarrow> candidate option" where
  "tcp_row lower procs line =
     (let trimmed = trim line; columns = split_whitespace trimmed
      in if \<not> starts_with trimmed ''TCP'' \<or> length columns < 5
            \<or> \<not> eq_ignore_ascii_case (columns ! 3) ''LISTENING'' then None
         else Option.bind (row_port (columns ! 1) (columns ! 4)) (\<lambda>(pid, host, port).
           map_option (\<lambda>meta. \<lparr>cd_priority = tcp_priority (lower (jp_command_line meta))
                                 (jp_server_port meta) port,
                               cd_port = port, cd_pid = pid, cd_local = columns ! 1, cd_proto = ''TCP''\<rparr>)
             (procs pid)))"

definition udp_row :: "(string \<Rightarrow> string) \<Rightarrow> (u32 \<rightharpoonup> java_process) \<Rightarrow> string \<Rightarrow> candidate option" where
  "udp_row lower procs line =
     (let trimmed = trim line; columns = split_whitespace trimmed
      in if \<not> starts_with trimmed ''UDP'' \<or> length columns < 4 then None
         else Option.bind (row_port (columns ! 1) (columns ! 3)) (\<lambda>(pid, host, port).
           Option.bind (procs pid) (\<lambda>meta.
             if contains (lower (jp_command_line meta)) ''minecraft.windows'' then
               let priority = udp_priority host port
               in if 0 < priority then
                    Some \<lparr>cd_priority = priority, cd_port = port, cd_pid = pid,
                          cd_local = columns ! 1, cd_proto = ''UDP''\<rparr>
                  else None
             else None)))"

section \<open>Candidates\<close>

text \<open>A command's output: none if it could not be run, else its success and standard output.\<close>

type_synonym command_output = "(bool \<times> bytes) option"

definition output_text :: "command_output \<Rightarrow> string option" where
  "output_text output =
     (case output of Some (True, stdout) \<Rightarrow> Some (utf8_lossy stdout) | _ \<Rightarrow> None)"

definition command_rows :: "(string \<Rightarrow> candidate option) \<Rightarrow> command_output \<Rightarrow> candidate list" where
  "command_rows row output =
     (case output_text output of Some content \<Rightarrow> List.map_filter row (str_lines content) | None \<Rightarrow> [])"

record lan_port_detection =
  ld_port :: u16
  ld_source_path :: string
  ld_source_line :: string

definition detection_of :: "candidate \<Rightarrow> lan_port_detection" where
  "detection_of c =
     \<lparr>ld_port = cd_port c, ld_source_path = ''system:netstat+ps'',
      ld_source_line = ''netstat '' @ cd_proto c @ '' '' @ cd_local c @ '' pid '' @ show_word (cd_pid c)
        @ '' (priority '' @ show_int (cd_priority c) @ '')''\<rparr>"

record listeners_env =
  le_processes :: "u32 \<rightharpoonup> java_process"
  le_tcp :: command_output
  le_udp :: command_output

definition candidates :: "(string \<Rightarrow> string) \<Rightarrow> listeners_env \<Rightarrow> candidate list" where
  "candidates lower e =
     command_rows (tcp_row lower (le_processes e)) (le_tcp e)
       @ command_rows (udp_row lower (le_processes e)) (le_udp e)"

text \<open>The sort is stable and descending in the priority.\<close>

definition detect_lan_ports_from_system_listeners ::
  "(string \<Rightarrow> string) \<Rightarrow> listeners_env \<Rightarrow> lan_port_detection list" where
  "detect_lan_ports_from_system_listeners lower e =
     map detection_of (sort_key (\<lambda>c. - cd_priority c) (candidates lower e))"

text \<open>
  \<open>unique.entry(port).or_insert(det)\<close> keeps the first detection of a port; the values are
  sorted by their distinct ports, so the order of the hash map does not matter.
\<close>

fun first_per_key :: "('a \<Rightarrow> 'k) \<Rightarrow> 'a list \<Rightarrow> 'a list" where
  "first_per_key k [] = []"
| "first_per_key k (x # xs) = x # first_per_key k (filter (\<lambda>y. k y \<noteq> k x) xs)"

definition detect_all_lan_ports_blocking ::
  "(string \<Rightarrow> string) \<Rightarrow> listeners_env \<Rightarrow> anyhow + lan_port_detection list" where
  "detect_all_lan_ports_blocking lower e =
     (let result = sort_key ld_port (first_per_key ld_port (detect_lan_ports_from_system_listeners lower e))
      in if result = [] then Inl [''could not find any Minecraft LAN ports''] else Inr result)"

definition get_available_lan_ports_command ::
  "(string \<Rightarrow> string) \<Rightarrow> listeners_env \<Rightarrow> u16 list \<Rightarrow> string + lan_port_detection list" where
  "get_available_lan_ports_command lower e ignored_ports =
     (case detect_all_lan_ports_blocking lower e of
        Inl err \<Rightarrow> Inl (''Detection failed: '' @ hd err)
      | Inr all_detected \<Rightarrow> Inr (filter (\<lambda>d. ld_port d \<notin> set ignored_ports) all_detected))"

section \<open>Processes\<close>

record ps_process =
  ps_process_id :: u32
  ps_command_line :: "string option"
  ps_working_directory :: "string option"

definition parse_server_port :: "string \<Rightarrow> u16 option" where
  "parse_server_port props =
     (case find (\<lambda>l. starts_with l ''server-port='') (str_lines props) of
        None \<Rightarrow> None
      | Some l \<Rightarrow> (let parts = split_on CHR ''='' l in
                   if 1 < length parts then parse_u16 (trim (parts ! 1)) else None))"

text \<open>
  \<open>from_list\<close> and \<open>from_one\<close> are serde's readers of the command's JSON, \<open>read_props\<close> the text of
  \<open>server.properties\<close> in a directory if the file exists and can be read.
\<close>

definition collect_java_process_metadata ::
  "(string \<Rightarrow> ps_process list option) \<Rightarrow> (string \<Rightarrow> ps_process option) \<Rightarrow> (string \<Rightarrow> string option) \<Rightarrow>
     command_output \<Rightarrow> (u32 \<rightharpoonup> java_process)" where
  "collect_java_process_metadata from_list from_one read_props output =
     (case output_text output of
        None \<Rightarrow> Map.empty
      | Some json_text \<Rightarrow>
          let items = (if starts_with (trim json_text) ''['' then
                         (case from_list json_text of Some items \<Rightarrow> items | None \<Rightarrow> [])
                       else (case from_one json_text of Some i \<Rightarrow> [i] | None \<Rightarrow> []))
          in fold (\<lambda>i m. m(ps_process_id i \<mapsto>
               \<lparr>jp_pid = ps_process_id i,
                jp_command_line = (case ps_command_line i of Some c \<Rightarrow> c | None \<Rightarrow> []),
                jp_working_dir = ps_working_directory i,
                jp_server_port = Option.bind (Option.bind (ps_working_directory i) read_props)
                                   parse_server_port\<rparr>)) items Map.empty)"

section \<open>Lemmas\<close>

lemma first_per_key_set: "set (first_per_key k xs) \<subseteq> set xs"
  by (induction k xs rule: first_per_key.induct) auto

lemma first_per_key_keys: "k ` set (first_per_key k xs) = k ` set xs"
proof (induction k xs rule: first_per_key.induct)
  case (2 k x xs)
  have "insert (k x) (k ` {y \<in> set xs. k y \<noteq> k x}) = insert (k x) (k ` set xs)" by auto
  with 2 show ?case by simp
qed simp

lemma first_per_key_distinct: "distinct (map k (first_per_key k xs))"
proof (induction k xs rule: first_per_key.induct)
  case (2 k x xs)
  moreover have "k x \<notin> k ` set (first_per_key k (filter (\<lambda>y. k y \<noteq> k x) xs))"
    by (subst first_per_key_keys) auto
  ultimately show ?case by simp
qed simp

lemma first_per_key_map: "first_per_key k (map f xs) = map f (first_per_key (k \<circ> f) xs)"
proof (induction "k \<circ> f" xs rule: first_per_key.induct)
  case (2 x xs)
  have "filter (\<lambda>y. k y \<noteq> k (f x)) (map f xs) = map f (filter (\<lambda>y. (k \<circ> f) y \<noteq> (k \<circ> f) x) xs)"
    by (simp add: filter_map comp_def)
  with 2 show ?case by simp
qed simp

text \<open>Of a list sorted by another key, the first entry of each group has the least key.\<close>

lemma first_per_key_least:
  "sorted (map q xs) \<Longrightarrow> x \<in> set (first_per_key k xs) \<Longrightarrow> y \<in> set xs \<Longrightarrow> k y = k x \<Longrightarrow> q x \<le> q y"
proof (induction k xs rule: first_per_key.induct)
  case (2 k z zs)
  show ?case
  proof (cases "x = z")
    case True
    then show ?thesis using "2.prems" by auto
  next
    case False
    then have x: "x \<in> set (first_per_key k (filter (\<lambda>y. k y \<noteq> k z) zs))" using "2.prems"(2) by simp
    then have "k x \<noteq> k z" using first_per_key_set [of k "filter (\<lambda>y. k y \<noteq> k z) zs"] by auto
    then have "y \<in> set (filter (\<lambda>y. k y \<noteq> k z) zs)" using "2.prems"(3,4) by auto
    moreover have "sorted (map q (filter (\<lambda>y. k y \<noteq> k z) zs))"
      using "2.prems"(1) by (simp add: sorted_filter)
    ultimately show ?thesis using "2.IH" x "2.prems"(4) by blast
  qed
qed simp

lemma map_filter_setD: "y \<in> set (List.map_filter f xs) \<Longrightarrow> \<exists>x \<in> set xs. f x = Some y"
  by (auto simp: List.map_filter_def)

lemma row_portD:
  "row_port local p = Some (pid, host, port) \<Longrightarrow>
     split_host_port_label local = Some (host, port) \<and> is_local_bind_host host \<and> 1024 \<le> port"
  by (auto simp: row_port_def bind_eq_Some_conv not_less split: if_splits)

lemma udp_priority_ge: "200 \<le> udp_priority host port"
  by (simp add: udp_priority_def)

lemma tcp_rowD:
  assumes "tcp_row lower procs line = Some c"
  shows "\<exists>meta host. procs (cd_pid c) = Some meta \<and> split_host_port_label (cd_local c) = Some (host, cd_port c)
    \<and> is_local_bind_host host \<and> 1024 \<le> cd_port c \<and> cd_proto c = ''TCP''
    \<and> cd_priority c = tcp_priority (lower (jp_command_line meta)) (jp_server_port meta) (cd_port c)"
  using assms row_portD
  by (fastforce simp: tcp_row_def Let_def bind_eq_Some_conv split: if_splits)

lemma udp_rowD:
  assumes "udp_row lower procs line = Some c"
  shows "\<exists>meta host. procs (cd_pid c) = Some meta \<and> split_host_port_label (cd_local c) = Some (host, cd_port c)
    \<and> is_local_bind_host host \<and> 1024 \<le> cd_port c \<and> cd_proto c = ''UDP''
    \<and> contains (lower (jp_command_line meta)) ''minecraft.windows''
    \<and> cd_priority c = udp_priority host (cd_port c)"
  using assms row_portD
  by (fastforce simp: udp_row_def Let_def bind_eq_Some_conv split: if_splits)

lemma command_rowsD: "c \<in> set (command_rows row output) \<Longrightarrow> \<exists>line. row line = Some c"
  by (auto simp: command_rows_def dest: map_filter_setD split: option.splits)

text \<open>
  C34: what can be offered at all: every candidate port is unprivileged, belongs to one of the
  processes that were found, and is bound to a local or an unspecified address as its label
  says; a TCP candidate has the score of the rules for Java servers, and a UDP candidate is
  the Bedrock client's and has the score of the rules for it, which is never below 200.
\<close>

theorem candidate_is_local_listener:
  assumes "c \<in> set (candidates lower e)"
  shows "1024 \<le> cd_port c \<and> (\<exists>meta host. le_processes e (cd_pid c) = Some meta
    \<and> split_host_port_label (cd_local c) = Some (host, cd_port c) \<and> is_local_bind_host host
    \<and> (cd_proto c = ''TCP''
         \<and> cd_priority c = tcp_priority (lower (jp_command_line meta)) (jp_server_port meta) (cd_port c)
       \<or> cd_proto c = ''UDP'' \<and> contains (lower (jp_command_line meta)) ''minecraft.windows''
         \<and> cd_priority c = udp_priority host (cd_port c) \<and> 200 \<le> cd_priority c))"
proof -
  consider line where "tcp_row lower (le_processes e) line = Some c"
    | line where "udp_row lower (le_processes e) line = Some c"
    using assms by (auto simp: candidates_def dest: command_rowsD)
  then show ?thesis
  proof cases
    case 1
    then show ?thesis using tcp_rowD [OF 1] by auto
  next
    case 2
    then show ?thesis using udp_rowD [OF 2] udp_priority_ge by auto
  qed
qed

lemma offered_ports:
  assumes "detect_all_lan_ports_blocking lower e = Inr ds"
  shows "sorted (map ld_port ds)" and "distinct (map ld_port ds)"
    and "ld_port ` set ds = cd_port ` set (candidates lower e)"
    and "d \<in> set ds \<Longrightarrow> \<exists>c \<in> set (candidates lower e). d = detection_of c \<and>
      (\<forall>c' \<in> set (candidates lower e). cd_port c' = cd_port c \<longrightarrow> cd_priority c' \<le> cd_priority c)"
proof -
  let ?cs = "sort_key (\<lambda>c. - cd_priority c) (candidates lower e)"
  have ds: "ds = sort_key ld_port (first_per_key ld_port (map detection_of ?cs))"
    using assms
    by (simp add: detect_all_lan_ports_blocking_def detect_lan_ports_from_system_listeners_def Let_def
        split: if_splits)
  have k: "ld_port \<circ> detection_of = cd_port" by (auto simp: detection_of_def)
  show "sorted (map ld_port ds)" by (simp add: ds)
  have "distinct (map ld_port (first_per_key ld_port (map detection_of ?cs)))"
    by (rule first_per_key_distinct)
  then show "distinct (map ld_port ds)"
    by (simp add: ds distinct_map)
  show "ld_port ` set ds = cd_port ` set (candidates lower e)"
    by (simp add: ds first_per_key_keys image_comp k)
  assume "d \<in> set ds"
  then obtain c where c: "c \<in> set (first_per_key cd_port ?cs)" "d = detection_of c"
    by (auto simp: ds first_per_key_map k)
  then have "cd_priority c' \<le> cd_priority c"
    if "c' \<in> set (candidates lower e)" "cd_port c' = cd_port c" for c'
    using first_per_key_least [OF _ c(1), of "\<lambda>c. - cd_priority c" c'] that by simp
  moreover have "c \<in> set (candidates lower e)" using c(1) first_per_key_set [of cd_port ?cs] by auto
  ultimately show "\<exists>c \<in> set (candidates lower e). d = detection_of c \<and>
      (\<forall>c' \<in> set (candidates lower e). cd_port c' = cd_port c \<longrightarrow> cd_priority c' \<le> cd_priority c)"
    using c(2) by blast
qed

text \<open>
  C33: the ports offered to the user are exactly the candidates' ports that are not ignored, each
  once and in ascending order, and each is described by the row that scored highest for it.
\<close>

theorem lan_ports_offered:
  assumes "get_available_lan_ports_command lower e ignored = Inr ds"
  shows "sorted (map ld_port ds) \<and> distinct (map ld_port ds)
    \<and> ld_port ` set ds = cd_port ` set (candidates lower e) - set ignored
    \<and> (\<forall>d \<in> set ds. \<exists>c \<in> set (candidates lower e). d = detection_of c \<and>
        (\<forall>c' \<in> set (candidates lower e). cd_port c' = cd_port c \<longrightarrow> cd_priority c' \<le> cd_priority c))"
proof -
  obtain all_ds where a: "detect_all_lan_ports_blocking lower e = Inr all_ds"
      "ds = filter (\<lambda>d. ld_port d \<notin> set ignored) all_ds"
    using assms by (auto simp: get_available_lan_ports_command_def split: sum.splits)
  have "ld_port ` set ds = ld_port ` set all_ds - set ignored" by (auto simp: a(2))
  then show ?thesis
    using offered_ports [OF a(1)] by (simp add: a(2) sorted_filter distinct_map_filter)
qed

section \<open>A sample\<close>

text \<open>
  An editor on port 80 and on the unspecified IPv6 address, and a Paper server. The editor
  runs in \<open>javaw\<close> and outscores the server, whose jar the rules for Minecraft do not know.
\<close>

definition sample_netstat :: string where
  "sample_netstat = ''  TCP    127.0.0.1:80     0.0.0.0:0  LISTENING  7'' @ [char_of (13 :: nat), char_of (10 :: nat)]
     @ ''  TCP    [::]:25565   [::]:0   LISTENING  7'' @ [char_of (13 :: nat), char_of (10 :: nat)]
     @ ''  TCP    0.0.0.0:25565   0.0.0.0:0  LISTENING  42''"

definition sample_listeners :: listeners_env where
  "sample_listeners = \<lparr>le_processes = [7 \<mapsto> \<lparr>jp_pid = 7, jp_command_line = ''javaw -jar Editor.jar'', jp_working_dir = None, jp_server_port = None\<rparr>,
      42 \<mapsto> \<lparr>jp_pid = 42, jp_command_line = ''java -jar Paper.jar'', jp_working_dir = Some ''C:/mc'', jp_server_port = Some 25565\<rparr>],
     le_tcp = Some (True, as_bytes sample_netstat), le_udp = None\<rparr>"


lemma sample_text: "utf8_lossy (as_bytes sample_netstat) = sample_netstat"
  by (rule utf8_lossy_as_bytes, rule is_str_ascii) (simp add: sample_netstat_def)

lemma sample_lines: "str_lines sample_netstat =
   [''  TCP    127.0.0.1:80     0.0.0.0:0  LISTENING  7'',
    ''  TCP    [::]:25565   [::]:0   LISTENING  7'',
    ''  TCP    0.0.0.0:25565   0.0.0.0:0  LISTENING  42'']"
  by code_simp
lemma sample_trim: "trim ''  TCP    127.0.0.1:80     0.0.0.0:0  LISTENING  7'' = ''TCP    127.0.0.1:80     0.0.0.0:0  LISTENING  7''"
 "trim ''  TCP    [::]:25565   [::]:0   LISTENING  7'' = ''TCP    [::]:25565   [::]:0   LISTENING  7''"
 "trim ''  TCP    0.0.0.0:25565   0.0.0.0:0  LISTENING  42'' = ''TCP    0.0.0.0:25565   0.0.0.0:0  LISTENING  42''"
  by code_simp+

lemma sample_columns: "split_whitespace ''TCP    127.0.0.1:80     0.0.0.0:0  LISTENING  7'' =
      [''TCP'', ''127.0.0.1:80'', ''0.0.0.0:0'', ''LISTENING'', ''7'']"
    "split_whitespace ''TCP    [::]:25565   [::]:0   LISTENING  7'' = 
    [''TCP'', ''[::]:25565'', ''[::]:0'', ''LISTENING'', ''7'']"
    "split_whitespace ''TCP    0.0.0.0:25565   0.0.0.0:0  LISTENING  42'' =
    [''TCP'', ''0.0.0.0:25565'', ''0.0.0.0:0'', ''LISTENING'', ''42'']"
  by (simp_all add: ascii_eval until_ws.simps(1) del: until_ws.simps(2))

lemmas parse_defs = parse_u16_def parse_u32_def parse_unsigned_def dec_value_def strip_plus_def is_digit_def

lemma sample_candidates:
  "candidates to_ascii_lowercase sample_listeners =
     [\<lparr>cd_priority = 110, cd_port = 25565, cd_pid = 7, cd_local = ''[::]:25565'', cd_proto = ''TCP''\<rparr>,
      \<lparr>cd_priority = - 50, cd_port = 25565, cd_pid = 42, cd_local = ''0.0.0.0:25565'', cd_proto = ''TCP''\<rparr>]"
proof -
  have local: "is_local_bind_host ''127.0.0.1''" "is_local_bind_host ''0.0.0.0''" "is_local_bind_host ''::''"
    by code_simp+
  have l: "split_host_port_label ''127.0.0.1:80'' = Some (''127.0.0.1'', 80)"
    "split_host_port_label ''[::]:25565'' = Some (''::'', 25565)"
    "split_host_port_label ''0.0.0.0:25565'' = Some (''0.0.0.0'', 25565)"
    by (simp_all add: split_host_port_label_def starts_with_def rsplit_once_def get_from_def is_cont_def parse_defs)
  have p: "parse_u32 ''7'' = Some 7" "parse_u32 ''42'' = Some 42"
    by (simp_all add: parse_defs)
  have low: "to_ascii_lowercase ''javaw -jar Editor.jar'' = ''javaw -jar editor.jar''"
    "to_ascii_lowercase ''java -jar Paper.jar'' = ''java -jar paper.jar''" by code_simp+
  have prio: "tcp_priority ''javaw -jar editor.jar'' None 25565 = 110"
    "tcp_priority ''java -jar paper.jar'' (Some 25565) 25565 = -50"
    by (simp_all add: tcp_priority_def mc_related_def contains_def)
  show ?thesis
    by (simp add: candidates_def command_rows_def output_text_def sample_listeners_def sample_text sample_lines map_filter_simps
      tcp_row_def Let_def sample_trim sample_columns starts_with_def row_port_def l p local eq_ignore_ascii_case_def prio low)
qed

theorem lan_ports_offered_witness:
  "\<exists>ds. get_available_lan_ports_command to_ascii_lowercase sample_listeners [19132] = Inr ds
     \<and> ld_port ` set ds = {25565} \<and> distinct (map ld_port ds)"
proof -
  obtain ds where ds: "get_available_lan_ports_command to_ascii_lowercase sample_listeners [19132] = Inr ds"
    by (simp add: get_available_lan_ports_command_def detect_all_lan_ports_blocking_def Let_def
        detect_lan_ports_from_system_listeners_def sample_candidates)
  show ?thesis
    using lan_ports_offered [OF ds] ds by (simp add: sample_candidates)
qed

theorem candidate_is_local_listener_witness:
  "\<exists>host. split_host_port_label ''[::]:25565'' = Some (host, 25565) \<and> is_local_bind_host host"
  using candidate_is_local_listener [of "hd (candidates to_ascii_lowercase sample_listeners)"
      to_ascii_lowercase sample_listeners]
  by (auto simp: sample_candidates)
section \<open>Labels\<close>

lemma show_word_no: "\<not> is_digit c \<Longrightarrow> c \<notin> set (show_word w)"
  using show_nat_set [of c "unat w"] by (auto simp: show_word_def)

lemma hex_digit_neq: "d < 16 \<Longrightarrow> hex_digit d \<noteq> CHR '']''"
proof -
  assume "d < 16"
  then have "of_char (hex_digit d) \<noteq> (93 :: nat)" by (auto simp: hex_digit_def)
  then show ?thesis by auto
qed

lemma show_hex_no_bracket: "CHR '']'' \<notin> set (show_hex n)"
proof (induction n rule: show_hex.induct)
  case (1 n)
  then show ?case
    by (subst show_hex.simps) (auto simp: hex_digit_neq [symmetric])
qed

lemma set_join: "set (join sep ss) \<subseteq> set sep \<union> \<Union> (set ` set ss)"
  by (induction sep ss rule: join.induct) auto

lemma show_ipv4_no_bracket: "CHR '']'' \<notin> set (show_ipv4 a b c d)"
  by (simp add: show_ipv4_def show_word_no is_digit_def)

lemma show_ipv6_no_bracket: "CHR '']'' \<notin> set (show_ipv6 w)"
proof -
  have j: "CHR '']'' \<notin> set (join '':'' (map show_hex ns))" for ns
    using set_join [of "'':''" "map show_hex ns"] show_hex_no_bracket by auto
  then show ?thesis
    by (simp add: show_ipv6_def Let_def show_ipv4_no_bracket split: prod.split)
qed

lemma find_sub_char: "c \<notin> set a \<Longrightarrow> find_sub [c] (a @ c # b) = Some (length a)"
  by (induction a) auto

lemma parse_u16_show [simp]: "parse_u16 (show_word (p :: u16)) = Some p"
  using unsigned_less [of p, where 'a = nat] by (simp add: parse_u16_def show_word_def parse_show_nat)

lemma digit_not: "is_digit c \<Longrightarrow> c \<noteq> CHR ''[''"
  by (auto simp: is_digit_def)

lemma show_nat_head: "\<exists>c cs. show_nat n = c # cs \<and> is_digit c"
  using show_nat_set [of _ n] by (cases "show_nat n") auto

text \<open>
  the label of every socket address is read back to its host and port, the host without
  the brackets of an IPv6 address.
\<close>

theorem label_round_trip:
  "split_host_port_label (show_addr (SockV4 a b c d p)) = Some (show_ipv4 a b c d, p)
   \<and> split_host_port_label (show_addr (SockV6 w p 0)) = Some (show_ipv6 w, p)"
proof
  obtain x xs where x: "show_ipv4 a b c d = x # xs" "x \<noteq> CHR ''[''"
    using show_nat_head [of "unat a"] digit_not by (auto simp: show_ipv4_def show_word_def)
  have "CHR '':'' \<notin> set (show_word p)" by (rule show_word_no) (simp add: is_digit_def)
  from rsplit_once_append [OF this, of "show_ipv4 a b c d"]
  show "split_host_port_label (show_addr (SockV4 a b c d p)) = Some (show_ipv4 a b c d, p)"
    using x by (simp add: split_host_port_label_def starts_with_def)
  let ?s = "CHR ''['' # show_ipv6 w"
  have f: "find_sub '']'' (?s @ CHR '']'' # CHR '':'' # show_word p) = Some (Suc (length (show_ipv6 w)))"
    using find_sub_char [of "CHR '']''" ?s] show_ipv6_no_bracket by simp
  obtain q qs where q: "show_word p = q # qs" "is_digit q"
    using show_nat_head [of "unat p"] by (auto simp: show_word_def)
  then have "\<not> is_cont (of_char q)" by (simp add: is_cont_def is_digit_def)
  then have "get_from (Suc (length (show_ipv6 w)) + 2) (?s @ CHR '']'' # CHR '':'' # show_word p)
      = Some (show_word p)"
    using q by (simp add: get_from_def nth_append)
  then show "split_host_port_label (show_addr (SockV6 w p 0)) = Some (show_ipv6 w, p)"
    using f by (simp add: split_host_port_label_def starts_with_def)
qed

end
