(* ===== verification/Game_Profile.thy ===== *)
theory Game_Profile
  imports Rust_Text Json Game_Ports
begin

text \<open>
  What the launcher's files and the game's logs tell about the player (\<open>minecraft.rs\<close>): the
  nickname, the launcher, the version and the mod loader. A path is its list of components
  (\<open>display\<close> joins them as Windows does, where the launchers' directories are), a file is its
  octets, the JSON reader, the Windows-1251 decoder of \<open>encoding_rs\<close> and the Unicode
  \<open>to_lowercase\<close> are arguments.
\<close>

type_synonym path = "string list"

definition display :: "path \<Rightarrow> string" where
  "display p = join [char_of (92 :: nat)] p"

fun find_map :: "('a \<Rightarrow> 'b option) \<Rightarrow> 'a list \<Rightarrow> 'b option" where
  "find_map f [] = None"
| "find_map f (x # xs) = (case f x of Some y \<Rightarrow> Some y | None \<Rightarrow> find_map f xs)"

interpretation find_map: first_found f "find_map f" for f
  by unfold_locales simp_all

lemma find_map_SomeD: "find_map f xs = Some y \<Longrightarrow> \<exists>x \<in> set xs. f x = Some y"
  by (drule find_map.loop_split) auto

lemma find_map_append:
  "find_map f (xs @ ys) = (case find_map f xs of Some y \<Rightarrow> Some y | None \<Rightarrow> find_map f ys)"
  by (induction xs) (auto split: option.split)

section \<open>Nicknames\<close>

definition nick_char :: "char \<Rightarrow> bool" where
  "nick_char c = (let n = of_char c :: nat in
     48 \<le> n \<and> n \<le> 57 \<or> 65 \<le> n \<and> n \<le> 90 \<or> 97 \<le> n \<and> n \<le> 122 \<or> c = CHR ''_'')"

definition sanitize_minecraft_nickname :: "string \<Rightarrow> string option" where
  "sanitize_minecraft_nickname value =
     (let normalized = trim value
      in if length normalized < 3 \<or> 16 < length normalized then None
         else if list_all nick_char normalized then Some normalized else None)"

definition account_name :: "json \<Rightarrow> string option" where
  "account_name account =
     Option.bind (Option.bind (json_get ''minecraftProfile'' account) (get_str ''name''))
       sanitize_minecraft_nickname"

definition parse_launcher_accounts_nick :: "(string \<Rightarrow> json option) \<Rightarrow> string \<Rightarrow> string option" where
  "parse_launcher_accounts_nick from_str contents =
     Option.bind (from_str contents) (\<lambda>value.
     Option.bind (Option.bind (json_get ''accounts'' value) as_object) (\<lambda>accounts.
       let active_id = Option.bind (json_get ''activeAccountLocalId'' value) (\<lambda>item.
             case as_str item of Some s \<Rightarrow> Some s | None \<Rightarrow> map_option show_word (as_u64 item));
           active = Option.bind (Option.bind active_id (map_of accounts)) account_name
       in case active of Some name \<Rightarrow> Some name
          | None \<Rightarrow> find_map account_name (map snd accounts)))"

definition display_name :: "string \<Rightarrow> json \<Rightarrow> string option" where
  "display_name selected_profile account =
     Option.bind (Option.bind (Option.bind (json_get ''profiles'' account) (json_get selected_profile))
       (get_str ''displayName'')) (\<lambda>name. if trim name \<noteq> [] then Some (trim name) else None)"

definition parse_launcher_profiles_nick :: "(string \<Rightarrow> json option) \<Rightarrow> string \<Rightarrow> string option" where
  "parse_launcher_profiles_nick from_str contents =
     Option.bind (from_str contents) (\<lambda>value.
     Option.bind (Option.bind (json_get ''selectedUser'' value) (get_str ''profile'')) (\<lambda>selected_profile.
     Option.bind (Option.bind (json_get ''authenticationDatabase'' value) as_object) (\<lambda>auth_db.
       case find_map (display_name selected_profile) (map snd auth_db) of
         Some name \<Rightarrow> Some name
       | None \<Rightarrow>
           Option.bind (Option.bind (Option.bind (Option.bind (json_get ''profiles'' value) as_object)
             (\<lambda>profiles. find_map (json_get ''name'') (map snd profiles))) as_str)
             sanitize_minecraft_nickname)))"

definition line_nick :: "string \<Rightarrow> string option" where
  "line_nick line =
     find_map (\<lambda>marker. case find_sub marker line of
         Some index \<Rightarrow> sanitize_minecraft_nickname
                         (takeWhile nick_char (drop (index + length marker) line))
       | None \<Rightarrow> None)
       [''Setting user: '', ''Session Name is '', ''Username: '', ''Logged in as '']"

definition parse_logs_nick :: "string \<Rightarrow> string option" where
  "parse_logs_nick contents = find_map line_nick (rev (str_lines contents))"

definition parse_nickname_from_file ::
  "(string \<Rightarrow> string) \<Rightarrow> (string \<Rightarrow> json option) \<Rightarrow> path \<Rightarrow> string \<Rightarrow> string option" where
  "parse_nickname_from_file lower from_str path contents =
     (if path = [] then None
      else let name = lower (last path)
           in if name = ''launcher_accounts.json'' then parse_launcher_accounts_nick from_str contents
              else if name = ''launcher_profiles.json'' then parse_launcher_profiles_nick from_str contents
              else if ends_with name ''.log'' \<or> ends_with name ''.txt'' then parse_logs_nick contents
              else None)"

record nickname_detection =
  nd_nickname :: string
  nd_source_path :: string

definition process_nick :: "java_process \<Rightarrow> nickname_detection option" where
  "process_nick meta =
     (let cmd = jp_command_line meta
      in case find_sub ''--username '' cmd of
           None \<Rightarrow> None
         | Some idx \<Rightarrow>
             let substr = drop (idx + 11) cmd;
                 raw_nick = trim_matches (\<lambda>c. c = char_of (34 :: nat) \<or> c = char_of (39 :: nat))
                              (takeWhile (\<lambda>c. c \<noteq> CHR '' '') substr)
             in map_option (\<lambda>nick. \<lparr>nd_nickname = nick, nd_source_path =
                    ''running process (pid '' @ show_word (jp_pid meta) @ '')''\<rparr>)
                  (sanitize_minecraft_nickname raw_nick))"

text \<open>The values of a hash map come in an order of its own, given by the list.\<close>

definition detect_nickname_from_running_processes :: "java_process list \<Rightarrow> nickname_detection option" where
  "detect_nickname_from_running_processes processes = find_map process_nick processes"

section \<open>Reading a file\<close>

fun u16_units :: "(bytes \<Rightarrow> 16 word) \<Rightarrow> bytes \<Rightarrow> 16 word list" where
  "u16_units from_bytes (a # b # bs) = from_bytes [a, b] # u16_units from_bytes bs"
| "u16_units from_bytes bs = []"

definition encode_utf8 :: "nat \<Rightarrow> string" where
  "encode_utf8 c = map char_of
     (if c < 0x80 then [c]
      else if c < 0x800 then [0xC0 + c div 64, 0x80 + c mod 64]
      else if c < 0x10000 then [0xE0 + c div 4096, 0x80 + c div 64 mod 64, 0x80 + c mod 64]
      else [0xF0 + c div 262144, 0x80 + c div 4096 mod 64, 0x80 + c div 64 mod 64, 0x80 + c mod 64])"

definition high_surrogate :: "nat \<Rightarrow> bool" where
  "high_surrogate u \<longleftrightarrow> 0xD800 \<le> u \<and> u \<le> 0xDBFF"

definition low_surrogate :: "nat \<Rightarrow> bool" where
  "low_surrogate u \<longleftrightarrow> 0xDC00 \<le> u \<and> u \<le> 0xDFFF"

fun utf16_lossy :: "nat list \<Rightarrow> string" where
  "utf16_lossy [] = []"
| "utf16_lossy [u] =
     (if high_surrogate u \<or> low_surrogate u then replacement_char else encode_utf8 u)"
| "utf16_lossy (u # v # us) =
     (if high_surrogate u then
        (if low_surrogate v then
           encode_utf8 (0x10000 + (u - 0xD800) * 1024 + (v - 0xDC00)) @ utf16_lossy us
         else replacement_char @ utf16_lossy (v # us))
      else (if low_surrogate u then replacement_char else encode_utf8 u) @ utf16_lossy (v # us))"

definition is_json_path :: "path \<Rightarrow> bool" where
  "is_json_path path =
     (path \<noteq> [] \<and> (case rsplit_once CHR ''.'' (last path) of
        Some (stem, ext) \<Rightarrow> stem \<noteq> [] \<and> eq_ignore_ascii_case ext ''json''
      | None \<Rightarrow> False))"

definition decode_text :: "(bytes \<Rightarrow> string) \<Rightarrow> bytes \<Rightarrow> string" where
  "decode_text windows_1251 bytes =
     (if bytes = [] then []
      else if take 3 bytes = [0xEF, 0xBB, 0xBF] then utf8_lossy (drop 3 bytes)
      else if take 2 bytes = [0xFF, 0xFE] then utf16_lossy (map unat (u16_units from_le (drop 2 bytes)))
      else if take 2 bytes = [0xFE, 0xFF] then utf16_lossy (map unat (u16_units from_be (drop 2 bytes)))
      else if utf8_valid (map unat bytes) then chars_of bytes
      else windows_1251 bytes)"

definition read_text_lossy :: "(bytes \<Rightarrow> string) \<Rightarrow> path \<Rightarrow> bytes option \<Rightarrow> string option" where
  "read_text_lossy windows_1251 path file =
     (case file of
        None \<Rightarrow> None
      | Some contents \<Rightarrow>
          let len = length contents;
              read_len = (if is_json_path path then len else min len (32 * 1024))
          in Some (decode_text windows_1251 (drop (len - read_len) contents)))"

section \<open>Version and mod loader\<close>

definition parse_launcher_version :: "(string \<Rightarrow> json option) \<Rightarrow> string \<Rightarrow> string option" where
  "parse_launcher_version from_str contents =
     Option.bind (from_str contents) (\<lambda>value.
     Option.bind (Option.bind (json_get ''profiles'' value) as_object) (\<lambda>profiles.
       find_map (\<lambda>profile. Option.bind (get_str ''lastVersionId'' profile) (\<lambda>item.
           if trim item \<noteq> [] then Some (trim item) else None)) (map snd profiles)))"

definition parse_loader_runtime :: "string \<Rightarrow> string \<Rightarrow> string \<Rightarrow> (string \<times> string) option" where
  "parse_loader_runtime marker loader line =
     Option.bind (split_once ''Loading Minecraft '' line) (\<lambda>(_, tail).
     Option.bind (split_once marker tail) (\<lambda>(version, loader_tail).
       Some (trim version, loader @ trim loader_tail)))"

definition parse_fabric_runtime :: "string \<Rightarrow> (string \<times> string) option" where
  "parse_fabric_runtime = parse_loader_runtime '' with Fabric Loader '' ''Fabric ''"

definition parse_quilt_runtime :: "string \<Rightarrow> (string \<times> string) option" where
  "parse_quilt_runtime = parse_loader_runtime '' with Quilt Loader '' ''Quilt ''"

text \<open>\<open>split_whitespace().next()\<close>, with the test for an empty word that never succeeds.\<close>

definition first_word :: "string \<Rightarrow> string option" where
  "first_word s =
     (case split_whitespace s of w # _ \<Rightarrow> if trim w \<noteq> [] then Some (trim w) else None | [] \<Rightarrow> None)"

definition parse_forge_runtime :: "string \<Rightarrow> (string \<times> string) option" where
  "parse_forge_runtime line =
     Option.bind (split_once ''Forge mod loading, version '' line) (\<lambda>(_, tail).
     Option.bind (split_once '', for MC '' tail) (\<lambda>(forge_version, rest).
       map_option (\<lambda>mc_version. (mc_version, ''Forge '' @ trim forge_version)) (first_word rest)))"

definition parse_launched_version :: "string \<Rightarrow> string option" where
  "parse_launched_version line =
     Option.bind (split_once ''Launched Version: '' line) (\<lambda>(_, tail). first_word tail)"

text \<open>The chain of \<open>if let\<close>: the version and, if the line names it, the loader.\<close>

definition line_runtime :: "string \<Rightarrow> (string \<times> string option) option" where
  "line_runtime trimmed =
     (case parse_fabric_runtime trimmed of Some (v, l) \<Rightarrow> Some (v, Some l)
      | None \<Rightarrow> case parse_quilt_runtime trimmed of Some (v, l) \<Rightarrow> Some (v, Some l)
      | None \<Rightarrow> case parse_forge_runtime trimmed of Some (v, l) \<Rightarrow> Some (v, Some l)
      | None \<Rightarrow> map_option (\<lambda>v. (v, None)) (parse_launched_version trimmed))"

definition line_loader :: "string \<Rightarrow> string option" where
  "line_loader trimmed =
     (if contains trimmed ''FabricLoader'' \<or> contains trimmed ''net.fabricmc.loader'' then Some ''Fabric''
      else if contains trimmed ''Forge mod loading'' \<or> contains trimmed ''net.minecraftforge.fml''
        then Some ''Forge''
      else if contains trimmed ''QuiltLoader'' then Some ''Quilt'' else None)"

fun log_runtime_loop ::
  "string list \<Rightarrow> string option \<Rightarrow> string option \<Rightarrow> string option \<times> string option" where
  "log_runtime_loop [] version loader = (version, loader)"
| "log_runtime_loop (line # lines) version loader =
     (let trimmed = trim line
      in if trimmed = [] then log_runtime_loop lines version loader
         else
           let (version', loader') =
                 (if version \<noteq> None then (version, loader)
                  else case line_runtime trimmed of
                      Some (v, Some l) \<Rightarrow> (Some v, Some l)
                    | Some (v, None) \<Rightarrow> (Some v, loader)
                    | None \<Rightarrow> (None, loader))
           in if version = None \<and> version' \<noteq> None \<and> loader' \<noteq> None then (version', loader')
              else log_runtime_loop lines version'
                     (if loader' = None then line_loader trimmed else loader'))"

definition parse_log_runtime :: "string \<Rightarrow> string option \<times> string option" where
  "parse_log_runtime contents = log_runtime_loop (rev (str_lines contents)) None None"

definition infer_runtime_from_file ::
  "(string \<Rightarrow> json option) \<Rightarrow> path \<Rightarrow> string \<Rightarrow> string option \<times> string option" where
  "infer_runtime_from_file from_str path contents =
     (let name = to_ascii_lowercase (if path = [] then [] else last path)
      in if name = ''launcher_profiles.json'' \<or> name = ''launcher_accounts.json''
           then (parse_launcher_version from_str contents, None)
         else if ends_with name ''.log'' \<or> ends_with name ''.txt'' then parse_log_runtime contents
         else (None, None))"

definition infer_launcher_from_path :: "path \<Rightarrow> string option" where
  "infer_launcher_from_path path =
     (let normalized = to_ascii_lowercase (display path)
      in if contains normalized ''prismlauncher'' then Some ''PrismLauncher''
         else if contains normalized ''multimc'' then Some ''MultiMC''
         else if contains normalized ''curseforge'' then Some ''CurseForge''
         else if contains normalized ''.tlauncher'' then Some ''TLauncher''
         else if contains normalized ''microsoft.4297127d64ec6_8wekyb3d8bbwe''
           then Some ''Minecraft Launcher (MS Store)''
         else if contains normalized ''.minecraft'' then Some ''Minecraft Launcher''
         else None)"

section \<open>Sources\<close>

text \<open>
  The file system as far as it is asked: \<open>fs_file\<close> gives the octets of the regular files,
  \<open>fs_modified\<close> the time of their last change (0, the epoch, when it is not known).
\<close>

record files =
  fs_file :: "path \<rightharpoonup> bytes"
  fs_modified :: "path \<Rightarrow> nat"

definition MS_STORE :: string where
  "MS_STORE = ''Microsoft.4297127D64EC6_8wekyb3d8bbwe''"

definition nickname_paths :: "path option \<Rightarrow> path option \<Rightarrow> path option \<Rightarrow> path list" where
  "nickname_paths app_data local_app_data user_profile =
     (case app_data of None \<Rightarrow> [] | Some d \<Rightarrow>
        [d @ [''.minecraft'', ''launcher_accounts.json''], d @ [''.minecraft'', ''launcher_profiles.json''],
         d @ [''.minecraft'', ''logs'', ''latest.log''],
         d @ [''.tlauncher'', ''legacy'', ''Minecraft'', ''logs'', ''latest.log''],
         d @ [''.tlauncher'', ''legacy'', ''Minecraft'', ''game'', ''logs'', ''latest.log'']])
     @ (case local_app_data of None \<Rightarrow> [] | Some d \<Rightarrow>
        [d @ [''.minecraft'', ''launcher_accounts.json''], d @ [''.minecraft'', ''launcher_profiles.json''],
         d @ [''.minecraft'', ''logs'', ''latest.log''],
         d @ [''Packages'', MS_STORE, ''LocalCache'', ''Roaming'', ''.minecraft'', ''logs'', ''latest.log'']])
     @ (case user_profile of None \<Rightarrow> [] | Some d \<Rightarrow>
        [d @ [''AppData'', ''Roaming'', ''.minecraft'', ''logs'', ''latest.log'']])"

text \<open>\<open>retain\<close>, the stable sort by descending modification time, \<open>dedup\<close> of neighbours.\<close>

definition collect_nickname_sources ::
  "files \<Rightarrow> path option \<Rightarrow> path option \<Rightarrow> path option \<Rightarrow> path list" where
  "collect_nickname_sources fs app_data local_app_data user_profile =
     remdups_adj (sort_key (\<lambda>p. - int (fs_modified fs p))
       (filter (\<lambda>p. fs_file fs p \<noteq> None) (nickname_paths app_data local_app_data user_profile)))"

record profile_env =
  pe_lower :: "string \<Rightarrow> string"
  pe_json :: "string \<Rightarrow> json option"
  pe_1251 :: "bytes \<Rightarrow> string"
  pe_files :: files
  pe_app_data :: "path option"
  pe_local_app_data :: "path option"
  pe_user_profile :: "path option"
  pe_processes :: "java_process list"

definition sources :: "profile_env \<Rightarrow> path list" where
  "sources e = collect_nickname_sources (pe_files e) (pe_app_data e) (pe_local_app_data e)
     (pe_user_profile e)"

definition read_source :: "profile_env \<Rightarrow> path \<Rightarrow> string option" where
  "read_source e path = read_text_lossy (pe_1251 e) path (fs_file (pe_files e) path)"

definition file_nick :: "profile_env \<Rightarrow> path \<Rightarrow> nickname_detection option" where
  "file_nick e path =
     Option.bind (read_source e path) (\<lambda>contents.
       map_option (\<lambda>nickname. \<lparr>nd_nickname = nickname, nd_source_path = display path\<rparr>)
         (parse_nickname_from_file (pe_lower e) (pe_json e) path contents))"

definition detect_minecraft_nickname_blocking :: "profile_env \<Rightarrow> anyhow + nickname_detection" where
  "detect_minecraft_nickname_blocking e =
     (case detect_nickname_from_running_processes (pe_processes e) of
        Some detection \<Rightarrow> Inr detection
      | None \<Rightarrow>
          (case find_map (file_nick e) (sources e) of
             Some detection \<Rightarrow> Inr detection
           | None \<Rightarrow> Inl [''could not detect minecraft nickname from launcher files or logs'']))"

record client_runtime_info =
  ci_nickname :: "string option"
  ci_launcher :: "string option"
  ci_minecraft_version :: "string option"
  ci_mod_loader :: "string option"
  ci_source_path :: "string option"
  ci_note :: "string option"

definition file_runtime :: "profile_env \<Rightarrow> nickname_detection option \<Rightarrow> path \<Rightarrow> client_runtime_info option" where
  "file_runtime e nickname path =
     Option.bind (read_source e path) (\<lambda>contents.
       let launcher = infer_launcher_from_path path;
           (minecraft_version, mod_loader) = infer_runtime_from_file (pe_json e) path contents
       in if launcher \<noteq> None \<or> minecraft_version \<noteq> None \<or> mod_loader \<noteq> None then
            Some \<lparr>ci_nickname = map_option nd_nickname nickname, ci_launcher = launcher,
                  ci_minecraft_version = minecraft_version, ci_mod_loader = mod_loader,
                  ci_source_path = Some (display path),
                  ci_note = map_option (\<lambda>n. ''nickname source: '' @ nd_source_path n) nickname\<rparr>
          else None)"

definition detect_client_runtime_info_blocking :: "profile_env \<Rightarrow> anyhow + client_runtime_info" where
  "detect_client_runtime_info_blocking e =
     (let nickname = (case detect_minecraft_nickname_blocking e of Inr d \<Rightarrow> Some d | Inl _ \<Rightarrow> None)
      in case find_map (file_runtime e nickname) (sources e) of
           Some info \<Rightarrow> Inr info
         | None \<Rightarrow> Inl [''could not detect launcher, Minecraft version, or mod loader from local launcher files/logs''])"

text \<open>
  The latest world: the entries of the directory with whether they are directories and
  their modification time, none if the metadata could not be read.
\<close>

fun latest_world :: "(path \<times> (bool \<times> nat option) option) list \<Rightarrow> (path \<times> nat) option \<Rightarrow> (path \<times> nat) option" where
  "latest_world [] latest = latest"
| "latest_world ((p, meta) # entries) latest =
     latest_world entries
       (case meta of
          Some (True, Some modified) \<Rightarrow>
            (case latest of
               Some (_, latest_time) \<Rightarrow> if latest_time < modified then Some (p, modified) else latest
             | None \<Rightarrow> Some (p, modified))
        | _ \<Rightarrow> latest)"

definition get_latest_bedrock_world_name ::
  "(bytes \<Rightarrow> string) \<Rightarrow> (path \<rightharpoonup> bytes) \<Rightarrow> (path \<times> (bool \<times> nat option) option) list option \<Rightarrow> string option" where
  "get_latest_bedrock_world_name windows_1251 file worlds_dir =
     Option.bind worlds_dir (\<lambda>entries.
     Option.bind (latest_world entries None) (\<lambda>(path, _).
     Option.bind (read_text_lossy windows_1251 (path @ [''levelname.txt'']) (file (path @ [''levelname.txt''])))
       (\<lambda>contents. if trim contents \<noteq> [] then Some (trim contents) else None)))"

section \<open>What a detected nickname is\<close>

definition valid_nick :: "string \<Rightarrow> bool" where
  "valid_nick n \<longleftrightarrow> 3 \<le> length n \<and> length n \<le> 16 \<and> list_all nick_char n"

lemma sanitize_valid: "sanitize_minecraft_nickname s = Some n \<Longrightarrow> valid_nick n"
  by (auto simp: sanitize_minecraft_nickname_def valid_nick_def Let_def split: if_splits)

lemma or_else_Some:
  "(case x of Some n \<Rightarrow> Some n | None \<Rightarrow> y) = Some z \<longleftrightarrow> x = Some z \<or> x = None \<and> y = Some z"
  by (cases x) auto

lemma account_name_valid: "account_name a = Some n \<Longrightarrow> valid_nick n"
  by (auto simp: account_name_def bind_eq_Some_conv dest: sanitize_valid)

lemma accounts_nick_valid: "parse_launcher_accounts_nick from_str c = Some n \<Longrightarrow> valid_nick n"
  unfolding parse_launcher_accounts_nick_def Let_def
  by (auto simp only: bind_eq_Some_conv or_else_Some dest!: find_map_SomeD intro: account_name_valid)

lemma line_nick_valid: "line_nick l = Some n \<Longrightarrow> valid_nick n"
  unfolding line_nick_def by (auto dest!: find_map_SomeD sanitize_valid split: option.splits)

lemma logs_nick_valid: "parse_logs_nick c = Some n \<Longrightarrow> valid_nick n"
  unfolding parse_logs_nick_def by (auto dest!: find_map_SomeD line_nick_valid)

lemma process_nick_valid: "process_nick p = Some d \<Longrightarrow> valid_nick (nd_nickname d)"
  by (auto simp: process_nick_def Let_def dest: sanitize_valid split: option.splits)

definition selected_account :: "json \<Rightarrow> string \<Rightarrow> json \<Rightarrow> bool" where
  "selected_account value user account \<longleftrightarrow>
     Option.bind (json_get ''selectedUser'' value) (get_str ''profile'') = Some user
     \<and> (\<exists>auth_db. Option.bind (json_get ''authenticationDatabase'' value) as_object = Some auth_db
          \<and> account \<in> set (map snd auth_db))"

lemma profiles_nick_valid:
  "parse_launcher_profiles_nick from_str c = Some n \<Longrightarrow>
     valid_nick n \<or> (\<exists>v user account. from_str c = Some v \<and> selected_account v user account
       \<and> display_name user account = Some n)"
  unfolding parse_launcher_profiles_nick_def selected_account_def
  by (simp only: bind_eq_Some_conv or_else_Some) (blast dest: find_map_SomeD sanitize_valid)

text \<open>
  C35: a nickname that is reported consists of 3 to 16 ASCII letters, digits and underscores,
  wherever it was found - with one exception: the display name of the selected profile in
  \<open>launcher_profiles.json\<close> is passed on as it stands there, only trimmed.
\<close>

theorem detected_nickname_valid:
  assumes "detect_minecraft_nickname_blocking e = Inr d"
  shows "valid_nick (nd_nickname d)
    \<or> (\<exists>path \<in> set (sources e). pe_lower e (last path) = ''launcher_profiles.json''
        \<and> (\<exists>contents value user account. read_source e path = Some contents
            \<and> pe_json e contents = Some value \<and> selected_account value user account
            \<and> display_name user account = Some (nd_nickname d)))"
proof (cases "detect_nickname_from_running_processes (pe_processes e)")
  case (Some p)
  then have "valid_nick (nd_nickname p)"
    unfolding detect_nickname_from_running_processes_def
    by (auto dest!: find_map_SomeD process_nick_valid)
  then show ?thesis using assms Some by (simp add: detect_minecraft_nickname_blocking_def)
next
  case None
  with assms have "find_map (file_nick e) (sources e) = Some d"
    by (simp add: detect_minecraft_nickname_blocking_def split: option.splits)
  then obtain path where p: "path \<in> set (sources e)" "file_nick e path = Some d"
    by (auto dest: find_map_SomeD)
  then obtain c where c: "read_source e path = Some c"
      "parse_nickname_from_file (pe_lower e) (pe_json e) path c = Some (nd_nickname d)"
    by (auto simp: file_nick_def bind_eq_Some_conv)
  then show ?thesis
    using p(1) profiles_nick_valid [of "pe_json e" c "nd_nickname d"]
    by (auto simp: parse_nickname_from_file_def Let_def dest: accounts_nick_valid logs_nick_valid
        split: if_splits)
qed

section \<open>The freshest source\<close>

lemma sorted_first:
  "sorted (map q xs) \<Longrightarrow> xs = a @ x # b \<Longrightarrow> y \<in> set b \<Longrightarrow> q x \<le> q y"
  by (auto simp: sorted_append)

lemma sources_sorted: "sorted (map (\<lambda>p. - int (fs_modified (pe_files e) p)) (sources e))"
proof -
  have "sorted (map f (remdups_adj xs))" if "sorted (map f xs)" for f :: "path \<Rightarrow> int" and xs
    using that by (induction xs rule: remdups_adj.induct) (auto split: if_splits)
  then show ?thesis by (simp add: sources_def collect_nickname_sources_def)
qed

text \<open>
  C36: if no running game tells the nickname, it comes from the file that was changed last
  among those of the known launcher files and logs that contain one; it is an error only
  if none of them does.
\<close>

theorem freshest_source_wins:
  assumes "detect_nickname_from_running_processes (pe_processes e) = None"
  shows "case detect_minecraft_nickname_blocking e of
      Inl _ \<Rightarrow> \<forall>path \<in> set (sources e). file_nick e path = None
    | Inr d \<Rightarrow> \<exists>path \<in> set (sources e). file_nick e path = Some d \<and>
        (\<forall>q \<in> set (sources e). file_nick e q \<noteq> None \<longrightarrow> fs_modified (pe_files e) q \<le> fs_modified (pe_files e) path)"
proof (cases "find_map (file_nick e) (sources e)")
  case None
  then show ?thesis
    using assms None [unfolded find_map.loop_None] by (simp add: detect_minecraft_nickname_blocking_def None)
next
  case (Some d)
  then obtain a path b where s: "sources e = a @ path # b" "file_nick e path = Some d"
      "\<forall>z \<in> set a. file_nick e z = None"
    using find_map.loop_split by metis
  have "fs_modified (pe_files e) q \<le> fs_modified (pe_files e) path" if "q \<in> set b" for q
    using sorted_first [OF sources_sorted s(1) that] by simp
  then show ?thesis
    using assms s Some
    by (auto simp: detect_minecraft_nickname_blocking_def intro!: bexI [of _ path])
qed

definition sample_log :: path where
  "sample_log = [''R'', ''.minecraft'', ''logs'', ''latest.log'']"

definition sample_profile :: "java_process list \<Rightarrow> profile_env" where
  "sample_profile ps = \<lparr>pe_lower = to_ascii_lowercase, pe_json = (\<lambda>_. None), pe_1251 = chars_of,
     pe_files = \<lparr>fs_file = [sample_log \<mapsto> as_bytes ''Setting user: Alex_1''], fs_modified = (\<lambda>_. 7)\<rparr>,
     pe_app_data = Some [''R''], pe_local_app_data = None, pe_user_profile = None, pe_processes = ps\<rparr>"

lemma sample_sources: "sources (sample_profile []) = [sample_log]"
  by (simp add: sources_def collect_nickname_sources_def sample_profile_def nickname_paths_def sample_log_def)

lemma sample_read: "read_source (sample_profile []) sample_log = Some ''Setting user: Alex_1''"
  by code_simp

lemma sample_logs_nick: "parse_logs_nick ''Setting user: Alex_1'' = Some ''Alex_1''"
  by code_simp

lemma sample_nick: "file_nick (sample_profile []) sample_log = Some \<lparr>nd_nickname = ''Alex_1'', nd_source_path = display sample_log\<rparr>"
proof -
  have "to_ascii_lowercase ''latest.log'' = ''latest.log''" by code_simp
  then have "pe_lower (sample_profile []) (last sample_log) = ''latest.log''"
    by (simp add: sample_profile_def sample_log_def)
  then show ?thesis
    by (simp add: file_nick_def sample_read parse_nickname_from_file_def Let_def ends_with_def sample_logs_nick)
      (simp add: sample_log_def)
qed

lemma sample_no_process: "detect_nickname_from_running_processes (pe_processes (sample_profile [])) = None"
  by (simp add: sample_profile_def detect_nickname_from_running_processes_def)

theorem freshest_source_wins_witness:
  "detect_minecraft_nickname_blocking (sample_profile []) =
     Inr \<lparr>nd_nickname = ''Alex_1'', nd_source_path = display sample_log\<rparr>"
  using freshest_source_wins [OF sample_no_process]
  by (simp add: sample_sources sample_nick split: sum.splits)

theorem detected_nickname_valid_witness: "valid_nick ''Alex_1''"
proof -
  have d: "detect_minecraft_nickname_blocking (sample_profile []) =
     Inr \<lparr>nd_nickname = ''Alex_1'', nd_source_path = display sample_log\<rparr>"
    by (simp add: detect_minecraft_nickname_blocking_def sample_sources sample_nick sample_no_process)
  have "pe_lower (sample_profile []) (last sample_log) \<noteq> ''launcher_profiles.json''" by code_simp
  then show ?thesis
    using detected_nickname_valid [OF d] by (simp add: sample_sources)
qed

section \<open>Texts\<close>

lemma valid_head: "utf8_valid (b # cs) \<Longrightarrow> b < 0x80 \<or> 0xC2 \<le> b \<and> b \<le> 0xF4"
  by (subst (asm) utf8_valid.simps) (auto split: if_splits)

lemma str_head:
  assumes "is_str s" and "as_bytes s = b # bs"
  shows "unat b < 0x80 \<or> 0xC2 \<le> unat b \<and> unat b \<le> 0xF4"
proof -
  have "codes s = unat b # map unat bs"
    using arg_cong [OF assms(2), of "map unat"] by simp
  then show ?thesis using assms(1) valid_head by (simp add: is_str_def)
qed

text \<open>
  a text file is read as its text: every well-formed UTF-8 text that does not begin with
  a byte order mark, in a JSON file of any size and in another file of up to 32 KiB, and the
  text behind a UTF-8 byte order mark.
\<close>

theorem text_read_back:
  assumes "is_str s"
    and "is_json_path path \<or> length s + 3 \<le> 32 * 1024"
  shows "read_text_lossy w path (Some ([0xEF, 0xBB, 0xBF] @ as_bytes s)) = Some s
    \<and> (take 3 (as_bytes s) \<noteq> [0xEF, 0xBB, 0xBF] \<longrightarrow> read_text_lossy w path (Some (as_bytes s)) = Some s)"
proof -
  have no16: "take 2 (as_bytes s) \<noteq> [0xFF, 0xFE]" "take 2 (as_bytes s) \<noteq> [0xFE, 0xFF]"
    using str_head [OF assms(1)] by (cases "as_bytes s"; force)+
  have "utf8_valid (map unat (as_bytes s))" using assms(1) by (simp add: is_str_def)
  then have "decode_text w (as_bytes s) = s" if "take 3 (as_bytes s) \<noteq> [0xEF, 0xBB, 0xBF]"
    using no16 that chars_of_as_bytes [of s]
    by (cases "as_bytes s = []") (simp_all add: decode_text_def, simp add: chars_of_def)
  moreover have "decode_text w ([0xEF, 0xBB, 0xBF] @ as_bytes s) = s"
    using assms(1) by (simp add: decode_text_def utf8_lossy_as_bytes)
  ultimately show ?thesis using assms(2) by (auto simp: read_text_lossy_def Let_def)
qed

theorem text_read_back_witness:
  "read_text_lossy chars_of [''latest.log''] (Some (as_bytes ''Setting user: Steve'')) = Some ''Setting user: Steve''"
proof -
  have "is_str ''Setting user: Steve''" by (rule is_str_ascii) simp
  moreover have "take 3 (as_bytes ''Setting user: Steve'') \<noteq> [0xEF, 0xBB, 0xBF]" by (simp add: as_bytes_def)
  ultimately show ?thesis using text_read_back [of "''Setting user: Steve''" "[''latest.log'']" chars_of] by simp
qed

lemma not_mark: "unat b \<le> 0xBF \<Longrightarrow> b \<notin> {0xEF, 0xFF, 0xFE}" for b :: u8
  by auto

text \<open>
  the cut of a long log garbles it. When the last 32 KiB of a log begin inside a character,
  the tail is not UTF-8 any more and all of it is decoded as Windows-1251, so that every
  non-ASCII character of it is replaced by others.
\<close>

theorem log_tail_misread:
  assumes "\<not> is_json_path path" and "32 * 1024 < length s"
    and "is_cont (of_char (s ! (length s - 32 * 1024)))"
  shows "read_text_lossy w path (Some (as_bytes s)) = Some (w (drop (length s - 32 * 1024) (as_bytes s)))"
proof -
  define n where "n = length s - 32 * 1024"
  let ?tail = "drop n (as_bytes s)"
  have n: "n < length s" using assms(2) by (simp add: n_def)
  let ?b = "of_char (s ! n) :: u8"
  obtain bs where t: "?tail = ?b # bs"
    using Cons_nth_drop_Suc [of n "as_bytes s"] n by (metis as_bytes_def length_as_bytes nth_map)
  have c: "0x80 \<le> unat ?b" "unat ?b \<le> 0xBF"
    using assms(3) by (simp_all add: is_cont_def n_def)
  then have "\<not> utf8_valid (map unat ?tail)" using valid_head [of "unat ?b" "map unat bs"] by (auto simp: t)
  moreover have "?b \<notin> {0xEF, 0xFF, 0xFE}" using c(2) by (rule not_mark)
  ultimately have "decode_text w ?tail = w ?tail" by (simp add: decode_text_def t)
  then show ?thesis using assms(1,2) by (simp add: read_text_lossy_def Let_def n_def)
qed

theorem log_tail_misread_witness:
  "let s = encode_utf8 0x436 @ replicate 32767 CHR ''a''
   in is_str s \<and> read_text_lossy chars_of [''latest.log''] (Some (as_bytes s)) = Some (chars_of (0xB6 # replicate 32767 0x61))"
proof -
  let ?s = "encode_utf8 0x436 @ replicate 32767 CHR ''a''"
  have e: "encode_utf8 0x436 = [char_of (0xD0 :: nat), char_of (0xB6 :: nat)]" by (simp add: encode_utf8_def)
  have "is_str [char_of (0xD0 :: nat), char_of (0xB6 :: nat)]" by code_simp
  moreover have "is_str (replicate 32767 CHR ''a'')" by (rule is_str_ascii) simp
  ultimately have "is_str ?s" unfolding e by (rule is_str_append)
  moreover have "\<not> is_json_path [''latest.log'']" by code_simp
  moreover have "(of_char (char_of (0xB6 :: nat)) :: u8) = 0xB6" by code_simp
  ultimately show ?thesis
    using log_tail_misread [of "[''latest.log'']" ?s chars_of] unfolding e
    by (simp add: is_cont_def as_bytes_def)
qed
section \<open>The newest line\<close>

lemma log_runtime_known: "v \<noteq> None \<Longrightarrow> fst (log_runtime_loop lines v l) = v"
  by (induction lines arbitrary: l) (auto simp: Let_def)

lemma log_runtime_version:
  "fst (log_runtime_loop lines None l) =
     find_map (\<lambda>line. map_option fst (line_runtime line)) (filter (\<lambda>t. t \<noteq> []) (map trim lines))"
proof (induction lines arbitrary: l)
  case (Cons line lines)
  show ?case
  proof (cases "line_runtime (trim line)")
    case None
    then show ?thesis using Cons by (simp add: Let_def)
  next
    case (Some vl)
    obtain v lo where vl: "vl = (v, lo)" by fastforce
    show ?thesis
      using Some log_runtime_known [of "Some v"] Cons.IH
      by (cases "trim line = []"; cases lo) (auto simp: Let_def vl)
  qed
qed simp

text \<open>
  the version read from a log is the one of the newest line that names a version, in any of
  the four forms, however the search for the mod loader goes on and wherever it stops.
\<close>

theorem newest_version_wins:
  "fst (parse_log_runtime contents) =
     find_map (\<lambda>line. map_option fst (line_runtime line))
       (filter (\<lambda>t. t \<noteq> []) (map trim (rev (str_lines contents))))"
  by (simp add: parse_log_runtime_def log_runtime_version)

end
