(* ===== verification/Minecraft_Proto.thy ===== *)
theory Minecraft_Proto
  imports Models
begin

text \<open>
  The Java Edition status query of \<open>minecraft.rs\<close>: VarInts, the handshake packet, the
  response framing and the loops over protocol versions. A stream is the list of bytes the
  server sends; serde's JSON reader is a parameter.
\<close>

section \<open>VarInts\<close>

function write_varint_loop :: "u32 \<Rightarrow> bytes" where
  "write_varint_loop value =
     (if value AND NOT 0x7F = 0 then [ucast value]
      else ucast ((value AND 0x7F) OR 0x80) # write_varint_loop (drop_bit 7 value))"
  by pat_completeness auto

lemma low_bits_iff: "v AND NOT 0x7F = 0 \<longleftrightarrow> unat v < 128" for v :: u32
proof -
  have m: "(0x7F :: u32) = mask 7" by (simp add: mask_eq_exp_minus_1)
  have "v AND NOT (mask 7) = 0 \<longleftrightarrow> take_bit 7 v = v"
  proof
    assume z: "v AND NOT (mask 7) = 0"
    have "n < 7" if "bit v n" for n
      using arg_cong [OF z, of "\<lambda>w. bit w n"] that
      by (auto simp: bit_and_iff bit_not_iff bit_mask_iff dest: bit_imp_le_length)
    then show "take_bit 7 v = v"
      by (intro bit_word_eqI) (auto simp: bit_take_bit_iff)
  next
    assume t: "take_bit 7 v = v"
    show "v AND NOT (mask 7) = 0"
      by (subst t [symmetric], rule bit_word_eqI)
        (auto simp: bit_and_iff bit_not_iff bit_mask_iff bit_take_bit_iff)
  qed
  also have "\<dots> \<longleftrightarrow> unat v < 2 ^ 7"
    by (simp add: word_unat_eq_iff unsigned_take_bit_eq take_bit_nat_eq_self_iff del: power_numeral)
  finally show ?thesis by (simp add: m)
qed

termination write_varint_loop
proof (relation "measure unat", simp)
  fix v :: u32
  assume "v AND NOT 0x7F \<noteq> 0"
  then have "128 \<le> unat v" by (metis low_bits_iff not_less)
  then show "(drop_bit 7 v, v) \<in> measure unat"
    by (simp add: drop_bit_eq_div unat_div)
qed

declare write_varint_loop.simps [simp del]

definition write_varint :: "i32 \<Rightarrow> anyhow + bytes" where
  "write_varint value =
     (if sint value < 0 then
        Inl [''negative VarInt is not supported'', ''out of range integral type conversion attempted'']
      else Inr (write_varint_loop value))"

fun read_varint_loop :: "i32 \<Rightarrow> nat \<Rightarrow> bytes \<Rightarrow> anyhow + (i32 \<times> bytes)" where
  "read_varint_loop value position stream =
     (if 35 \<le> position then Inl [''VarInt is too long'']
      else case stream of
          [] \<Rightarrow> Inl [''unexpected end of file'']
        | byte # stream' \<Rightarrow>
            let value = value OR push_bit position (ucast (byte AND 0x7F))
            in if byte AND 0x80 = 0 then Inr (value, stream')
               else read_varint_loop value (position + 7) stream')"

declare read_varint_loop.simps [simp del]

definition read_varint :: "bytes \<Rightarrow> anyhow + (i32 \<times> bytes)" where
  "read_varint stream = read_varint_loop 0 0 stream"

section \<open>Packets\<close>

text \<open>\<open>as i32\<close> of a length.\<close>

definition build_handshake_packet :: "string \<Rightarrow> u16 \<Rightarrow> i32 \<Rightarrow> anyhow + bytes" where
  "build_handshake_packet host port protocol_version =
     and_then (write_varint protocol_version) (\<lambda>v.
     and_then (write_varint (word_of_nat (length host))) (\<lambda>l.
     and_then (write_varint 1) (\<lambda>n.
       let packet = [0] @ v @ l @ as_bytes host @ to_be port @ n
       in and_then (write_varint (word_of_nat (length packet))) (\<lambda>framed. Inr (framed @ packet)))))"

text \<open>What \<open>query_status\<close> makes of the bytes the server sends.\<close>

definition read_status :: "(bytes \<Rightarrow> anyhow + 's) \<Rightarrow> bytes \<Rightarrow> anyhow + 's" where
  "read_status from_slice stream =
     and_then (read_varint stream) (\<lambda>(packet_length, stream).
     and_then (read_varint stream) (\<lambda>(packet_id, stream).
       if packet_id \<noteq> 0 then
         Inl [''unexpected packet id'' @ '' '' @ (if sint packet_id < 0
              then ''-'' @ show_nat (nat (- sint packet_id)) else show_nat (unat packet_id))]
       else and_then (read_varint stream) (\<lambda>(payload_len, stream).
         if sint payload_len < 0 then Inl [''received a negative status payload length'']
         else if length stream < unat payload_len then Inl [''early eof'']
         else with_context ''failed to parse Minecraft status JSON''
                (from_slice (take (unat payload_len) stream)))))"

text \<open>
  \<open>query_status\<close>: \<open>connection\<close> is the result of connecting, \<open>writes\<close> of the writes after
  it, \<open>timed_out\<close> says that the two seconds passed first.
\<close>

definition query_status ::
  "(bytes \<Rightarrow> anyhow + 's) \<Rightarrow> string \<Rightarrow> u16 \<Rightarrow> i32 \<Rightarrow> anyhow + bytes \<Rightarrow> anyhow + unit \<Rightarrow> bool \<Rightarrow>
     anyhow + 's" where
  "query_status from_slice host port protocol_version connection writes timed_out =
     (if timed_out then
        Inl [''timed out while querying the local Minecraft target'', ''deadline has elapsed'']
      else
        and_then (with_context (''failed to connect to '' @ host @ '':'' @ show_word port) connection)
          (\<lambda>stream.
        and_then (build_handshake_packet host port protocol_version) (\<lambda>_.
        and_then writes (\<lambda>_. read_status from_slice stream))))"

definition STATUS_PROTOCOL_CANDIDATES :: "i32 list" where
  "STATUS_PROTOCOL_CANDIDATES = [767, 764, 760, 47]"

definition or_else_error :: "string \<Rightarrow> anyhow option + 'a \<Rightarrow> anyhow + 'a" where
  "or_else_error message r =
     (case r of Inr x \<Rightarrow> Inr x | Inl (Some e) \<Rightarrow> Inl e | Inl None \<Rightarrow> Inl [message])"

definition detect_status_response :: "(i32 \<Rightarrow> anyhow + 's) \<Rightarrow> anyhow + 's" where
  "detect_status_response query =
     or_else_error ''failed to get a valid Minecraft status response''
       (first_ok None (map query STATUS_PROTOCOL_CANDIDATES))"

record status_response =
  sr_version_name :: string
  sr_players :: "(u32 \<times> u32 \<times> string list) option"
  sr_description :: "string option" \<comment> \<open>as \<open>status_description_to_string\<close> reads it\<close>

definition detect_local_version :: "(i32 \<Rightarrow> anyhow + status_response) \<Rightarrow> anyhow + string" where
  "detect_local_version query =
     map_sum id sr_version_name (or_else_error ''failed to get a valid Minecraft status response''
       (first_ok None (map query STATUS_PROTOCOL_CANDIDATES)))"

section \<open>Lemmas\<close>

lemma varint_last: "unat v < 128 \<Longrightarrow> write_varint_loop v = [ucast v]"
  using low_bits_iff [of v] by (subst write_varint_loop.simps) simp

lemma varint_more: "128 \<le> unat v \<Longrightarrow>
    write_varint_loop v = ucast ((v AND 0x7F) OR 0x80) # write_varint_loop (drop_bit 7 v)"
  using low_bits_iff [of v] by (subst write_varint_loop.simps) simp

lemma length_varint: "length (write_varint_loop v) \<le> n" if "unat v < 128 ^ n" and "0 < n" for v n
  using that
proof (induction n arbitrary: v)
  case (Suc n)
  show ?case
  proof (cases "unat v < 128")
    case True
    then show ?thesis by (simp add: varint_last)
  next
    case False
    then have "0 < n" using Suc.prems by (cases n) simp_all
    moreover have "unat (drop_bit 7 v) < 128 ^ n"
      using Suc.prems by (simp add: drop_bit_eq_div unat_div)
    ultimately show ?thesis using False Suc.IH by (simp add: varint_more)
  qed
qed simp

lemma length_varint_pos: "0 < length (write_varint_loop v)"
  by (subst write_varint_loop.simps) simp

text \<open>The pieces of a byte survive the mask and the shift.\<close>

lemma last_byte:
  fixes v :: u32
  assumes "unat v < 128"
  shows "(ucast v :: u8) AND 0x80 = 0" and "ucast ((ucast v :: u8) AND 0x7F) = v"
proof -
  have t: "take_bit 7 v = v"
    using assms by (simp add: word_unat_eq_iff unsigned_take_bit_eq take_bit_nat_eq_self_iff)
  then have b: "bit v n \<Longrightarrow> n < 7" for n by (metis bit_take_bit_iff)
  have x80: "(0x80 :: u8) = push_bit 7 1" by simp
  have m: "(0x7F :: u8) = mask 7" by (simp add: mask_eq_exp_minus_1)
  show "(ucast v :: u8) AND 0x80 = 0"
    by (rule bit_word_eqI) (auto simp: x80 bit_and_iff bit_push_bit_iff bit_1_iff unsigned_ucast_eq
        bit_unsigned_iff dest: b simp del: push_bit_of_1)
  show "ucast ((ucast v :: u8) AND 0x7F) = v"
    unfolding m
    by (rule bit_word_eqI) (auto simp: bit_and_iff bit_mask_iff bit_unsigned_iff dest: b)
qed

lemma more_byte:
  fixes v :: u32
  shows "(ucast ((v AND 0x7F) OR 0x80) :: u8) AND 0x80 \<noteq> 0"
    and "ucast ((ucast ((v AND 0x7F) OR 0x80) :: u8) AND 0x7F) = take_bit 7 v"
proof -
  have x80: "(0x80 :: u8) = push_bit 7 1" "(0x80 :: u32) = push_bit 7 1" by simp_all
  have m: "(0x7F :: u8) = mask 7" "(0x7F :: u32) = mask 7" by (simp_all add: mask_eq_exp_minus_1)
  have "bit ((ucast ((v AND 0x7F) OR 0x80) :: u8) AND 0x80) 7"
    by (simp add: x80 bit_and_iff bit_or_iff bit_push_bit_iff bit_1_iff bit_unsigned_iff
        del: push_bit_of_1)
  then show "(ucast ((v AND 0x7F) OR 0x80) :: u8) AND 0x80 \<noteq> 0" by (metis bit_0_eq bot_apply bot_bool_def)
  show "ucast ((ucast ((v AND 0x7F) OR 0x80) :: u8) AND 0x7F) = take_bit 7 v"
    unfolding m x80
    by (rule bit_word_eqI) (auto simp: bit_and_iff bit_or_iff bit_mask_iff bit_unsigned_iff
        bit_take_bit_iff bit_push_bit_iff bit_1_iff simp del: push_bit_of_1)
qed

lemma or_shifted:
  fixes v :: u32
  shows "(acc OR push_bit p (take_bit 7 v)) OR push_bit (p + 7) (drop_bit 7 v) = acc OR push_bit p v"
proof (rule bit_word_eqI)
  fix n
  have "7 + (n - (p + 7)) = n - p" if "7 \<le> n - p" using that by simp
  then show "bit ((acc OR push_bit p (take_bit 7 v)) OR push_bit (p + 7) (drop_bit 7 v)) n =
      bit (acc OR push_bit p v) n"
    by (cases "7 \<le> n - p")
      (auto simp: bit_or_iff bit_push_bit_iff bit_take_bit_iff bit_drop_bit_eq)
qed

lemma read_write_loop:
  "unat v < 128 ^ n \<Longrightarrow> p + 7 * n \<le> 35 \<Longrightarrow> 0 < n \<Longrightarrow>
     read_varint_loop acc p (write_varint_loop v @ rest) = Inr (acc OR push_bit p v, rest)"
proof (induction n arbitrary: v p acc)
  case (Suc n)
  show ?case
  proof (cases "unat v < 128")
    case True
    then show ?thesis
      using Suc.prems last_byte [OF True]
      by (subst read_varint_loop.simps) (simp add: varint_last Let_def)
  next
    case False
    then have n: "0 < n" using Suc.prems by (cases n) simp_all
    have "unat (drop_bit 7 v) < 128 ^ n"
      using Suc.prems by (simp add: drop_bit_eq_div unat_div)
    from Suc.IH [OF this _ n, of "p + 7" "acc OR push_bit p (take_bit 7 v)"]
    have "read_varint_loop (acc OR push_bit p (take_bit 7 v)) (p + 7)
        (write_varint_loop (drop_bit 7 v) @ rest) = Inr (acc OR push_bit p v, rest)"
      using Suc.prems(2) by (simp add: or_shifted)
    then show ?thesis
      using False Suc.prems more_byte [of v]
      by (subst read_varint_loop.simps) (simp add: varint_more Let_def)
  qed
qed simp

lemma read_write_varint: "read_varint (write_varint_loop v @ rest) = Inr (v, rest)"
proof -
  have "unat v < 2 ^ 32" using unsigned_less [of v, where 'a = nat] by simp
  then have "unat v < 128 ^ 5" by simp
  from read_write_loop [OF this, of 0 0 rest] show ?thesis by (simp add: read_varint_def)
qed

lemma length_varint_le: "length (write_varint_loop v) \<le> 5"
proof -
  have "unat v < 2 ^ 32" using unsigned_less [of v, where 'a = nat] by simp
  then have "unat v < 128 ^ 5" by simp
  then show ?thesis by (rule length_varint) simp
qed

lemma write_nonneg: "0 \<le> sint v \<Longrightarrow> write_varint v = Inr (write_varint_loop v)"
  by (simp add: write_varint_def)

lemma sint_of_small: "n < 2 ^ 31 \<Longrightarrow> sint (word_of_nat n :: i32) = int n"
  by (simp add: signed_of_nat signed_take_bit_int_eq_self_iff)

lemma write_length: "n < 2 ^ 31 \<Longrightarrow> write_varint (word_of_nat n) = Inr (write_varint_loop (word_of_nat n))"
  by (simp add: write_nonneg sint_of_small)

lemma unat_of_small: "n < 2 ^ 31 \<Longrightarrow> unat (word_of_nat n :: i32) = n"
  by (simp add: unat_of_nat)

lemma read_varint_loop_used:
  "read_varint_loop acc p stream = Inr (v, rest) \<Longrightarrow>
     \<exists>used. stream = used @ rest \<and> 0 < length used \<and> p + 7 * (length used - 1) < 35"
proof (induction acc p stream rule: read_varint_loop.induct)
  case (1 acc p stream)
  from 1(2) obtain b bs where s: "stream = b # bs" and p: "p < 35"
    by (subst (asm) read_varint_loop.simps) (auto split: if_splits list.splits)
  let ?acc = "acc OR push_bit p (ucast (b AND 0x7F))"
  show ?case
  proof (cases "b AND 0x80 = 0")
    case True
    then have "stream = [b] @ rest"
      using 1(2) p by (subst (asm) read_varint_loop.simps) (simp add: s Let_def)
    then show ?thesis using p by (intro exI [of _ "[b]"]) simp
  next
    case False
    then have "read_varint_loop ?acc (p + 7) bs = Inr (v, rest)"
      using 1(2) p by (subst (asm) read_varint_loop.simps) (simp add: s Let_def)
    from 1(1) [OF _ s refl False this] p obtain used
      where "bs = used @ rest" "0 < length used" "p + 7 + 7 * (length used - 1) < 35"
      by auto
    then show ?thesis by (intro exI [of _ "b # used"]) (cases used, auto simp: s)
  qed
qed

section \<open>Properties\<close>

text \<open>
  every VarInt the client writes is read back exactly, whatever follows it, and takes
  one to five bytes; negative values are refused.
\<close>

theorem varint_round_trip:
  "if sint v < 0 then \<exists>e. write_varint v = Inl e
   else \<exists>bs. write_varint v = Inr bs \<and> 1 \<le> length bs \<and> length bs \<le> 5
        \<and> (\<forall>rest. read_varint (bs @ rest) = Inr (v, rest))"
  using length_varint_le [of v] length_varint_pos [of v] read_write_varint
  by (simp add: write_varint_def Suc_le_eq)

lemma read_varint_loop_error:
  "read_varint_loop acc p stream = Inl e \<Longrightarrow>
     e \<in> {[''VarInt is too long''], [''unexpected end of file'']}"
proof (induction acc p stream rule: read_varint_loop.induct)
  case (1 acc p stream)
  show ?case
  proof (cases stream)
    case (Cons b bs)
    then show ?thesis
      using 1(2) 1(1) [OF _ Cons refl]
      by (subst (asm) read_varint_loop.simps) (auto simp: Let_def split: if_splits)
  qed (use 1(2) in \<open>subst (asm) read_varint_loop.simps, auto split: if_splits\<close>)
qed

text \<open>
  reading a VarInt always ends within five bytes: it consumes one to five bytes of the
  stream, or reports the end of the stream or an overlong VarInt.
\<close>

theorem read_varint_bounded:
  "case read_varint stream of
     Inr (v, rest) \<Rightarrow> \<exists>used. stream = used @ rest \<and> 1 \<le> length used \<and> length used \<le> 5
   | Inl e \<Rightarrow> e \<in> {[''VarInt is too long''], [''unexpected end of file'']}"
proof (cases "read_varint stream")
  case (Inl e)
  then show ?thesis using read_varint_loop_error by (auto simp: read_varint_def)
next
  case (Inr r)
  obtain v rest where r: "r = (v, rest)" by (cases r)
  then obtain used where "stream = used @ rest" "0 < length used" "0 + 7 * (length used - 1) < 35"
    using read_varint_loop_used [of 0 0 stream v rest] Inr by (auto simp: read_varint_def)
  then show ?thesis using Inr r by (cases used) auto
qed

text \<open>How a server reads the handshake packet.\<close>

definition server_handshake :: "bytes \<Rightarrow> anyhow + (i32 \<times> string \<times> u16 \<times> i32)" where
  "server_handshake stream =
     and_then (read_varint stream) (\<lambda>(len, body).
     if length body \<noteq> unat len then Inl [''bad length'']
     else and_then (read_varint body) (\<lambda>(packet_id, body).
     if packet_id \<noteq> 0 then Inl [''bad id'']
     else and_then (read_varint body) (\<lambda>(protocol, body).
     and_then (read_varint body) (\<lambda>(n, body).
     and_then (read_varint (drop (unat n + 2) body)) (\<lambda>(next_state, _).
       Inr (protocol, chars_of (take (unat n) body), from_be (take 2 (drop (unat n) body)),
            next_state))))))"

text \<open>
  C40: a server that reads the handshake packet as the protocol prescribes sees the protocol
  version, host and port it was built from and the status state, and exactly one packet.
\<close>

theorem handshake_round_trip:
  assumes "0 \<le> sint protocol" and "length host < 2 ^ 30"
  shows "and_then (build_handshake_packet host port protocol) server_handshake =
    Inr (protocol, host, port, 1)"
proof -
  let ?l = "word_of_nat (length host) :: i32"
  let ?b = "0 # write_varint_loop protocol @ write_varint_loop ?l @ as_bytes host @ to_be port
      @ write_varint_loop 1"
  have "length ?b < 2 ^ 31"
    using assms(2) length_varint_le [of protocol] length_varint_le [of ?l] length_varint_le [of 1]
    by simp
  note b = write_length [OF this] unat_of_small [OF this]
  have h: "length host < 2 ^ 31" using assms(2) by simp
  note l = write_length [OF h] unat_of_small [OF h]
  have one: "write_varint 1 = Inr (write_varint_loop 1)" by (simp add: write_varint_def)
  have zero: "read_varint (0 # rest) = Inr (0, rest)" for rest
    using read_write_varint [of 0 rest] by (simp add: varint_last)
  have last: "read_varint (write_varint_loop 1) = Inr (1, [])"
    using read_write_varint [of 1 "[]"] by simp
  have build: "build_handshake_packet host port protocol =
      Inr (write_varint_loop (word_of_nat (length ?b)) @ ?b)"
    using b(1) l(1) one assms(1) by (simp add: build_handshake_packet_def write_nonneg Let_def)
  show ?thesis
    unfolding build using b(2) l(2)
    by (simp add: server_handshake_def read_write_varint zero last)
qed

theorem handshake_round_trip_witness:
  "and_then (build_handshake_packet ''localhost'' 25565 767) server_handshake =
     Inr (767, ''localhost'', 25565, 1)"
  by (rule handshake_round_trip) simp_all

text \<open>How a server frames its status response.\<close>

definition status_packet :: "bytes \<Rightarrow> bytes" where
  "status_packet json =
     (let body = write_varint_loop 0 @ write_varint_loop (word_of_nat (length json)) @ json
      in write_varint_loop (word_of_nat (length body)) @ body)"

text \<open>
  a status response framed as the protocol prescribes is handed to the JSON reader
  byte for byte, whatever follows it on the connection.
\<close>

theorem status_response_read:
  assumes "length json < 2 ^ 31"
  shows "read_status from_slice (status_packet json @ rest) =
    with_context ''failed to parse Minecraft status JSON'' (from_slice json)"
  using unat_of_small [OF assms] sint_of_small [OF assms]
  by (simp add: read_status_def status_packet_def Let_def read_write_varint)

theorem status_response_read_witness:
  "read_status Inr (status_packet [123, 125] @ [9]) = Inr [123, 125]"
  using status_response_read [of "[123, 125]" Inr "[9]"] by simp

text \<open>
  the versions are tried in order: the answer is that of the first protocol version
  whose query succeeds, and if none does the error is that of the last one, 47.
\<close>

theorem status_first_success:
  "detect_status_response query =
     (case find (\<lambda>v. \<exists>r. query v = Inr r) [767, 764, 760, 47] of
        Some v \<Rightarrow> query v
      | None \<Rightarrow> query 47)"
  by (auto simp: detect_status_response_def STATUS_PROTOCOL_CANDIDATES_def or_else_error_def
      split: sum.split)

end
