(* ===== verification/Game_Probe.thy ===== *)
theory Game_Probe
  imports Game_Profile Minecraft_Proto Discovery
begin

text \<open>
  The questions asked about a game server (\<open>minecraft.rs\<close>): the description of a status
  response, the probe of an external server over the three protocols, the snapshot of the
  local players and the report before hosting. The outcomes of the probes are arguments.
\<close>

section \<open>The description\<close>

lemma size_map_of: "map_of kvs k = Some v \<Longrightarrow> size v < size (JObject kvs)"
  by (induction kvs) (auto split: if_splits)

lemma size_extra:
  assumes "map_of m k = Some (JArray extra)" and "v \<in> set extra"
  shows "size v < size (JObject m)"
proof -
  have "size v < size (JArray extra)" using assms(2) by (induction extra) auto
  then show ?thesis using size_map_of [OF assms(1)] by simp
qed

definition own_text :: "(string \<times> json) list \<Rightarrow> string option" where
  "own_text m =
     (case Option.bind (map_of m ''text'') as_str of
        Some text \<Rightarrow> if trim text \<noteq> [] then Some (trim text) else None
      | None \<Rightarrow> None)"

function (sequential) status_description_to_string :: "json \<Rightarrow> string option" where
  "status_description_to_string (JString text) = Some (trim text)"
| "status_description_to_string (JObject m) =
     (case own_text m of
        Some text \<Rightarrow> Some text
      | None \<Rightarrow>
          (case map_of m ''extra'' of
             Some (JArray extra) \<Rightarrow>
               let combined = trim (join '' '' (concat (map (\<lambda>v.
                     case status_description_to_string v of Some t \<Rightarrow> [t] | None \<Rightarrow> []) extra)))
               in if combined \<noteq> [] then Some combined else None
           | _ \<Rightarrow> None))"
| "status_description_to_string v = None"
  by pat_completeness auto
termination
  by (relation "measure size") (auto dest: size_extra)

text \<open>
  the description of a room that is an object is never empty: an object without a text of its
  own and without one in its parts has no description.
\<close>

theorem description_not_empty:
  assumes "status_description_to_string (JObject m) = Some t"
  shows "t \<noteq> []"
  using assms
  by (auto simp: own_text_def Let_def split: option.splits json.splits if_splits)

theorem description_not_empty_witness:
  "status_description_to_string (JObject [(''extra'', JArray [JString ''A'', JObject [(''text'', JString ''B'')]])]) \<noteq> Some []"
  using description_not_empty
    [of "[(''extra'', JArray [JString ''A'', JObject [(''text'', JString ''B'')]])]" "[]"] by blast

section \<open>Players\<close>

record local_player_snapshot =
  ps_online_players :: u32
  ps_max_players :: u32
  ps_sample_names :: "string list"

definition read_local_player_snapshot :: "(i32 \<Rightarrow> anyhow + status_response) \<Rightarrow> local_player_snapshot" where
  "read_local_player_snapshot query =
     (case detect_status_response query of
        Inr res \<Rightarrow>
          let (online, maximum, sample) = (case sr_players res of Some p \<Rightarrow> p | None \<Rightarrow> (0, 0, []))
          in \<lparr>ps_online_players = online, ps_max_players = maximum,
              ps_sample_names = List.map_filter sanitize_minecraft_nickname sample\<rparr>
      | Inl _ \<Rightarrow> \<lparr>ps_online_players = 0, ps_max_players = 0, ps_sample_names = []\<rparr>)"

section \<open>The external probe\<close>

text \<open>
  \<open>broadcast\<close> is the answer of \<open>discover_server_on_port\<close>, \<open>bedrock\<close> that of
  \<open>probe_bedrock_server_sync\<close>, \<open>elapsed_broadcast\<close> and \<open>elapsed\<close> the milliseconds since the start.
\<close>

definition probe_external_server ::
  "string \<Rightarrow> server_info option \<Rightarrow> u64 \<Rightarrow> anyhow + external_server_probe \<Rightarrow>
     (i32 \<Rightarrow> anyhow + status_response) \<Rightarrow> u64 \<Rightarrow> anyhow + external_server_probe" where
  "probe_external_server host broadcast elapsed_broadcast bedrock query elapsed =
     (let is_local = (host = ''127.0.0.1'' \<or> host = ''localhost'' \<or> host = ''::1'')
      in case (if is_local then broadcast else None) of
           Some info \<Rightarrow>
             Inr \<lparr>ep_room_name = si_name info, ep_host_name = si_host_name info,
                  ep_version = Some (si_mc_version info), ep_online_players = si_players info,
                  ep_max_players = si_max_players info, ep_ping_ms = Some elapsed_broadcast\<rparr>
         | None \<Rightarrow>
             (case bedrock of
                Inr bedrock_probe \<Rightarrow> Inr bedrock_probe
              | Inl _ \<Rightarrow>
                  map_sum id (\<lambda>response.
                    let (online, maximum, _) =
                          (case sr_players response of Some p \<Rightarrow> p | None \<Rightarrow> (0, 0, []))
                    in \<lparr>ep_room_name = (case sr_description response of Some d \<Rightarrow> d | None \<Rightarrow> host),
                        ep_host_name = host, ep_version = Some (sr_version_name response),
                        ep_online_players = online, ep_max_players = maximum,
                        ep_ping_ms = Some elapsed\<rparr>)
                    (or_else_error ''failed to query external server status''
                       (first_ok None (map query STATUS_PROTOCOL_CANDIDATES)))))"

text \<open>
  the probe of an external server fails only if everything failed: for a local host no
  announcement was heard, the Bedrock probe failed, and the status query failed in each of
  the four protocol versions; the error is that of the last version, 47. Otherwise the first
  of them that answered gives the result.
\<close>

theorem external_probe_fails_iff:
  "probe_external_server host broadcast t0 bedrock query t = Inl e \<longleftrightarrow>
     (host \<in> {''127.0.0.1'', ''localhost'', ''::1''} \<longrightarrow> broadcast = None) \<and> isl bedrock
     \<and> (\<forall>v \<in> {767, 764, 760}. isl (query v)) \<and> query 47 = Inl e"
  by (auto simp: probe_external_server_def Let_def STATUS_PROTOCOL_CANDIDATES_def or_else_error_def isl_def
      split: sum.split option.split)

theorem external_probe_fails_iff_witness:
  "probe_external_server ''play.example'' None 0 (Inl [])
     (\<lambda>v. if v = 47 then Inl [''timed out''] else Inl [''refused'']) 9 = Inl [''timed out'']"
  using external_probe_fails_iff [of "''play.example''" None 0 "Inl []"
      "\<lambda>v. if v = 47 then Inl [''timed out''] else Inl [''refused'']" 9 "[''timed out'']"]
  by simp

section \<open>The report before hosting\<close>

record preflight_report =
  pr_local_port :: u16
  pr_reachable :: bool
  pr_state :: local_target_state
  pr_minecraft_version :: "string option"
  pr_recommended_host_action :: string
  pr_note :: "string option"
  pr_detected_lan_port :: "u16 option"

definition version_note :: "(string \<Rightarrow> string) \<Rightarrow> string \<Rightarrow> string" where
  "version_note lower version =
     (let note = ''The world is already open to LAN or the local server is accepting connections.''
      in if list_ex (contains (lower version)) [''paper'', ''purpur'', ''spigot''] then
           note @ [char_of (10 :: nat), char_of (10 :: nat)]
             @ ''Tips: Detected a Paper/Purpur/Spigot server. For skin support, consider installing the SkinsRestorer plugin.''
         else note)"

text \<open>
  \<open>probe_local_tcp\<close>: the connection, none when two seconds pass, and its becoming writable, for
  which there is no limit.
\<close>

definition probe_local_tcp :: "u16 \<Rightarrow> (anyhow + unit) option \<Rightarrow> anyhow + unit \<Rightarrow> anyhow + unit" where
  "probe_local_tcp port connected writable =
     (let target = ''127.0.0.1:'' @ show_word port
      in and_then (and_then (with_timeout ''timed out during the local Minecraft TCP probe''
                              (map_option Inr connected))
                    (with_context (''failed to connect to '' @ target))) (\<lambda>_.
           with_context (''local Minecraft target '' @ target @ '' never became writable'') writable))"

text \<open>
  The system's listeners are read once for the Bedrock port and once more when the TCP probe
  fails; none stands for a task that could not be joined.
\<close>

definition build_preflight_report ::
  "(string \<Rightarrow> string) \<Rightarrow> u16 \<Rightarrow> lan_port_detection list option \<Rightarrow> anyhow + unit \<Rightarrow>
     lan_port_detection list option \<Rightarrow> anyhow + string \<Rightarrow> preflight_report" where
  "build_preflight_report lower port listeners tcp_probe listeners_again version =
     (let detected_lan_port = Option.bind listeners (\<lambda>ls.
            map_option ld_port (find (\<lambda>l. contains (ld_source_line l) ''UDP'') ls))
      in case tcp_probe of
           Inl reachability_error \<Rightarrow>
             let is_system_listener =
                   (case listeners_again of Some ls \<Rightarrow> list_ex (\<lambda>l. ld_port l = port) ls | None \<Rightarrow> False)
             in if is_system_listener then
                  \<lparr>pr_local_port = port, pr_reachable = True, pr_state = TargetReachable,
                   pr_minecraft_version = Some ''Detected (UDP/Bedrock)'',
                   pr_recommended_host_action = ''Local Minecraft was detected via system listeners. You can launch the host.'',
                   pr_note = Some (''TCP reachability failed, but port is open in netstat: ''
                     @ alt_format reachability_error),
                   pr_detected_lan_port = detected_lan_port\<rparr>
                else
                  \<lparr>pr_local_port = port, pr_reachable = False, pr_state = TargetUnreachable,
                   pr_minecraft_version = None,
                   pr_recommended_host_action = ''Open the world to LAN or start the local Minecraft server, then try hosting again.'',
                   pr_note = Some (''Local TCP reachability check failed and port not found in netstat: ''
                     @ alt_format reachability_error),
                   pr_detected_lan_port = detected_lan_port\<rparr>
         | Inr _ \<Rightarrow>
             (case version of
                Inr v \<Rightarrow>
                  \<lparr>pr_local_port = port, pr_reachable = True, pr_state = TargetReachable,
                   pr_minecraft_version = Some v,
                   pr_recommended_host_action = ''Local Minecraft is reachable. You can launch the host and publish the room.'',
                   pr_note = Some (version_note lower v), pr_detected_lan_port = detected_lan_port\<rparr>
              | Inl version_error \<Rightarrow>
                  \<lparr>pr_local_port = port, pr_reachable = True, pr_state = TargetReachable,
                   pr_minecraft_version = None,
                   pr_recommended_host_action = ''The TCP port is reachable, but Minecraft version detection failed. You can still launch the host.'',
                   pr_note = Some (''Version detection failed during status ping: '' @ alt_format version_error),
                   pr_detected_lan_port = detected_lan_port\<rparr>))"

text \<open>
  the report calls the port reachable exactly if the TCP probe succeeds or the port is among
  the system's listeners, its state says the same, a version is reported only for a
  reachable port, and a port it suggests is that of one of the listeners.
\<close>

theorem preflight_verdict:
  "let r = build_preflight_report lower port listeners tcp again version
   in (pr_reachable r \<longleftrightarrow> tcp = Inr () \<or> (\<exists>ls. again = Some ls \<and> port \<in> ld_port ` set ls))
    \<and> pr_state r = (if pr_reachable r then TargetReachable else TargetUnreachable)
    \<and> pr_local_port r = port \<and> (pr_minecraft_version r = None \<or> pr_reachable r)
    \<and> (case pr_detected_lan_port r of None \<Rightarrow> True
       | Some p \<Rightarrow> \<exists>ls. listeners = Some ls \<and> p \<in> ld_port ` set ls)"
proof -
  have f: "\<exists>x \<in> set ls. ld_port l = ld_port x" if "find q ls = Some l" for q l and ls :: "lan_port_detection list"
    using that by (auto simp: find_Some_iff)
  show ?thesis
    by (cases tcp; cases version)
      (auto simp: build_preflight_report_def Let_def list_ex_iff image_iff bind_eq_Some_conv
        split: option.splits dest: f)
qed

end
