(* ===== verification/Test_Server.thy ===== *)
theory Test_Server
  imports Status
begin

text \<open>
  The echo server for diagnostics (\<open>test_server.rs\<close>) and its probe: the runtime slot of
  \<open>TestServerManager\<close>, the accept loop, the client handler and the lines they log. Log texts
  the source writes in Russian are given in an English rendering.
\<close>

section \<open>Starting and stopping\<close>

record test_server =
  ts_runtime :: "test_server_info option"
  ts_status :: network_status

text \<open>
  \<open>stop\<close> cancels the token and waits for the task, which logs its end; \<open>abrupt\<close> says that the
  task ended without reaching that line (it panicked).
\<close>

definition ts_stop :: "bool \<Rightarrow> test_server \<Rightarrow> test_server" where
  "ts_stop abrupt s =
     (case ts_runtime s of
        None \<Rightarrow> s
      | Some info \<Rightarrow>
          let st = (if abrupt then ts_status s else log_status (Lit ''the test server has stopped.'') (ts_status s))
          in s\<lparr>ts_runtime := None,
               ts_status := log_status (Fmt ''the test server {} was stopped by hand.'' [Lit (ti_bind_addr info)]) st\<rparr>)"

text \<open>\<open>bound\<close> and \<open>local_addr\<close> are the operating system's answers.\<close>

definition ts_start ::
  "bool \<Rightarrow> u16 \<Rightarrow> anyhow + unit \<Rightarrow> anyhow + sock_addr \<Rightarrow> test_server \<Rightarrow> (anyhow + test_server_info) \<times> test_server" where
  "ts_start abrupt port bound local_addr s =
     (let s = ts_stop abrupt s
      in case with_context (''could not start the test server on 127.0.0.1:'' @ show_word port) bound of
           Inl e \<Rightarrow> (Inl e, s)
         | Inr _ \<Rightarrow>
             (case local_addr of
                Inl e \<Rightarrow> (Inl e, s)
              | Inr a \<Rightarrow>
                  let info = \<lparr>ti_bind_addr = show_addr a, ti_protocol = ''echo-timestamp''\<rparr>
                  in (Inr info, s\<lparr>ts_runtime := Some info\<rparr>)))"

definition ts_current_info :: "test_server \<Rightarrow> test_server_info option" where
  "ts_current_info s = ts_runtime s"

text \<open>The first line of the task, and the accept loop: what an accepted connection or an error does.\<close>

definition ts_task_started :: "test_server_info \<Rightarrow> network_status \<Rightarrow> network_status" where
  "ts_task_started info =
     log_status (Fmt ''the test server runs on {}. Protocol: {}.'' [Lit (ti_bind_addr info), Lit (ti_protocol info)])"

datatype accept_event = Accepted sock_addr | AcceptFailed string

fun ts_accept :: "accept_event \<Rightarrow> sock_addr list \<times> network_status \<Rightarrow> sock_addr list \<times> network_status" where
  "ts_accept (Accepted addr) (clients, s) = (clients @ [addr], s)"
| "ts_accept (AcceptFailed e) (clients, s) =
     (clients, log_status (Fmt ''test server: accept() returned an error: {error}'' [Lit e]) s)"

section \<open>The client handler\<close>

text \<open>
  One round per \<open>read\<close>: the octets read (at most 4096, none at the end of the stream), the
  seconds since the epoch, the outcome of writing and flushing the answer. The result is the
  answers written, the outcome and the status.
\<close>

definition echo_response :: "u64 \<Rightarrow> string \<Rightarrow> string" where
  "echo_response timestamp received =
     ''echo:'' @ show_word timestamp @ '':'' @ received @ [char_of (10 :: nat)]"

fun client_rounds ::
  "string \<Rightarrow> (anyhow + bytes \<times> u64 \<times> (anyhow + unit)) list \<Rightarrow> network_status \<Rightarrow>
     bytes list \<times> (anyhow + unit) \<times> network_status" where
  "client_rounds remote_addr [] s = ([], Inr (), s)"
| "client_rounds remote_addr (r # rounds) s =
     (case r of
        Inl e \<Rightarrow> ([], Inl e, s)
      | Inr (buf, timestamp, write) \<Rightarrow>
          if buf = [] then
            ([], Inr (), log_status (Fmt ''test server: client {remote_addr} closed the connection.''
               [Lit remote_addr]) s)
          else
            let received = trim (utf8_lossy buf);
                s = log_status (Fmt ''test server: received {read} bytes from {remote_addr}: {received}''
                      [Lit (show_nat (length buf)), Lit remote_addr, Lit received]) s;
                response = as_bytes (echo_response timestamp received)
            in case write of
                 Inl e \<Rightarrow> ([], Inl e, s)
               | Inr _ \<Rightarrow>
                   let (responses, result, s) = client_rounds remote_addr rounds s
                   in (response # responses, result, s))"

definition handle_client ::
  "string \<Rightarrow> (anyhow + bytes \<times> u64 \<times> (anyhow + unit)) list \<Rightarrow> network_status \<Rightarrow>
     bytes list \<times> (anyhow + unit) \<times> network_status" where
  "handle_client remote_addr rounds s =
     client_rounds remote_addr rounds
       (log_status (Fmt ''test server: client {remote_addr} connected.'' [Lit remote_addr]) s)"

section \<open>The probe\<close>

text \<open>\<open>answer\<close> is what the one \<open>read\<close> into 2048 octets returns after the payload was sent.\<close>

definition probe_message :: "string \<Rightarrow> bytes" where
  "probe_message payload = as_bytes (payload @ [char_of (10 :: nat)])"

definition probe_test_server ::
  "u16 \<Rightarrow> anyhow + unit \<Rightarrow> anyhow + unit \<Rightarrow> anyhow + unit \<Rightarrow> anyhow + bytes \<Rightarrow> anyhow + string" where
  "probe_test_server port connect write flush answer =
     (let target = ''127.0.0.1:'' @ show_word port
      in and_then (with_context (''could not connect to the test server '' @ target) connect) (\<lambda>_.
         and_then (with_context (''could not send the test packet to '' @ target) write) (\<lambda>_.
         and_then (with_context (''could not flush for '' @ target) flush) (\<lambda>_.
         and_then (with_context (''could not read the answer from '' @ target) answer) (\<lambda>buf.
           Inr (if buf = [] then [] else trim (utf8_lossy buf)))))))"

section \<open>Facts\<close>

text \<open>
  there is never more than one server: starting stops the running one first, so that a start
  that fails leaves none, and a start that succeeds leaves the new one.
\<close>

theorem start_replaces:
  "ts_start abrupt port bound local_addr s = (r, s') \<Longrightarrow>
     ts_current_info s' = (case r of Inr info \<Rightarrow> Some info | Inl _ \<Rightarrow> None)"
  by (auto simp: ts_start_def ts_stop_def ts_current_info_def Let_def split: sum.splits option.splits)

theorem start_replaces_witness:
  "ts_current_info (snd (ts_start False 7777 (Inl [''in use'']) (Inr (SockV4 127 0 0 1 7777))
     \<lparr>ts_runtime = Some \<lparr>ti_bind_addr = ''127.0.0.1:7000'', ti_protocol = ''echo-timestamp''\<rparr>,
      ts_status = initial_status\<rparr>)) = None"
proof -
  let ?s = "\<lparr>ts_runtime = Some \<lparr>ti_bind_addr = ''127.0.0.1:7000'', ti_protocol = ''echo-timestamp''\<rparr>,
      ts_status = initial_status\<rparr>"
  obtain e s' where run: "ts_start False 7777 (Inl [''in use'']) (Inr (SockV4 127 0 0 1 7777)) ?s = (Inl e, s')"
    by (auto simp: ts_start_def Let_def)
  from start_replaces [OF run] show ?thesis by (simp add: run)
qed

text \<open>The prefix of blanks of a text is not changed by a line feed behind it.\<close>

lemma ws_prefix_three: "ws_prefix (b # c # d # xs) = ws_prefix (b # c # d # ys)"
  by simp

lemma ws_prefix_newline:
  assumes "ws_prefix cs = 0" and "cs \<noteq> []"
  shows "ws_prefix (cs @ [10]) = 0"
proof -
  consider b where "cs = [b]" | b c where "cs = [b, c]" | b c d r where "cs = b # c # d # r"
    using assms(2) by (metis list.exhaust)
  then show ?thesis
  proof cases
    case 1
    then show ?thesis using assms(1) by (simp split: if_split_asm)
  next
    case 2
    then show ?thesis using assms(1) by (simp split: if_split_asm)
  next
    case 3
    then show ?thesis using assms(1) ws_prefix_three [of b c d "r @ [10]" r] by (simp only: append_Cons)
  qed
qed

lemma trim_newline:
  assumes "ws_prefix (codes s) = 0" and "ws_suffix (codes s) = 0" and "s \<noteq> []"
  shows "trim (s @ [char_of (10 :: nat)]) = s"
proof -
  let ?t = "s @ [char_of (10 :: nat)]"
  have c: "codes ?t = codes s @ [10]" by (simp add: codes_def)
  have "trim_start ?t = ?t"
    by (rule trim_start_id) (use ws_prefix_newline assms in \<open>simp add: c codes_def\<close>)
  moreover have "ws_suffix (codes ?t) = 1" by (simp add: c ws_suffix_def)
  then have "trim_end ?t = trim_end s" by (subst trim_end.simps) (simp add: Let_def)
  ultimately show ?thesis using trim_end_id [OF assms(2)] by (simp add: trim_def)
qed

lemma ws_suffix_append:
  assumes "ws_suffix b = 0" and "b \<noteq> []" and "\<forall>x \<in> set a. 32 < x \<and> x < 128"
  shows "ws_suffix (a @ b) = 0"
proof -
  have e: "\<not> (n \<le> length (a @ b) \<and> ws_prefix (drop (length (a @ b) - n) (a @ b)) = n)"
    if n: "n \<in> {1, 2, 3}" for n
  proof (cases "n \<le> length b")
    case True
    have "\<not> (n \<le> length b \<and> ws_prefix (drop (length b - n) b) = n)"
      using assms(1) n by (auto simp: ws_suffix_def Let_def split: if_splits)
    then show ?thesis using True by simp
  next
    case False
    show ?thesis
    proof
      assume l: "n \<le> length (a @ b) \<and> ws_prefix (drop (length (a @ b) - n) (a @ b)) = n"
      let ?k = "length (a @ b) - n"
      have "?k < length a" using False l by auto
      then have d: "drop ?k (a @ b) = a ! ?k # drop (Suc ?k) a @ b"
        by (simp add: Cons_nth_drop_Suc [symmetric])
      have "32 < a ! ?k \<and> a ! ?k < 128" using assms(3) \<open>?k < length a\<close> by simp
      then have "ws_prefix (drop ?k (a @ b)) = 0" unfolding d by auto
      with l n show False by simp
    qed
  qed
  show ?thesis using e [of 1] e [of 2] e [of 3] by (auto simp: ws_suffix_def Let_def)
qed

lemma codes_show_word: "\<forall>x \<in> set (codes (show_word w)). 48 \<le> x \<and> x \<le> 57"
  using show_nat_set [of _ "unat w"] by (auto simp: codes_def show_word_def is_digit_def)

text \<open>
  what the probe sends comes back. A payload without blanks at its ends that reaches the
  server in one read is answered with the time and the payload, and the probe that receives
  the answer in one read reports exactly that.
\<close>

theorem echo_round_trip:
  assumes "is_str payload" and "payload \<noteq> []"
    and "ws_prefix (codes payload) = 0" and "ws_suffix (codes payload) = 0"
  shows "\<exists>response s'. handle_client addr [Inr (probe_message payload, ts, Inr ()), Inr ([], ts, Inr ())] s
        = ([response], Inr (), s')
    \<and> probe_test_server port (Inr ()) (Inr ()) (Inr ()) (Inr response) = Inr (''echo:'' @ show_word ts @ '':'' @ payload)"
proof -
  let ?nl = "[char_of (10 :: nat)]"
  let ?text = "''echo:'' @ show_word ts @ '':'' @ payload"
  have nl: "is_str ?nl" by (rule is_str_ascii) simp
  have "utf8_lossy (probe_message payload) = payload @ ?nl"
    unfolding probe_message_def by (rule utf8_lossy_as_bytes) (rule is_str_append [OF assms(1) nl])
  then have received: "trim (utf8_lossy (probe_message payload)) = payload"
    using trim_newline [OF assms(3,4,2)] by simp
  have head: "is_str (''echo:'' @ show_word ts @ '':'')"
    using codes_show_word [of ts] by (intro is_str_ascii) (auto simp: codes_def)
  have "is_str (?text @ ?nl)" using is_str_append [OF is_str_append [OF head assms(1)] nl] by simp
  then have lossy: "utf8_lossy (as_bytes (echo_response ts payload)) = ?text @ ?nl"
    unfolding echo_response_def by (subst utf8_lossy_as_bytes) simp_all
  have "ws_suffix (codes (''echo:'' @ show_word ts @ '':'') @ codes payload) = 0"
    using codes_show_word [of ts] assms(2,4)
    by (intro ws_suffix_append) (auto simp: codes_def)
  then have "ws_suffix (codes ?text) = 0" by (simp add: codes_def)
  moreover have "ws_prefix (codes ?text) = 0" by (simp add: codes_def)
  ultimately have answer: "trim (?text @ ?nl) = ?text" by (intro trim_newline) simp_all
  have "probe_message payload \<noteq> []" by (simp add: probe_message_def as_bytes_def)
  moreover have "as_bytes (echo_response ts payload) \<noteq> []" by (simp add: echo_response_def as_bytes_def)
  ultimately show ?thesis
    using answer by (simp add: handle_client_def received probe_test_server_def lossy)
qed

theorem echo_round_trip_witness:
  "\<exists>response s'. handle_client ''127.0.0.1:5'' [Inr (probe_message ''ping'', 1700000000, Inr ()), Inr ([], 1700000000, Inr ())]
       initial_status = ([response], Inr (), s')
    \<and> probe_test_server 7777 (Inr ()) (Inr ()) (Inr ()) (Inr response) = Inr (''echo:'' @ show_word (1700000000 :: u64) @ '':ping'')"
  using echo_round_trip [of "''ping''" "''127.0.0.1:5''" 1700000000 initial_status 7777]
  by (simp add: is_str_ascii codes_def ws_suffix_def)

end
