(* ===== verification/Upnp.thy ===== *)
theory Upnp
  imports Net_Addr Models
begin

text \<open>
  The port mapping on the router (\<open>upnp.rs\<close> and \<open>start_upnp_mapping\<close> of \<open>manager.rs\<close>): the
  choice of the local address, the search for a gateway that accepts the mapping, and the
  removal of the mapping when its handle is dropped. The interfaces, the route to the
  internet, the devices that answer and what their services reply are arguments, and so is
  \<open>lower\<close>, the Unicode \<open>to_lowercase\<close>. Texts the source writes in Russian are rendered in
  English.
\<close>

section \<open>The local address\<close>

record interface =
  nif_name :: string
  nif_ip :: ip_addr

definition VIRTUAL_NAMES :: "string list" where
  "VIRTUAL_NAMES = [''loopback'', ''docker'', ''wsl'', ''vethernet'', ''virtual'', ''vmware'', ''vbox'',
     ''tun'', ''tap'', ''vpn'', ''radmin'', ''hyper-v'']"

fun excluded_range :: "ip_addr \<Rightarrow> bool" where
  "excluded_range (IpV4 a b c d) = (a = 172 \<and> 16 \<le> b \<and> b \<le> 31 \<or> a = 26)"
| "excluded_range (IpV6 w) = False"

fun usable_ip :: "ip_addr \<Rightarrow> bool" where
  "usable_ip (IpV4 a b c d) \<longleftrightarrow> a \<noteq> 127 \<and> \<not> (a = 169 \<and> b = 254) \<and> \<not> excluded_range (IpV4 a b c d)"
| "usable_ip (IpV6 w) = False"

definition valid_ips :: "(string \<Rightarrow> string) \<Rightarrow> interface list \<Rightarrow> ip_addr list" where
  "valid_ips lower ifaces =
     map nif_ip (filter (\<lambda>i. \<not> list_ex (contains (lower (nif_name i))) VIRTUAL_NAMES \<and> usable_ip (nif_ip i)) ifaces)"

fun ip_rank :: "ip_addr \<Rightarrow> nat" where
  "ip_rank (IpV4 a b c d) = (if a = 192 \<and> b = 168 then 0 else if a = 10 then 1 else 2)"
| "ip_rank (IpV6 w) = 2"

fun is_v4 :: "ip_addr \<Rightarrow> bool" where
  "is_v4 (IpV4 a b c d) = True"
| "is_v4 (IpV6 w) = False"

text \<open>\<open>ifaces\<close> is none if the interfaces cannot be listed, \<open>route\<close> the local address of a UDP
  socket connected to 8.8.8.8, none if any of its three steps fails.\<close>

definition get_local_ip ::
  "(string \<Rightarrow> string) \<Rightarrow> interface list option \<Rightarrow> ip_addr option \<Rightarrow> anyhow + ip_addr" where
  "get_local_ip lower ifaces route =
     (let valid = (case ifaces of Some is \<Rightarrow> valid_ips lower is | None \<Rightarrow> []);
          routed = (case route of
              None \<Rightarrow> None
            | Some ip \<Rightarrow> if ip \<in> set valid then Some ip
                         else if is_v4 ip \<and> \<not> excluded_range ip then Some ip else None)
      in case routed of
           Some ip \<Rightarrow> Inr ip
         | None \<Rightarrow> (case sort_key ip_rank valid of
                      ip # _ \<Rightarrow> Inr ip
                    | [] \<Rightarrow> Inl [''no local IP address was found'']))"

section \<open>The gateway\<close>

datatype wan_service = WanIpConnection | WanPppConnection

record device =
  dv_name :: string
  dv_services :: "wan_service list"
  dv_reply :: "string + unit" \<comment> \<open>of \<open>AddPortMapping\<close>, the error as displayed\<close>

record upnp_mapping =
  um_device :: device
  um_service :: wan_service
  um_external_port :: u16

definition gateway_service :: "device \<Rightarrow> wan_service option" where
  "gateway_service d =
     (if WanIpConnection \<in> set (dv_services d) then Some WanIpConnection
      else if WanPppConnection \<in> set (dv_services d) then Some WanPppConnection else None)"

definition add_mapping_args :: "u16 \<Rightarrow> ip_addr \<Rightarrow> string \<Rightarrow> string" where
  "add_mapping_args local_port local_ip description =
     ''<NewRemoteHost></NewRemoteHost><NewExternalPort>'' @ show_word local_port
       @ ''</NewExternalPort><NewProtocol>UDP</NewProtocol><NewInternalPort>'' @ show_word local_port
       @ ''</NewInternalPort><NewInternalClient>'' @ show_ip local_ip
       @ ''</NewInternalClient><NewEnabled>1</NewEnabled><NewPortMappingDescription>'' @ description
       @ ''</NewPortMappingDescription><NewLeaseDuration>0</NewLeaseDuration>''"

definition delete_mapping_args :: "u16 \<Rightarrow> string" where
  "delete_mapping_args port =
     ''<NewRemoteHost></NewRemoteHost><NewExternalPort>'' @ show_word port
       @ ''</NewExternalPort><NewProtocol>UDP</NewProtocol>''"

text \<open>
  The loop over the devices the search yields, with the errors and the number of gateways so
  far; an answer that could not be read is skipped. The calls sent to the routers are logged.
\<close>

type_synonym router_call = "device \<times> wan_service \<times> string \<times> string"

fun try_devices ::
  "u16 \<Rightarrow> string \<Rightarrow> (string + device) list \<Rightarrow> string list \<Rightarrow> nat \<Rightarrow>
     (anyhow + upnp_mapping) \<times> router_call list" where
  "try_devices local_port args [] errors devices_found =
     (Inl (if devices_found = 0
           then [''no UPnP gateway was found in the local network (SSDP timeout). Make sure the network profile is private.'']
           else [''a UPnP gateway was found but refused the request: '' @ join ''; '' errors]), [])"
| "try_devices local_port args (Inl _ # devices) errors devices_found =
     try_devices local_port args devices errors devices_found"
| "try_devices local_port args (Inr d # devices) errors devices_found =
     (case gateway_service d of
        None \<Rightarrow> try_devices local_port args devices errors devices_found
      | Some urn \<Rightarrow>
          let call = (d, urn, ''AddPortMapping'', args)
          in case dv_reply d of
               Inr _ \<Rightarrow> (Inr \<lparr>um_device = d, um_service = urn, um_external_port = local_port\<rparr>, [call])
             | Inl e \<Rightarrow>
                 let (r, calls) = try_devices local_port args devices
                        (errors @ [CHR 0x27 # dv_name d @ [CHR 0x27] @ '' error: '' @ e]) (Suc devices_found)
                 in (r, call # calls))"

definition attempt_map ::
  "u16 \<Rightarrow> string \<Rightarrow> anyhow + ip_addr \<Rightarrow> anyhow + (string + device) list \<Rightarrow>
     (anyhow + upnp_mapping) \<times> router_call list" where
  "attempt_map local_port description local_ip discovered =
     (case with_context ''the local IPv4 address of the host could not be determined'' local_ip of
        Inl e \<Rightarrow> (Inl e, [])
      | Inr ip \<Rightarrow>
          (case with_context ''starting the UPnP discovery failed'' discovered of
             Inl e \<Rightarrow> (Inl e, [])
           | Inr devices \<Rightarrow> try_devices local_port (add_mapping_args local_port ip description) devices [] 0))"

text \<open>\<open>Drop\<close>: the call that removes the mapping, if the service is still found.\<close>

definition drop_mapping :: "upnp_mapping \<Rightarrow> router_call list" where
  "drop_mapping m =
     (if um_service m \<in> set (dv_services (um_device m)) then
        [(um_device m, um_service m, ''DeletePortMapping'', delete_mapping_args (um_external_port m))]
      else [])"

section \<open>Lemmas\<close>

lemma valid_ips_usable: "ip \<in> set (valid_ips lower ifaces) \<Longrightarrow> usable_ip ip"
  by (auto simp: valid_ips_def)

lemma usable_not_excluded: "usable_ip ip \<Longrightarrow> is_v4 ip \<and> \<not> excluded_range ip"
  by (cases ip) auto

lemma sort_key_hd:
  assumes "sort_key f xs = y # ys" and "x \<in> set xs"
  shows "f y \<le> f x"
proof -
  have "sorted (map f (y # ys))" using sorted_sort_key [of f xs] by (simp only: assms(1))
  moreover have "x \<in> set (y # ys)" using assms by (metis set_sort)
  ultimately show ?thesis by auto
qed

text \<open>
  the address the router is asked to forward to is an IPv4 address outside the ranges of
  virtual networks the code excludes; without a route to the internet it is an address of a
  real interface, and one from 192.168 if there is any, else one from 10 if there is any.
\<close>

theorem local_ip_choice:
  assumes "get_local_ip lower ifaces route = Inr ip"
  shows "is_v4 ip \<and> \<not> excluded_range ip
    \<and> (route = None \<longrightarrow> (\<exists>is. ifaces = Some is \<and> ip \<in> set (valid_ips lower is)
         \<and> (\<forall>q \<in> set (valid_ips lower is). ip_rank ip \<le> ip_rank q)))"
proof -
  let ?valid = "case ifaces of Some is \<Rightarrow> valid_ips lower is | None \<Rightarrow> []"
  have u: "is_v4 q \<and> \<not> excluded_range q" if "q \<in> set ?valid" for q
    using that valid_ips_usable usable_not_excluded by (auto split: option.splits)
  have s: "ip \<in> set ?valid \<and> (\<forall>q \<in> set ?valid. ip_rank ip \<le> ip_rank q)"
    if "sort_key ip_rank ?valid = ip # rest" for rest
    using that sort_key_hd [OF that] by (metis list.set_intros(1) set_sort)
  show ?thesis
    using assms u s
    by (auto simp: get_local_ip_def Let_def split: option.splits list.splits if_splits)
qed

theorem local_ip_choice_witness:
  "\<exists>ip. get_local_ip to_ascii_lowercase
      (Some [\<lparr>nif_name = ''vEthernet (WSL)'', nif_ip = IpV4 192 168 9 1\<rparr>,
             \<lparr>nif_name = ''Ethernet'', nif_ip = IpV4 10 0 0 5\<rparr>,
             \<lparr>nif_name = ''Wi-Fi'', nif_ip = IpV4 192 168 1 7\<rparr>]) None = Inr ip \<and> is_v4 ip \<and> ip = IpV4 192 168 1 7"
proof -
  let ?is = "[\<lparr>nif_name = ''vEthernet (WSL)'', nif_ip = IpV4 192 168 9 1\<rparr>,
             \<lparr>nif_name = ''Ethernet'', nif_ip = IpV4 10 0 0 5\<rparr>,
             \<lparr>nif_name = ''Wi-Fi'', nif_ip = IpV4 192 168 1 7\<rparr>]"
  have "valid_ips to_ascii_lowercase ?is = [IpV4 10 0 0 5, IpV4 192 168 1 7]"
    by code_simp
  then have g: "get_local_ip to_ascii_lowercase (Some ?is) None = Inr (IpV4 192 168 1 7)"
    by (simp add: get_local_ip_def)
  from local_ip_choice [OF g] g show ?thesis by simp
qed

definition gateways :: "(string + device) list \<Rightarrow> (device \<times> wan_service) list" where
  "gateways devices = List.map_filter (\<lambda>r. case r of
       Inr d \<Rightarrow> map_option (Pair d) (gateway_service d) | Inl _ \<Rightarrow> None) devices"

lemma gateways_simps [simp]:
  "gateways [] = []" "gateways (Inl e # ds) = gateways ds"
  "gateways (Inr d # ds) = (case gateway_service d of Some s \<Rightarrow> [(d, s)] | None \<Rightarrow> []) @ gateways ds"
  by (simp_all add: gateways_def map_filter_simps split: option.split)

lemma try_devices_spec:
  "try_devices port args devices errors n = (r, calls) \<Longrightarrow>
     (case r of
        Inr m \<Rightarrow> um_external_port m = port \<and> (\<exists>before after. gateways devices = before @ (um_device m, um_service m) # after
            \<and> (\<forall>g \<in> set before. isl (dv_reply (fst g))) \<and> dv_reply (um_device m) = Inr ()
            \<and> map (\<lambda>(d, s, _). (d, s)) calls = before @ [(um_device m, um_service m)])
      | Inl e \<Rightarrow> (\<forall>g \<in> set (gateways devices). isl (dv_reply (fst g)))
            \<and> map (\<lambda>(d, s, _). (d, s)) calls = gateways devices)
     \<and> (\<forall>c \<in> set calls. snd (snd c) = (''AddPortMapping'', args))"
proof (induction port args devices errors n arbitrary: r calls rule: try_devices.induct)
  case (3 port args d devices errors n)
  show ?case
  proof (cases "gateway_service d")
    case None
    then show ?thesis using 3 by (cases r) simp_all
  next
    case (Some urn)
    show ?thesis
    proof (cases "dv_reply d")
      case (Inr u)
      then show ?thesis
        using Some "3.prems" by (auto intro!: exI [of _ "[]"])
    next
      case (Inl e)
      obtain r' calls' where rec: "try_devices port args devices
          (errors @ [CHR 0x27 # dv_name d @ [CHR 0x27] @ '' error: '' @ e]) (Suc n) = (r', calls')"
        by fastforce
      then have rc: "r = r'" "calls = (d, urn, ''AddPortMapping'', args) # calls'"
        using Some Inl "3.prems" by simp_all
      have IH: "(case r' of
        Inr m \<Rightarrow> um_external_port m = port \<and> (\<exists>before after. gateways devices = before @ (um_device m, um_service m) # after
            \<and> (\<forall>g \<in> set before. isl (dv_reply (fst g))) \<and> dv_reply (um_device m) = Inr ()
            \<and> map (\<lambda>(d, s, _). (d, s)) calls' = before @ [(um_device m, um_service m)])
      | Inl e \<Rightarrow> (\<forall>g \<in> set (gateways devices). isl (dv_reply (fst g)))
            \<and> map (\<lambda>(d, s, _). (d, s)) calls' = gateways devices)
        \<and> (\<forall>c \<in> set calls'. snd (snd c) = (''AddPortMapping'', args))"
        by (rule "3.IH" (2) [OF Some refl Inl]) (use rec in simp)
      show ?thesis
      proof (cases r')
        case (Inl e')
        then show ?thesis using IH Some \<open>dv_reply d = Inl e\<close> by (simp add: rc)
      next
        case (Inr m)
        then obtain before after where
            "gateways devices = before @ (um_device m, um_service m) # after"
            "\<forall>g \<in> set before. isl (dv_reply (fst g))" "dv_reply (um_device m) = Inr ()"
            "map (\<lambda>(d, s, _). (d, s)) calls' = before @ [(um_device m, um_service m)]"
          using IH by auto
        then show ?thesis
          using IH Inr Some \<open>dv_reply d = Inl e\<close>
          by (simp add: rc)
      qed
    qed
  qed
qed (auto split: sum.splits)

lemma gateways_concat:
  "gateways devices = concat (map (\<lambda>answer. case answer of
       Inr d \<Rightarrow> if WanIpConnection \<in> set (dv_services d) then [(d, WanIpConnection)]
               else if WanPppConnection \<in> set (dv_services d) then [(d, WanPppConnection)] else []
     | Inl _ \<Rightarrow> []) devices)"
proof (induction devices)
  case (Cons r devices)
  then show ?case by (cases r) (simp_all add: gateway_service_def)
qed simp

text \<open>
  C37: the mapping is made on the first gateway that accepts it. The gateways are the devices
  that have a WAN connection service, asked by the IP connection service if they have it
  and by the PPP one only otherwise; the gateways before it were asked and refused, those
  behind it are not asked; without one that accepts, every gateway was asked exactly once. Each
  request asks for the same port, the local address and the description. And a mapping
  that was made is taken back by exactly one call, on the same service of the same gateway
  and for the same port, when its handle is dropped.
\<close>

theorem mapping_on_first_acceptor:
  assumes "attempt_map port description (Inr ip) (Inr devices) = (r, calls)"
    and "gs = concat (map (\<lambda>answer. case answer of
       Inr d \<Rightarrow> if WanIpConnection \<in> set (dv_services d) then [(d, WanIpConnection)]
               else if WanPppConnection \<in> set (dv_services d) then [(d, WanPppConnection)] else []
     | Inl _ \<Rightarrow> []) devices)"
  shows "(case r of
      Inr m \<Rightarrow> (\<exists>before after. gs = before @ (um_device m, um_service m) # after
          \<and> (\<forall>g \<in> set before. isl (dv_reply (fst g))) \<and> dv_reply (um_device m) = Inr ()
          \<and> map (\<lambda>(d, s, _). (d, s)) calls = before @ [(um_device m, um_service m)])
        \<and> drop_mapping m = [(um_device m, um_service m, ''DeletePortMapping'', delete_mapping_args port)]
    | Inl e \<Rightarrow> (\<forall>g \<in> set gs. isl (dv_reply (fst g)))
        \<and> map (\<lambda>(d, s, _). (d, s)) calls = gs)
    \<and> (\<forall>c \<in> set calls. snd (snd c) = (''AddPortMapping'', add_mapping_args port ip description))"
proof -
  have run: "try_devices port (add_mapping_args port ip description) devices [] 0 = (r, calls)"
    using assms(1) by (simp add: attempt_map_def)
  have gs: "gs = gateways devices" using assms(2) by (simp only: gateways_concat)
  have "s \<in> set (dv_services d)" if "(d, s) \<in> set gs" for d s
    using that unfolding gs
    by (auto simp: gateways_def List.map_filter_def gateway_service_def split: sum.splits if_splits)
  then show ?thesis
    using try_devices_spec [OF run] unfolding gs by (auto simp: drop_mapping_def split: sum.splits)
qed

theorem mapping_on_first_acceptor_witness:
  "\<exists>m calls. attempt_map 25565 ''P2P'' (Inr (IpV4 192 168 1 7))
      (Inr [Inl ''bad answer'', Inr \<lparr>dv_name = ''TV'', dv_services = [], dv_reply = Inr ()\<rparr>,
            Inr \<lparr>dv_name = ''A'', dv_services = [WanPppConnection], dv_reply = Inl ''718''\<rparr>,
            Inr \<lparr>dv_name = ''B'', dv_services = [WanPppConnection, WanIpConnection], dv_reply = Inr ()\<rparr>])
      = (Inr m, calls) \<and> length calls = 2 \<and> length (drop_mapping m) = 1"
proof -
  let ?ds = "[Inl ''bad answer'', Inr \<lparr>dv_name = ''TV'', dv_services = [], dv_reply = Inr ()\<rparr>,
            Inr \<lparr>dv_name = ''A'', dv_services = [WanPppConnection], dv_reply = Inl ''718''\<rparr>,
            Inr \<lparr>dv_name = ''B'', dv_services = [WanPppConnection, WanIpConnection], dv_reply = Inr ()\<rparr>]"
  obtain m calls where run: "attempt_map 25565 ''P2P'' (Inr (IpV4 192 168 1 7)) (Inr ?ds) = (Inr m, calls)"
      and "length calls = 2"
    by (simp add: attempt_map_def gateway_service_def)
  then show ?thesis using mapping_on_first_acceptor [OF run refl] by auto
qed

section \<open>The caller\<close>

text \<open>
  \<open>start_upnp_mapping\<close>: the two lines on the interfaces, the attempt, and the line on its result;
  the handle is kept or dropped by the task that called it.
\<close>

definition start_upnp_mapping ::
  "u16 \<Rightarrow> interface list option \<Rightarrow> (anyhow + upnp_mapping) \<times> router_call list \<Rightarrow>
     upnp_mapping option \<times> msg list" where
  "start_upnp_mapping local_port ifaces attempt =
     (let diagnostics = Lit ''==== NETWORK INTERFACES (DIAGNOSTICS) ==== '' #
            (case ifaces of
               None \<Rightarrow> []
             | Some is \<Rightarrow> [Fmt ''interfaces found: {}'' [Lit (join '', ''
                 (map (\<lambda>i. show_ip (nif_ip i) @ '' ('' @ nif_name i @ '')'')
                   (filter (\<lambda>i. case nif_ip i of IpV4 a b c d \<Rightarrow> a \<noteq> 127 | IpV6 w \<Rightarrow> w \<noteq> 1) is)))]])
      in case fst attempt of
           Inr mapping \<Rightarrow> (Some mapping, diagnostics @ [Fmt ''UPnP: port {} was mapped.'' [Lit (show_word local_port)]])
         | Inl e \<Rightarrow> (None, diagnostics @ [Fmt ''UPnP mapping failed: {e:#}'' [Alt (map Lit e)]]))"

end
