(* ===== verification/Tunnel.thy ===== *)
theory Tunnel
  imports Net_Addr Rust_Text
begin

text \<open>
  The reverse tunnel (\<open>tunnel.rs\<close>): the control connection to the tunnel server, the
  connections it announces, the retries to the local game and the tolerant copy between two
  streams. Connecting, sending and receiving are outcomes given as arguments: the framing of
  the control connection is the codec's of \<open>tokio_util\<close>, whose frames arrive as arguments, and
  the JSON coding serde's, a parameter. Texts the source writes in Russian are rendered in English.
\<close>

section \<open>Configuration and endpoint\<close>

definition DEFAULT_BORE_HOST :: string where
  "DEFAULT_BORE_HOST = ''bore.pub''"

definition DEFAULT_BORE_CONTROL_PORT :: u16 where
  "DEFAULT_BORE_CONTROL_PORT = 7835"

definition LOCAL_TARGET_RETRY_ATTEMPTS :: nat where
  "LOCAL_TARGET_RETRY_ATTEMPTS = 5"

record reverse_tunnel_config =
  rc_server_host :: string
  rc_control_port :: u16
  rc_requested_remote_port :: u16
  rc_local_host :: string
  rc_local_port :: u16

definition bore_pub :: "u16 \<Rightarrow> reverse_tunnel_config" where
  "bore_pub local_port =
     \<lparr>rc_server_host = DEFAULT_BORE_HOST, rc_control_port = DEFAULT_BORE_CONTROL_PORT,
      rc_requested_remote_port = 0, rc_local_host = ''127.0.0.1'', rc_local_port = local_port\<rparr>"

record tunnel_endpoint =
  te_public_host :: string
  te_public_port :: u16

definition as_socket_label :: "tunnel_endpoint \<Rightarrow> string" where
  "as_socket_label e = te_public_host e @ '':'' @ show_word (te_public_port e)"

definition is_ipv4_text :: "string \<Rightarrow> bool" where
  "is_ipv4_text s \<longleftrightarrow> length s \<le> 15 \<and> (case read_ipv4 s of Some (_, rest) \<Rightarrow> rest = [] | None \<Rightarrow> False)"

definition is_ipv6_text :: "string \<Rightarrow> bool" where
  "is_ipv6_text s \<longleftrightarrow> (case read_ipv6 s of Some (_, rest) \<Rightarrow> rest = [] | None \<Rightarrow> False)"

definition as_multiaddr :: "tunnel_endpoint \<Rightarrow> string" where
  "as_multiaddr e =
     (if is_ipv4_text (te_public_host e) then ''/ip4/''
      else if is_ipv6_text (te_public_host e) then ''/ip6/'' else ''/dns4/'')
     @ te_public_host e @ ''/tcp/'' @ show_word (te_public_port e)"

section \<open>The control connection\<close>

datatype client_message = ClientHello u16 | ClientAccept string

datatype server_message = ServerHello u16 | Heartbeat | ServerConnection string | ServerError string

definition show_message :: "server_message \<Rightarrow> string" where
  "show_message m =
     (case m of ServerHello p \<Rightarrow> ''Hello('' @ show_word p @ '')''
      | Heartbeat \<Rightarrow> ''Heartbeat''
      | ServerConnection i \<Rightarrow> ''Connection('' @ i @ '')''
      | ServerError e \<Rightarrow> ''Error('' @ e @ '')'')"

text \<open>
  \<open>Delimited\<close>: the next frame of the codec is none at the end of the stream, and an error when it
  is longer than the codec allows or the stream breaks.
\<close>

definition delimited_recv :: "(bytes \<Rightarrow> anyhow + 'm) \<Rightarrow> (anyhow + bytes) option \<Rightarrow> anyhow + 'm option" where
  "delimited_recv from_slice frame =
     (case frame of
        Some f \<Rightarrow>
          and_then (with_context ''error in a frame of the reverse tunnel protocol'' f) (\<lambda>bytes.
            map_sum id Some (with_context ''could not parse the JSON control frame'' (from_slice bytes)))
      | None \<Rightarrow> Inr None)"

definition delimited_recv_timeout ::
  "(bytes \<Rightarrow> anyhow + 'm) \<Rightarrow> (anyhow + bytes) option option \<Rightarrow> anyhow + 'm option" where
  "delimited_recv_timeout from_slice arrived =
     with_timeout ''timed out waiting for a control frame'' (map_option (delimited_recv from_slice) arrived)"

definition delimited_send ::
  "('m \<Rightarrow> anyhow + string) \<Rightarrow> (string \<Rightarrow> anyhow + unit) \<Rightarrow> 'm \<Rightarrow> anyhow + unit" where
  "delimited_send to_string put msg =
     and_then (to_string msg) (\<lambda>text. with_context ''could not send the JSON control frame'' (put text))"

definition connect_with_timeout ::
  "string \<Rightarrow> u16 \<Rightarrow> (anyhow + unit) option \<Rightarrow> anyhow + unit \<Rightarrow> anyhow + unit" where
  "connect_with_timeout host port outcome configured =
     and_then (with_timeout ''TCP connect timed out''
         (map_option (with_context (''could not connect to '' @ host @ '':'' @ show_word port)) outcome))
       (\<lambda>_. with_context (''could not configure the TCP stream for '' @ host @ '':'' @ show_word port) configured)"

text \<open>
  \<open>start_reverse_tunnel\<close>: the Hello that is sent and the endpoint its answer gives; \<open>answer\<close> is
  none when five seconds pass.
\<close>

definition start_reverse_tunnel ::
  "(client_message \<Rightarrow> anyhow + string) \<Rightarrow> (bytes \<Rightarrow> anyhow + server_message) \<Rightarrow>
     reverse_tunnel_config \<Rightarrow> anyhow + unit \<Rightarrow> (string \<Rightarrow> anyhow + unit) \<Rightarrow>
     (anyhow + bytes) option option \<Rightarrow> anyhow + tunnel_endpoint" where
  "start_reverse_tunnel to_string from_slice config connected put answer =
     and_then connected (\<lambda>_.
     and_then (with_context ''could not send Hello to the reverse tunnel server''
                (delimited_send to_string put (ClientHello (rc_requested_remote_port config)))) (\<lambda>_.
     and_then (delimited_recv_timeout from_slice answer) (\<lambda>m.
       case m of
         Some (ServerHello port) \<Rightarrow> Inr \<lparr>te_public_host = rc_server_host config, te_public_port = port\<rparr>
       | Some (ServerError message) \<Rightarrow> Inl [''reverse tunnel server error: '' @ message]
       | Some other \<Rightarrow> Inl [''unexpected answer of the reverse tunnel server: '' @ show_message other]
       | None \<Rightarrow> Inl [''the reverse tunnel server closed the control connection''])))"

text \<open>
  The control loop over what its \<open>select!\<close> yields: the ids whose connection tasks are spawned,
  and how it ended, none while it still runs.
\<close>

datatype control_event = Cancelled | ControlFrame "anyhow + server_message option"

text \<open>One turn of the \<open>select!\<close> with a frame of the codec.\<close>

definition frame_event ::
  "(bytes \<Rightarrow> anyhow + server_message) \<Rightarrow> (anyhow + bytes) option \<Rightarrow> control_event" where
  "frame_event from_slice frame = ControlFrame (delimited_recv from_slice frame)"

fun run_control_loop :: "control_event list \<Rightarrow> string list \<times> (anyhow + unit) option" where
  "run_control_loop [] = ([], None)"
| "run_control_loop (Cancelled # events) = ([], Some (Inr ()))"
| "run_control_loop (ControlFrame frame # events) =
     (case frame of
        Inl e \<Rightarrow> ([], Some (Inl e))
      | Inr None \<Rightarrow> ([], Some (Inr ()))
      | Inr (Some (ServerError message)) \<Rightarrow> ([], Some (Inl [''reverse tunnel server error: '' @ message]))
      | Inr (Some (ServerConnection i)) \<Rightarrow>
          let (spawned, result) = run_control_loop events in (i # spawned, result)
      | Inr (Some _) \<Rightarrow> run_control_loop events)"

section \<open>One connection\<close>

definition connect_local_target_with_retry :: "string \<Rightarrow> u16 \<Rightarrow> (anyhow + unit) list \<Rightarrow> anyhow + unit" where
  "connect_local_target_with_retry host port attempts =
     (case first_ok None (take LOCAL_TARGET_RETRY_ATTEMPTS attempts) of
        Inr x \<Rightarrow> Inr x
      | Inl (Some e) \<Rightarrow> Inl e
      | Inl None \<Rightarrow> Inl [''the local target '' @ host @ '':'' @ show_word port @ '' is not available''])"

text \<open>
  The copy between two streams. An I/O error is its kind; the kinds of a closed connection
  end a direction like the end of the stream.
\<close>

datatype io_error = ConnectionReset | BrokenPipe | UnexpectedEof | ConnectionAborted | OtherIo string

definition is_connection_close :: "io_error \<Rightarrow> bool" where
  "is_connection_close e \<longleftrightarrow> (case e of OtherIo _ \<Rightarrow> False | _ \<Rightarrow> True)"

record direction =
  dr_written :: "bytes list"
  dr_stats :: "nat list" \<comment> \<open>the byte counts reported to the interface\<close>
  dr_shutdown :: bool
  dr_result :: "(io_error + unit) option" \<comment> \<open>none while it runs\<close>

definition ended :: "io_error + unit \<Rightarrow> direction" where
  "ended r = \<lparr>dr_written = [], dr_stats = [], dr_shutdown = (r = Inr ()), dr_result = Some r\<rparr>"

definition end_on :: "io_error \<Rightarrow> direction" where
  "end_on e = ended (if is_connection_close e then Inr () else Inl e)"

text \<open>A round is what \<open>read\<close> returns and, for data, what writing it to the other side returns.\<close>

fun copy_direction :: "((io_error + bytes) \<times> (io_error + unit)) list \<Rightarrow> direction" where
  "copy_direction [] = \<lparr>dr_written = [], dr_stats = [], dr_shutdown = False, dr_result = None\<rparr>"
| "copy_direction ((r, w) # rounds) =
     (case r of
        Inl e \<Rightarrow> end_on e
      | Inr chunk \<Rightarrow>
          if chunk = [] then ended (Inr ())
          else case w of
              Inl e \<Rightarrow> (end_on e)\<lparr>dr_stats := [length chunk]\<rparr>
            | Inr _ \<Rightarrow>
                let d = copy_direction rounds
                in d\<lparr>dr_written := chunk # dr_written d, dr_stats := length chunk # dr_stats d\<rparr>)"

text \<open>\<open>try_join!\<close>: the first error ends both directions, success needs both.\<close>

definition copy_bidirectional_tolerant :: "direction \<Rightarrow> direction \<Rightarrow> (anyhow + unit) option" where
  "copy_bidirectional_tolerant left_to_right right_to_left =
     (let err = (\<lambda>e. Inl [case e of OtherIo m \<Rightarrow> m | _ \<Rightarrow> ''connection closed'']) in
      case (dr_result left_to_right, dr_result right_to_left) of
        (Some (Inl e), _) \<Rightarrow> Some (err e)
      | (_, Some (Inl e)) \<Rightarrow> Some (err e)
      | (Some (Inr _), Some (Inr _)) \<Rightarrow> Some (Inr ())
      | _ \<Rightarrow> None)"

text \<open>
  \<open>accept_reverse_connection\<close> up to the copy: the octets the codec already buffered are written
  to the local side before anything else.
\<close>

definition accept_reverse_connection ::
  "reverse_tunnel_config \<Rightarrow> string \<Rightarrow> anyhow + unit \<Rightarrow> (client_message \<Rightarrow> anyhow + string) \<Rightarrow>
     (string \<Rightarrow> anyhow + unit) \<Rightarrow> (anyhow + unit) list \<Rightarrow> anyhow + unit \<Rightarrow> bytes \<Rightarrow> anyhow + unit \<Rightarrow> anyhow + bytes list" where
  "accept_reverse_connection config i connected to_string put attempts configured read_buf write_buffered =
     (let target = rc_local_host config @ '':'' @ show_word (rc_local_port config)
      in and_then connected (\<lambda>_.
         and_then (with_context ''could not send Accept to the reverse tunnel server''
                    (delimited_send to_string put (ClientAccept i))) (\<lambda>_.
         and_then (with_context (''could not connect to the local target '' @ target)
                    (connect_local_target_with_retry (rc_local_host config) (rc_local_port config) attempts)) (\<lambda>_.
         and_then (with_context (''could not configure the local target '' @ target) configured) (\<lambda>_.
           if read_buf = [] then Inr []
           else map_sum id (\<lambda>_. [read_buf])
                  (with_context ''could not send buffered bytes to the local target'' write_buffered))))))"

text \<open>\<open>bridge_tcp_to_remote\<close>: the remote stream is configured twice, by its connect and once more.\<close>

definition bridge_tcp_to_remote ::
  "string \<Rightarrow> u16 \<Rightarrow> anyhow + unit \<Rightarrow> (anyhow + unit) option \<Rightarrow> anyhow + unit \<Rightarrow> anyhow + unit \<Rightarrow>
     anyhow + unit \<Rightarrow> anyhow + unit" where
  "bridge_tcp_to_remote host port local_configured connected configured configured_again copied =
     (let remote = host @ '':'' @ show_word port
      in and_then (with_context (''could not configure the local TCP stream for '' @ remote) local_configured) (\<lambda>_.
         and_then (with_context (''could not connect to the reverse tunnel endpoint '' @ remote)
                    (connect_with_timeout host port connected configured)) (\<lambda>_.
         and_then (with_context (''could not configure the reverse tunnel stream for '' @ remote) configured_again) (\<lambda>_.
           with_context ''copy_bidirectional through the reverse tunnel failed'' copied))))"

section \<open>Lemmas\<close>

lemma copy_result: "dr_shutdown (copy_direction rounds) \<longleftrightarrow> dr_result (copy_direction rounds) = Some (Inr ())"
  by (induction rounds rule: copy_direction.induct)
    (auto simp: ended_def end_on_def Let_def split: sum.splits)

text \<open>A round that carries its chunk over.\<close>

definition carried :: "(io_error + bytes) \<times> (io_error + unit) \<Rightarrow> bool" where
  "carried = (\<lambda>(r, w). \<not> isl r \<and> projr r \<noteq> [] \<and> \<not> isl w)"

lemma carried_simps [simp]:
  "\<not> carried (Inl e, w)" "carried (Inr c, Inr u) \<longleftrightarrow> c \<noteq> []" "\<not> carried (Inr c, Inl e)"
  by (simp_all add: carried_def)

lemma copy_written: "dr_written (copy_direction rounds) = map (projr \<circ> fst) (takeWhile carried rounds)"
  by (induction rounds rule: copy_direction.induct)
    (auto simp: ended_def end_on_def Let_def split: sum.splits)

lemma copy_outcome:
  "dr_result (copy_direction rounds) =
     (case dropWhile carried rounds of
        [] \<Rightarrow> None
      | (Inl e, _) # _ \<Rightarrow> Some (if is_connection_close e then Inr () else Inl e)
      | (Inr c, w) # _ \<Rightarrow> (if c = [] then Some (Inr ()) else case w of
            Inl e \<Rightarrow> Some (if is_connection_close e then Inr () else Inl e) | Inr _ \<Rightarrow> None))"
  by (induction rounds rule: copy_direction.induct)
    (auto simp: ended_def end_on_def Let_def split: sum.splits)

text \<open>
  one direction of a tunnelled connection carries, in order and once each, exactly the
  chunks read before the first end of stream or error; the other side is shut down exactly
  when the direction ends well, and it ends well at the end of the stream and on each of the
  four kinds of a closed connection, but on no other error.
\<close>

theorem tunnel_copy:
  "dr_written (copy_direction rounds) = map (projr \<circ> fst) (takeWhile carried rounds)
   \<and> (dr_shutdown (copy_direction rounds) = (dr_result (copy_direction rounds) = Some (Inr ())))
   \<and> dr_result (copy_direction rounds) =
       (case dropWhile carried rounds of
          [] \<Rightarrow> None
        | (Inl e, _) # _ \<Rightarrow> Some (if is_connection_close e then Inr () else Inl e)
        | (Inr c, w) # _ \<Rightarrow> (if c = [] then Some (Inr ()) else case w of
              Inl e \<Rightarrow> Some (if is_connection_close e then Inr () else Inl e) | Inr _ \<Rightarrow> None))"
  using copy_written copy_result copy_outcome by blast

text \<open>A frame after which the control loop goes on, and the connection it announces.\<close>

definition goes_on :: "control_event \<Rightarrow> bool" where
  "goes_on ev = (case ev of
     ControlFrame (Inr (Some m)) \<Rightarrow> (case m of ServerError _ \<Rightarrow> False | _ \<Rightarrow> True) | _ \<Rightarrow> False)"

definition announced :: "control_event \<Rightarrow> string list" where
  "announced ev = (case ev of ControlFrame (Inr (Some (ServerConnection i))) \<Rightarrow> [i] | _ \<Rightarrow> [])"

text \<open>
  the control loop of the tunnel spawns a task for each connection the server announces, in
  order, until it is cancelled, the connection ends or breaks, or the server reports an
  error; a heartbeat or another Hello changes nothing, and only a broken connection and an
  error of the server are errors of the tunnel.
\<close>

theorem tunnel_control:
  "run_control_loop events =
     (concat (map announced (takeWhile goes_on events)),
      case dropWhile goes_on events of
        [] \<Rightarrow> None
      | ControlFrame (Inl e) # _ \<Rightarrow> Some (Inl e)
      | ControlFrame (Inr (Some (ServerError m))) # _ \<Rightarrow> Some (Inl [''reverse tunnel server error: '' @ m])
      | _ # _ \<Rightarrow> Some (Inr ()))"
  by (induction events rule: run_control_loop.induct)
    (auto simp: goes_on_def announced_def split: sum.splits option.splits server_message.splits
      control_event.splits)

lemma delimited_recv_Inr:
  "delimited_recv from_slice frame = Inr m \<longleftrightarrow>
     (case frame of None \<Rightarrow> m = None
      | Some f \<Rightarrow> \<exists>b x. f = Inr b \<and> from_slice b = Inr x \<and> m = Some x)"
proof -
  have "map_sum id Some r = Inr m \<longleftrightarrow> (\<exists>x. r = Inr x \<and> m = Some x)" for r :: "anyhow + 'a"
    by (cases r) auto
  then show ?thesis by (auto simp: delimited_recv_def and_then_eq_Inr split: option.split)
qed

lemma delimited_send_Inr:
  "delimited_send to_string put msg = Inr () \<longleftrightarrow> (\<exists>text. to_string msg = Inr text \<and> put text = Inr ())"
  by (auto simp: delimited_send_def and_then_eq_Inr)

lemma timeout_recv_Inr:
  "delimited_recv_timeout from_slice answer = Inr m \<longleftrightarrow>
     (\<exists>frame. answer = Some frame \<and> delimited_recv from_slice frame = Inr m)"
  by (auto simp: delimited_recv_timeout_def with_timeout_def split: option.split)

text \<open>
  a reverse tunnel starts exactly when the server was reached, the Hello was sent, and a frame
  that arrives in time parses as the server's Hello; its endpoint is then the server's host
  with the port of that answer.
\<close>

theorem tunnel_starts:
  "start_reverse_tunnel to_string from_slice config connected put answer = Inr e \<longleftrightarrow>
     connected = Inr ()
   \<and> (\<exists>text. to_string (ClientHello (rc_requested_remote_port config)) = Inr text \<and> put text = Inr ())
   \<and> (\<exists>frame. answer = Some (Some (Inr frame)) \<and> from_slice frame = Inr (ServerHello (te_public_port e)))
   \<and> te_public_host e = rc_server_host config"
proof -
  have hello: "(case m of
         Some (ServerHello port) \<Rightarrow> Inr \<lparr>te_public_host = rc_server_host config, te_public_port = port\<rparr>
       | Some (ServerError message) \<Rightarrow> Inl [''reverse tunnel server error: '' @ message]
       | Some other \<Rightarrow> Inl [''unexpected answer of the reverse tunnel server: '' @ show_message other]
       | None \<Rightarrow> Inl [''the reverse tunnel server closed the control connection'']) = Inr e \<longleftrightarrow>
      m = Some (ServerHello (te_public_port e)) \<and> te_public_host e = rc_server_host config" for m
    by (cases e) (auto split: option.splits server_message.splits)
  show ?thesis
    unfolding start_reverse_tunnel_def and_then_eq_Inr hello with_context_eq_Inr timeout_recv_Inr
    by (auto simp: delimited_send_Inr delimited_recv_Inr split: option.splits)
qed

text \<open>
  the connection to the local game is made if one of the first five attempts succeeds, at the
  first of them; otherwise the error is that of the last attempt.
\<close>

theorem local_target_retries:
  assumes "5 \<le> length attempts"
  shows "connect_local_target_with_retry host port attempts =
    (if \<exists>i < 5. attempts ! i = Inr () then Inr () else attempts ! 4)"
proof (cases "first_ok None (take 5 attempts)")
  case (Inr u)
  have t: "take 5 attempts ! i = attempts ! i" if "i < 5" for i using that by simp
  from Inr obtain before after where "take 5 attempts = before @ Inr () # after"
    by (auto simp: first_ok.run_success)
  then have "\<exists>i < 5. attempts ! i = Inr ()"
    using assms t by (intro exI [of _ "length before"]) (metis add_Suc_right length_append length_take list.size(4) less_add_Suc1 min.absorb2 nth_append_length)
  then show ?thesis
    using Inr by (simp add: connect_local_target_with_retry_def LOCAL_TARGET_RETRY_ATTEMPTS_def)
next
  case (Inl f)
  have ne: "take 5 attempts \<noteq> []" using assms by auto
  have l: "last (take 5 attempts) = attempts ! 4" "take 5 attempts \<noteq> []"
    using last_conv_nth [OF ne] ne assms by simp_all
  have "\<forall>a \<in> set (take 5 attempts). isl a" "f = Some (projl (attempts ! 4))"
    using Inl l by (simp_all add: first_ok.run_failure)
  moreover from this(1) have "isl (attempts ! i)" if "i < 5" for i
    using assms that nth_mem [of i "take 5 attempts"] by auto
  ultimately show ?thesis
    using Inl by (force simp: connect_local_target_with_retry_def LOCAL_TARGET_RETRY_ATTEMPTS_def)
qed

theorem local_target_retries_witness:
  "connect_local_target_with_retry ''127.0.0.1'' 25565
     [Inl [''refused''], Inl [''refused''], Inr (), Inl [], Inl []] = Inr ()"
  using local_target_retries [of "[Inl [''refused''], Inl [''refused''], Inr (), Inl [], Inl []]"]
  by (simp add: numeral_eq_Suc Ex_less_Suc2)

end
