(* ===== verification/Reports.thy ===== *)
theory Reports
  imports Models Game_Probe
begin

text \<open>
  The remaining types of \<open>models.rs\<close>: reports the interface asks for and nothing else in the
  repository reads. They are declared for completeness, with the values their derived
  \<open>Default\<close> gives.
\<close>

record swarm_bootstrap =
  sb_peer_id :: string
  sb_listen_addrs :: "string list"
  sb_relay_addrs :: "string list"
  sb_nat_status :: string
  sb_local_game_port :: "u16 option"

record geyser_runtime_info =
  gr_enabled :: bool
  gr_running :: bool
  gr_java_path :: "string option"
  gr_jar_path :: "string option"
  gr_runtime_dir :: "string option"
  gr_config_path :: "string option"
  gr_log_path :: "string option"
  gr_bedrock_port :: "u16 option"
  gr_bedrock_public_endpoint :: "string option"
  gr_firewall_rule_name :: "string option"
  gr_note :: "string option"
  gr_last_error :: "string option"

record diagnostic_snapshot =
  ds_exported_at :: string
  ds_role :: session_mode
  ds_status :: network_status
  ds_preflight :: "preflight_report option"
  ds_test_server :: "test_server_info option"
  ds_geyser :: "geyser_runtime_info option"

record app_info =
  ap_version :: string
  ap_product_name :: string

record update_check_result =
  uc_current_version :: string
  uc_latest_version :: "string option"
  uc_available :: bool
  uc_release_url :: "string option"
  uc_download_url :: "string option"

record install_update_result =
  iu_message :: string

text \<open>\<open>DiagnosticSnapshot::default()\<close>: the role and status of an idle program.\<close>

definition default_snapshot :: diagnostic_snapshot where
  "default_snapshot = \<lparr>ds_exported_at = [], ds_role = ModeIdle, ds_status = default_status,
     ds_preflight = None, ds_test_server = None, ds_geyser = None\<rparr>"

definition default_geyser :: geyser_runtime_info where
  "default_geyser = \<lparr>gr_enabled = False, gr_running = False, gr_java_path = None, gr_jar_path = None,
     gr_runtime_dir = None, gr_config_path = None, gr_log_path = None, gr_bedrock_port = None,
     gr_bedrock_public_endpoint = None, gr_firewall_rule_name = None, gr_note = None,
     gr_last_error = None\<rparr>"

end
