(* ===== verification/Ui_Events.thy ===== *)
theory Ui_Events
  imports Manager_Flow Json Tunnel
begin

text \<open>
  Events for the user interface: the shim of \<open>tauri_shim.rs\<close>, the payloads of \<open>manager.rs\<close>,
  what the client's connect task reports, with the tasks of its connection, and what a
  tunnel's copy does. The queue of events is unbounded, as in the code.
\<close>

section \<open>The shim\<close>

record event =
  ev_name :: string
  ev_payload :: json

text \<open>
  \<open>emit\<close>: only a payload that cannot be converted is an error; that nobody receives any more
  (\<open>listening\<close> is false) is not.
\<close>

definition emit ::
  "('s \<Rightarrow> anyhow + json) \<Rightarrow> bool \<Rightarrow> string \<Rightarrow> 's \<Rightarrow> event list \<Rightarrow> (anyhow + unit) \<times> event list" where
  "emit to_value listening name payload queue =
     (case to_value payload of
        Inl e \<Rightarrow> (Inl e, queue)
      | Inr v \<Rightarrow> (Inr (), if listening then queue @ [\<lparr>ev_name = name, ev_payload = v\<rparr>] else queue))"

section \<open>Payloads\<close>

text \<open>The payload structs, with the JSON \<open>serde\<close> derives for them: field names in camel case.\<close>

record tunnel_established =
  tn_peer_addr :: string
  tn_minecraft_addr :: string
  tn_transport :: string

record tunnel_failed =
  tf_peer_addr :: string
  tf_reason :: string

definition established_value :: "tunnel_established \<Rightarrow> json" where
  "established_value e = JObject (obj_of
     [(''peerAddr'', JString (tn_peer_addr e)), (''minecraftAddr'', JString (tn_minecraft_addr e)),
      (''transport'', JString (tn_transport e))])"

definition failed_value :: "tunnel_failed \<Rightarrow> json" where
  "failed_value e = JObject (obj_of
     [(''peerAddr'', JString (tf_peer_addr e)), (''reason'', JString (tf_reason e))])"

definition established_event :: "string \<Rightarrow> sock_addr \<Rightarrow> u16 \<Rightarrow> event" where
  "established_event transport peer_addr local_port =
     \<lparr>ev_name = ''tunnel_established'', ev_payload = established_value
        \<lparr>tn_peer_addr = show_addr peer_addr, tn_minecraft_addr = minecraft_local_addr local_port,
         tn_transport = transport\<rparr>\<rparr>"

definition failed_event :: "sock_addr \<Rightarrow> event" where
  "failed_event peer_addr =
     \<lparr>ev_name = ''tunnel_failed'', ev_payload = failed_value
        \<lparr>tf_peer_addr = show_addr peer_addr,
         tf_reason = ''could not punch the NAT and set up the tunnel.''\<rparr>\<rparr>"

section \<open>The connect task of a client\<close>

text \<open>
  \<open>peer-health\<close>: what the ping loop of a direct connection reports at each tick, and what the
  flow reports for each round-trip time its relay client hands it.
\<close>

definition health_event :: "string \<Rightarrow> u64 \<Rightarrow> link_stats \<Rightarrow> event" where
  "health_event peer_id rtt stats =
     \<lparr>ev_name = ''peer-health'', ev_payload = JObject (obj_of
        [(''peerId'', JString peer_id), (''pingMs'', JPosInt rtt), (''packetLoss'', JPosInt (ls_lost stats)),
         (''sentPackets'', JPosInt (ls_sent stats)), (''bytesRx'', JPosInt (ls_rx stats)),
         (''bytesTx'', JPosInt (ls_tx stats))])\<rparr>"

definition relay_health_event :: "string \<Rightarrow> u64 \<Rightarrow> event" where
  "relay_health_event peer_id rtt =
     \<lparr>ev_name = ''peer-health'', ev_payload = JObject (obj_of
        [(''peerId'', JString peer_id), (''pingMs'', JPosInt rtt), (''bytesRx'', JPosInt 0),
         (''bytesTx'', JPosInt 0)])\<rparr>"

text \<open>
  The ping loop of the connected phase: it stops at the first tick that finds a close reason,
  and with the cancellation. The close loop and the proxy report nothing to the interface.
\<close>

fun link_events :: "string \<Rightarrow> link_event list \<Rightarrow> event list" where
  "link_events peer_id [] = []"
| "link_events peer_id (LkTick rtt stats closed # es) =
     health_event peer_id rtt stats # (if closed then [] else link_events peer_id es)"
| "link_events peer_id (LkProxy PxCancelled # es) = []"
| "link_events peer_id (_ # es) = link_events peer_id es"




section \<open>The statistics of a tunnel\<close>

definition stats_event :: "string \<Rightarrow> nat \<Rightarrow> event" where
  "stats_event key n =
     \<lparr>ev_name = ''network_stats'', ev_payload = JObject (obj_of [(key, JPosInt (word_of_nat n))])\<rparr>"

text \<open>The events of the two directions of \<open>copy_bidirectional_tolerant\<close>.\<close>

definition copy_events :: "string \<Rightarrow> direction \<Rightarrow> event list" where
  "copy_events key d = map (stats_event key) (dr_stats d)"

section \<open>Lemmas\<close>




lemma event_names [simp]:
  "ev_name (established_event t a p) = ''tunnel_established''" "ev_name (failed_event a) = ''tunnel_failed''"
  by (simp_all add: established_event_def failed_event_def)

lemma fatal_state [simp]: "ns_state (fatal_status m r e) = Error"
  by (simp add: fatal_status_def)

text \<open>What a copy reports beyond what it carried: a chunk it could not write.\<close>

lemma copy_stats_split:
  "\<exists>more. dr_stats (copy_direction rounds) = map length (dr_written (copy_direction rounds)) @ more
     \<and> (more = [] \<or> (\<exists>chunk e. (Inr chunk, Inl e) \<in> set rounds \<and> more = [length chunk]))"
proof (induction rounds rule: copy_direction.induct)
  case (2 r w rounds)
  show ?case
  proof (cases r)
    case (Inr chunk)
    then show ?thesis
      using 2 by (cases w) (auto simp: ended_def end_on_def Let_def)
  qed (auto simp: end_on_def ended_def)
qed simp

section \<open>Properties\<close>

definition is_health :: "event \<Rightarrow> bool" where
  "is_health v \<longleftrightarrow> ev_name v = ''peer-health''"

definition shown_ping :: "event \<Rightarrow> json option" where
  "shown_ping v = json_get ''pingMs'' (ev_payload v)"

lemma is_health_simps [simp]:
  "is_health (health_event i r x)" "is_health (relay_health_event i r)"
  "\<not> is_health (established_event t a p)" "\<not> is_health (failed_event a)"
  by (simp_all add: is_health_def health_event_def relay_health_event_def)

lemma shown_ping_simps [simp]:
  "shown_ping (health_event i r x) = Some (JPosInt r)" "shown_ping (relay_health_event i r) = Some (JPosInt r)"
  by (simp_all add: shown_ping_def health_event_def relay_health_event_def map_of_obj_of)

lemma link_events_health [simp]:
  "filter (\<lambda>v. \<not> is_health v) (link_events i es) = []" "filter is_health (link_events i es) = link_events i es"
  by (induction i es rule: link_events.induct) simp_all

lemma relay_events_health [simp]:
  "filter (\<lambda>v. \<not> is_health v) (map (relay_health_event i) gs) = []"
  "filter is_health (map (relay_health_event i) gs) = map (relay_health_event i) gs"
  by (induction gs) simp_all




text \<open>
  the statistics of a tunnel count every chunk carried, in order; beyond those they count at
  most one, which could not be written.
\<close>

theorem tunnel_statistics:
  "\<exists>more. copy_events key (copy_direction rounds) =
       map (\<lambda>chunk. stats_event key (length chunk)) (dr_written (copy_direction rounds)) @ more
     \<and> length more \<le> 1"
  using copy_stats_split [of rounds] by (force simp: copy_events_def)

text \<open>
  emitting fails only on the payload, and never because nobody listens; nothing that was
  queued before is lost or moved.
\<close>

theorem emit_outcome:
  "(isl (fst (emit to_value listening name p q)) \<longleftrightarrow> isl (to_value p))
   \<and> take (length q) (snd (emit to_value listening name p q)) = q
   \<and> length (snd (emit to_value listening name p q)) \<le> length q + 1"
  by (simp add: emit_def split: sum.split)

end
