(* ===== verification/Spec2Isabelle.thy ===== *)
theory Spec2Isabelle
  imports Wss_System Wss_Session Wss_Backpressure Manager_Props Manager_Tasks Lobby Stun Lan_Broadcast
    Cert Game_Probe Test_Server Upnp Tunnel Reports Ui_Events
begin

text \<open>
  A verification development for \<open>p2p_core\<close>, the network core of a Minecraft peer-to-peer
  connector (Rust, \<open>src/src\<close>). A host shares its local Minecraft server, clients reach it over
  a direct QUIC connection, over a relay on WebSockets, or over a public address of a third
  service; a lobby, LAN discovery and a few detectors for the local game surround that.

  \<^bold>\<open>The program and the theories.\<close>

  \<^item> \<open>P2P_Prelude\<close>, \<open>Rust_Str\<close>, \<open>Rust_Text\<close>, \<open>Net_Addr\<close>, \<open>Json\<close>: what the components use of
    Rust's standard library and of \<open>serde_json::Value\<close>: integers as words, byte orders (the
    locale \<open>fixed_codec\<close>), \<open>Result\<close> with \<open>anyhow\<close> contexts, UTF-8, \<open>trim\<close>, \<open>split\<close>, parsing
    and printing of numbers and socket addresses, JSON objects.
  \<^item> \<open>Models\<close>, \<open>Reports\<close>, \<open>Status\<close>: the data of \<open>models.rs\<close>, and every place of \<open>manager.rs\<close> and
    \<open>test_server.rs\<close> that writes the shared \<open>NetworkStatus\<close>.
  \<^item> \<open>Wss_Frame\<close>, \<open>Wss_Mux\<close>, \<open>Wss_Host\<close>, \<open>Wss_Client\<close>, \<open>Wss_Link\<close>, \<open>Wss_Contents\<close>,
    \<open>Wss_System\<close>, \<open>Wss_Session\<close>, \<open>Wss_Backpressure\<close>: \<open>wss_relay.rs\<close>. Frames; the stream table
    with its channels and pumps; the reader loop of the host and the accept and reader loops
    of the client, TCP and UDP; their composition over an ordered link, as single runs and as
    a step relation of the whole session; handshakes, sessions, reconnect loops and start-up;
    and one stream at the granularity of its \<open>await\<close> points with the bounded channel and the
    lock of the table.
  \<^item> \<open>Manager\<close>, \<open>Manager_Ops\<close>, \<open>Manager_Flow\<close>, \<open>Manager_Tasks\<close>, with the proofs in
    \<open>Manager_Reset\<close>, \<open>Manager_Inv\<close>, \<open>Manager_Steps\<close>, \<open>Manager_Props\<close>: \<open>manager.rs\<close> and
    \<open>e4mc.rs\<close>. The session with its tasks and cancellation tokens; starting and stopping,
    announcing, accepting, relaying, kicking, preparing and committing a client; the
    connect flow with its retries and fallbacks on the status, through the tasks of an
    established connection up to their join; the loops of the spawned tasks. The e4mc runtime
    is the stub the repository has, whose start always fails; the writes of a round whose
    start succeeds are translated as well, but no run of this build makes them.
  \<^item> \<open>Quic_Stream\<close>, \<open>Cert\<close>: the bridges between TCP and QUIC of \<open>proxy.rs\<close>, and the
    certificate verifier and transport of \<open>cert.rs\<close>.
  \<^item> \<open>Stun\<close>: \<open>stun.rs\<close> and \<open>signaling.rs\<close>, the two STUN clients, NAT classification, the
    rounds of the discovery of the public address, the targets of hole punching.
  \<^item> \<open>Discovery\<close>, \<open>Lan_Broadcast\<close>: the RakNet and NetherNet datagrams and the loops around
    them, of \<open>discovery.rs\<close>, \<open>bedrock_broadcaster.rs\<close>, \<open>broadcaster.rs\<close>,
    \<open>nethernet_broadcaster.rs\<close>, \<open>lib.rs\<close>, \<open>bin/scan_bedrock.rs\<close> and a part of \<open>minecraft.rs\<close>.
  \<^item> \<open>Lobby\<close>: \<open>lobby.rs\<close> and the announcement, listing and event subscription of \<open>manager.rs\<close>.
  \<^item> \<open>Minecraft_Proto\<close>, \<open>Game_Ports\<close>, \<open>Game_Profile\<close>, \<open>Game_Probe\<close>: \<open>minecraft.rs\<close>. The status
    protocol; the ports the local game listens on; nickname, launcher, loader and version
    from files, logs and processes; the probes and the report before hosting.
  \<^item> \<open>Test_Server\<close>, \<open>Upnp\<close>, \<open>Tunnel\<close>: \<open>test_server.rs\<close>, \<open>upnp.rs\<close>, \<open>tunnel.rs\<close>.
  \<^item> \<open>Ui_Events\<close>: \<open>tauri_shim.rs\<close> and what \<open>manager.rs\<close> and \<open>tunnel.rs\<close> send through it.

  \<^bold>\<open>How state and operations correspond.\<close> Definitions carry the names of the functions they
  translate. A struct is a record, an enum a datatype, an unsigned integer a word, a \<open>String\<close> the
  list of its UTF-8 octets, a \<open>HashMap\<close> a map or an association list. Shared maps live in a
  store (\<open>mg_hosts\<close>) and are named by their index, since tasks of an old session keep
  writing to them. A task is an entry of \<open>mg_tasks\<close> until it ends or is aborted; cancelling a
  token is a list entry that tasks observe at their \<open>select!\<close>, and \<open>live_tasks\<close> are those not
  told to stop in one of these ways. The tasks that carry single game connections have
  neither token nor handle in the code and are no entries. Interleavings are step relations (\<open>host_step\<close>,
  \<open>client_step\<close>, \<open>system_step\<close>, \<open>mgr_step\<close>, \<open>status_step\<close>, \<open>lk_step\<close>) with reachable states, or an explicit
  schedule (\<open>try_join\<close>, \<open>copy_bidirectional_tolerant\<close>, \<open>client_sched\<close>). What the network, the operating
  system, the clock and the processes of the machine answer is an argument: a list of
  events, an outcome, or a record of the environment. Every error and early return is a
  branch, with the message of the code; messages in Russian are given in English.

  \<^bold>\<open>What the lemmas show.\<close> Relay: a frame and a compressed frame are read back; a client opens
  ids in order, sends no data for an id it has not opened, its bytes reach the local
  connection of the same id on the host and no other, and the bytes read back from the local
  server reach the game complete, under every schedule of the writers; of a host and a
  client running together (\<open>Wss_System\<close>), that in every reachable state each stream
  has carried exactly its own bytes, with what is on its way accounted for, and that the host
  never fails on its client's messages and can catch up with them, as long as the client has
  ids left (2^64 of them); the invariant of the host's session;
  the outcome of every reconnect loop, for sessions that return and for one that hangs; the
  refinement of the stream table by the detailed tasks. Manager: in every order of operations
  the tasks started with a session's token - accept and lobby loops, peers' connections,
  the client's flow - are told to stop when that session goes, for good (relays, the e4mc
  loop and the tasks without a token are not covered, and some of them escape); what stopping
  and resetting leave behind, each operation on every branch. Flows: the status during and
  after direct connections and fallback, and what the interface is told of it. Direct streams: the game and the server see each other's bytes
  exactly, and only behind the preamble. Status: peer count, unique ids, bounds of the log
  (the locale \<open>newest_log\<close>). STUN: both parsers read the same address from the same
  response and the address that was put in. Lobby: what is announced is what is listed, and
    what is listed leads a client to the announced address (below, across the components). LAN:
  what is broadcast is what is discovered. Detection: the offered ports and the nickname have
  their promised form and the freshest or best source wins. UPnP, tunnel, test server:
  results and clean-up on every path. Several theorems state a fault of the code as it is:
  a session that hangs, relays and loops that nobody can stop any more, a stream that is
  closed by a stale pump or joined to an old one, a refusal that is lost, rooms that stay
  listed, text that is decoded in the wrong code page.

  Interfaces are locales, interpreted on the model where it provides them: \<open>fixed_codec\<close> (byte
  orders), \<open>frame_transport\<close> (plain and compressed frames), \<open>stream_table\<close> (what the sessions
  need of the multiplexer), \<open>channel_contents\<close> (what a channel has seen of its stream, for
  both ends), \<open>newest_log\<close> (both logs), \<open>retry\<close> (loops that keep the last error)
  and \<open>first_found\<close> (loops up to the first item that means something).

  \<^bold>\<open>Parameters and hypotheses.\<close> Code that is not part of the repository is an argument: zstd
  (\<open>zstd_lossless\<close>), AES, HMAC, SHA-256 and hexadecimal coding
  (\<open>crypto_ok\<close>: decryption inverts encryption block by block, the coder its decoder), the
  JSON reader and writer of strings, Windows-1251, Unicode lower case, rcgen, rustls, quinn
  and the SOAP calls of the router. Each such hypothesis is satisfied by a concrete function
  in the witness of the theorem that uses it.

  \<^bold>\<open>Bounds and fuel.\<close> No definition runs on fuel that cuts a computation short: loops that wait
  for events recurse over the list of events given, and the rounds of a bounded loop are
  counted as in the code: ten direct attempts, three attempts to open a stream, six probes of
  a public address, five connections to a local target, 64 places in the channel of a stream,
  64 and 240 entries in the two logs, 150 punch packets of each kind. Byte parsers recurse on
  the shrinking rest of the input, with measures where the recursion is not structural.

  \<^bold>\<open>Not modelled.\<close> \<open>mod.rs\<close> and \<open>bin/discover.rs\<close> hold no logic of their own.
  The internals of the libraries: QUIC, TLS, WebSocket and HTTP, and the scheduling of
  the runtime beyond the orders the step relations allow. The events to the user interface
  of a host's ping loops, of the e4mc loop and of the test server, and tracing output; no
  operation reads them. Of the LAN broadcaster that a client's flow starts, only the
  announcement itself (\<open>Lan_Broadcast\<close>). Within a bridge or a copy, the part
  of a chunk that a failing write got out.
\<close>

section \<open>From the lobby to a connection\<close>

lemma visible_show_v4: "\<forall>ch \<in> set (show_addr (SockV4 a b c d p)). visible ch"
  using visible_show_nat by (auto simp: show_ipv4_def show_word_def visible_def)

lemma parse_peer_addr_show: "parse_peer_addr (show_addr (SockV4 a b c d p)) = Inr (SockV4 a b c d p)"
proof -
  have "show_addr (SockV4 a b c d p) \<noteq> []" by simp
  then show ?thesis
    by (simp only: parse_peer_addr_def trim_visible [OF visible_show_v4] parse_show_v4 Let_def) simp
qed

lemma prepare_succeeds:
  assumes "ce_bind e = Inr bound" and "ce_endpoint e = Inr x" and "ce_config e = Inr y"
  obtains public m' where "prepare_client_control e addr i room host ver slots m =
    (Inr (\<lparr>pc_peer_addr = addr, pc_peer_id = i, pc_room_name = room, pc_host_name = host,
      pc_mc_version = ver, pc_slots = slots\<rparr>, bound, public), m')"
proof (cases "ce_public e")
  case (Inl err)
  then show thesis
    using assms that by (cases "ce_local_ip e") (simp_all add: prepare_client_control_def Let_def)
next
  case (Inr pub)
  then show thesis using assms that by (simp add: prepare_client_control_def)
qed

lemma start_connects:
  assumes "prepare_client_control e addr i (''P2P '' @ i) i ''Unknown'' ''1/30'' m =
      (Inr (prepared, bound, public), m1)"
  shows "\<exists>m' rt t. start_client_connect e addr i relay False m = (Inr (), m') \<and> mg_session m' = Some rt
    \<and> sr_control rt = CClient addr \<and> sr_tasks rt = [t]
    \<and> \<lparr>tk_id = t, tk_kind = ClientFlow prepared relay False, tk_token = Some (sr_cancel rt)\<rparr> \<in> set (mg_tasks m')"
  unfolding start_client_connect_def assms by (simp add: new_token_def spawn_def Let_def)

lemma connect_without_host:
  assumes "\<nexists>rt h. mg_session m = Some rt \<and> sr_control rt = CHost h"
    and "parse_peer_addr text = Inr addr"
    and "ce_bind e = Inr bound" and "ce_endpoint e = Inr x" and "ce_config e = Inr y"
  shows "\<exists>m' rt. connect_to_peer e text (Some i) relay m = (Inr (), m') \<and> mg_session m' = Some rt
    \<and> sr_control rt = CClient addr
    \<and> (\<exists>t prepared. sr_tasks rt = [t]
        \<and> \<lparr>tk_id = t, tk_kind = ClientFlow prepared relay False, tk_token = Some (sr_cancel rt)\<rparr> \<in> set (mg_tasks m')
        \<and> pc_peer_addr prepared = addr \<and> pc_peer_id prepared = i)"
proof -
  have "punch_from_host addr (Some i) relay m = (False, m)"
    using assms(1) by (auto simp: punch_from_host_def split: option.split session_control.split)
  then have c: "connect_to_peer e text (Some i) relay m = start_client_connect e addr i relay False (reset_session m)"
    by (simp add: connect_to_peer_def assms(2))
  obtain public m1 where "prepare_client_control e addr i (''P2P '' @ i) i ''Unknown'' ''1/30'' (reset_session m) =
      (Inr (\<lparr>pc_peer_addr = addr, pc_peer_id = i, pc_room_name = ''P2P '' @ i, pc_host_name = i,
        pc_mc_version = ''Unknown'', pc_slots = ''1/30''\<rparr>, bound, public), m1)"
    using prepare_succeeds [OF assms(3-5)] by blast
  from start_connects [OF this, of relay] show ?thesis unfolding c by fastforce
qed

text \<open>
  C7: a room found in the lobby can be joined. When a host that knows its public IPv4 address
  posts its announcement, and it is the first of its peer id in the channel, then whoever
  lists the lobby finds for that id an endpoint text with which \<open>connect_to_peer\<close>, on a machine
  that is not hosting itself and whose socket, endpoint and configuration come up, starts a
  client session and a connect flow towards exactly that address and peer.
\<close>

theorem listed_room_can_be_joined:
  assumes "is_success code"
    and "\<forall>msg \<in> set (response_messages presence @ older).
       \<forall>server. server_of from_str msg = Some server \<longrightarrow> get_str ''peer_id'' server \<noteq> Some p"
    and "fst (lobby_tick p room nick version has_password (Some (show_addr (SockV4 a b c d port))) addrs probe s)
      = announcement"
    and "\<nexists>rt h. mg_session m = Some rt \<and> sr_control rt = CHost h"
    and "ce_bind e = Inr bound" and "ce_endpoint e = Inr x" and "ce_config e = Inr y"
  shows "\<exists>server endpoint m' rt.
    fetch_presence from_str presence (Some (code, Some (older @ presence_message p announcement # newer))) p = Some server
    \<and> get_str ''endpoint'' server = Some endpoint
    \<and> connect_to_peer e endpoint (Some p) relay m = (Inr (), m') \<and> mg_session m' = Some rt
    \<and> sr_control rt = CClient (SockV4 a b c d port)
    \<and> (\<exists>t prepared. sr_tasks rt = [t]
        \<and> \<lparr>tk_id = t, tk_kind = ClientFlow prepared relay False, tk_token = Some (sr_cancel rt)\<rparr> \<in> set (mg_tasks m')
        \<and> pc_peer_addr prepared = SockV4 a b c d port \<and> pc_peer_id prepared = p)"
proof -
  obtain q where q: "announcement = host_announcement p room nick version has_password
      (Some (show_addr (SockV4 a b c d port))) addrs q"
    using assms(3) by (cases probe) (auto simp: lobby_tick_def)
  obtain base where l: "fetch_presence from_str presence (Some (code, Some (older
      @ presence_message p announcement # newer))) p
      = Some (JObject (obj_insert ''peer_id'' (JString p) (obj_insert ''client_id'' (JString p)
          (with_probe q (with_addresses (Some (show_addr (SockV4 a b c d port))) addrs base)))))"
    and n: "map_of base ''endpoint'' = None"
    unfolding q by (rule announcement_listed [OF assms(1,2)]) blast
  obtain m' rt where c: "connect_to_peer e (show_addr (SockV4 a b c d port)) (Some p) relay m = (Inr (), m')"
      "mg_session m' = Some rt" "sr_control rt = CClient (SockV4 a b c d port)"
      "\<exists>t prepared. sr_tasks rt = [t]
        \<and> \<lparr>tk_id = t, tk_kind = ClientFlow prepared relay False, tk_token = Some (sr_cancel rt)\<rparr> \<in> set (mg_tasks m')
        \<and> pc_peer_addr prepared = SockV4 a b c d port \<and> pc_peer_id prepared = p"
    using connect_without_host [OF assms(4) parse_peer_addr_show assms(5-7), where i = p and relay = relay] by blast
  have "get_str ''endpoint'' (JObject (obj_insert ''peer_id'' (JString p) (obj_insert ''client_id'' (JString p)
      (with_probe q (with_addresses (Some (show_addr (SockV4 a b c d port))) addrs base))))) =
      Some (show_addr (SockV4 a b c d port))"
    using n by (simp add: with_probe_fields with_addresses_fields del: show_addr.simps)
  with l c show ?thesis by blast
qed

theorem listed_room_can_be_joined_witness:
  "\<exists>endpoint m'. connect_to_peer
      \<lparr>ce_bind = Inr (SockV4 0 0 0 0 4300), ce_public = Inl [], ce_local_ip = None, ce_local_ips = [],
       ce_endpoint = Inr (), ce_config = Inr ()\<rparr> endpoint (Some ''id'') None new_manager = (Inr (), m')
    \<and> map_option sr_control (mg_session m') = Some (CClient (SockV4 192 0 2 1 4000))"
proof -
  let ?e = "\<lparr>ce_bind = Inr (SockV4 0 0 0 0 4300), ce_public = Inl [], ce_local_ip = None, ce_local_ips = [],
       ce_endpoint = Inr (), ce_config = Inr ()\<rparr>"
  have r: "is_success 200" "\<forall>msg \<in> set (response_messages None @ []).
       \<forall>server. server_of (\<lambda>_. None) msg = Some server \<longrightarrow> get_str ''peer_id'' server \<noteq> Some ''id''"
    by (simp_all add: is_success_def response_messages_def)
  have n: "\<nexists>rt h. mg_session new_manager = Some rt \<and> sr_control rt = CHost h"
    by (simp add: new_manager_def)
  have e: "ce_bind ?e = Inr (SockV4 0 0 0 0 4300)" "ce_endpoint ?e = Inr ()" "ce_config ?e = Inr ()"
    by simp_all
  from listed_room_can_be_joined [OF r refl n e, where a = 192 and b = 0 and c = 2 and d = 1
      and port = 4000 and relay = None]
  show ?thesis by fastforce
qed

end
